theory Spec2Isabelle
  imports Main "HOL-Library.Word" "HOL-Library.Signed_Division"
begin

unbundle bit_operations_syntax

section \<open>Machine integers and bit utilities\<close>

text \<open>
  The engine is AssemblyScript compiled to WebAssembly.  Bitboards and hash codes are
  \<open>u64\<close>, the two score accumulators and the two half-move counters are \<open>i16\<close>, packed
  scores are \<open>u32\<close>; they are words here, so that \<open>+\<close> and \<open>-\<close> wrap as in the source.
  Pieces, colours, square indices, the state bit mask and the evaluation scores are \<open>i32\<close>;
  they are modelled as \<open>int\<close> (bitwise operations on \<open>int\<close> are two's complement, as on
  \<open>i32\<close>), and the one place of the modelled code where an \<open>i32\<close> can overflow, the left
  shift of the king danger score, has its wrap-around written out (\<open>wrap32\<close>).
\<close>

type_synonym u64 = "64 word"
type_synonym u32 = "32 word"
type_synonym i16 = "16 word"

definition wrap32 :: "int \<Rightarrow> int" where
  "wrap32 x = sint (word_of_int x :: 32 word)"

text \<open>\<open>u64(1) << pos\<close>: WebAssembly takes the shift count of a 64-bit shift modulo 64.\<close>

definition bit64 :: "int \<Rightarrow> u64" where
  "bit64 pos = push_bit (nat (pos mod 64)) 1"

text \<open>The WebAssembly instructions \<open>popcnt\<close> and \<open>ctz\<close> on 64-bit values, and \<open>ctz\<close> on a
  32-bit value (64 resp. 32 for the value zero).\<close>

definition popcnt :: "u64 \<Rightarrow> int" where
  "popcnt w = int (length (filter (bit w) [0..<64]))"

definition ctz :: "u64 \<Rightarrow> int" where
  "ctz w = int (length (takeWhile (\<lambda>n. \<not> bit w n) [0..<64]))"

definition ctz32 :: "int \<Rightarrow> int" where
  "ctz32 x = int (length (takeWhile (\<lambda>n. \<not> bit x n) [0..<32]))"

definition rotr :: "u64 \<Rightarrow> nat \<Rightarrow> u64" where
  "rotr w n = word_rotr n w"

section \<open>External collaborators\<close>

subsection \<open>util.ts\<close>

text \<open>Modelled from the spec: the module \<open>util.ts\<close> (\<open>packScores\<close>, \<open>unpackFirstScore\<close>,
  \<open>unpackSecondScore\<close>, \<open>sign\<close>) is not among the sources.  Section 4.1 of the specification
  gives \<open>pack(a: i16, b: i16) -> u32 = (u32(a) & 0xFFFF) | (u32(b) << 16)\<close> and the symmetric
  unpack; section 3 gives the colour of a piece as its sign, with 0 for the empty square.\<close>

definition packScores :: "i16 \<Rightarrow> i16 \<Rightarrow> u32" where
  "packScores a b = (ucast a AND 0xFFFF) OR push_bit 16 (ucast b)"

definition unpackFirstScore :: "u32 \<Rightarrow> i16" where
  "unpackFirstScore packed = ucast (packed AND 0xFFFF)"

definition unpackSecondScore :: "u32 \<Rightarrow> i16" where
  "unpackSecondScore packed = ucast (drop_bit 16 packed)"

definition sign :: "int \<Rightarrow> int" where
  "sign x = (if x = 0 then 0 else if x < 0 then - 1 else 1)"

subsection \<open>pieces.ts\<close>

text \<open>Modelled from the spec: the module \<open>pieces.ts\<close> is not among the sources.  Section 3
  of the specification gives the piece magnitudes 1..6; the rook start squares are the
  four corners of the board in the index convention of the specification (index 0 top-left
  from White's view, Black king on 4, White king on 60, White king-side rook on 63 in
  scenario 3); the pawn base lines are ranks 1 and 6, the en-passant lines ranks 2 and 5.\<close>

definition PAWN :: int where "PAWN = 1"
definition KNIGHT :: int where "KNIGHT = 2"
definition BISHOP :: int where "BISHOP = 3"
definition ROOK :: int where "ROOK = 4"
definition QUEEN :: int where "QUEEN = 5"
definition KING :: int where "KING = 6"

definition WHITE_QUEEN_SIDE_ROOK_START :: int where "WHITE_QUEEN_SIDE_ROOK_START = 56"
definition WHITE_KING_SIDE_ROOK_START :: int where "WHITE_KING_SIDE_ROOK_START = 63"
definition BLACK_QUEEN_SIDE_ROOK_START :: int where "BLACK_QUEEN_SIDE_ROOK_START = 0"
definition BLACK_KING_SIDE_ROOK_START :: int where "BLACK_KING_SIDE_ROOK_START = 7"
definition WHITE_PAWNS_BASELINE_START :: int where "WHITE_PAWNS_BASELINE_START = 48"
definition BLACK_PAWNS_BASELINE_START :: int where "BLACK_PAWNS_BASELINE_START = 8"

subsection \<open>Tables and functions of zobrist.ts, bitboard.ts and history.ts\<close>

text \<open>
  The piece values, the Zobrist random numbers, the attack pattern tables, the pawn and
  sliding attack functions and the repetition test of the position history are external
  to the board module.  They are parameters of the model, collected in one record; the
  two piece-square tables are module-level arrays of the board module that
  \<open>calculatePieceSquareTables\<close> fills at start-up from the external piece values, and are
  parameters as well.  Tables are functions of the index.
\<close>

record env =
  PIECE_VALUES :: "int \<Rightarrow> int"
  PIECE_RNG_NUMBERS :: "int \<Rightarrow> u64"
  CASTLING_RNG_NUMBERS :: "int \<Rightarrow> u64"
  EN_PASSANT_RNG_NUMBERS :: "int \<Rightarrow> u64"
  PLAYER_RNG_NUMBER :: u64
  WHITE_POSITION_SCORES :: "int \<Rightarrow> u32"
  BLACK_POSITION_SCORES :: "int \<Rightarrow> u32"
  KNIGHT_PATTERNS :: "int \<Rightarrow> u64"
  KING_PATTERNS :: "int \<Rightarrow> u64"
  WHITE_KING_SHIELD_PATTERNS :: "int \<Rightarrow> u64"
  BLACK_KING_SHIELD_PATTERNS :: "int \<Rightarrow> u64"
  KING_DANGER_ZONE_PATTERNS :: "int \<Rightarrow> u64"
  WHITE_PAWN_FREEPATH_PATTERNS :: "int \<Rightarrow> u64"
  BLACK_PAWN_FREEPATH_PATTERNS :: "int \<Rightarrow> u64"
  LIGHT_COLORED_FIELD_PATTERN :: u64
  DARK_COLORED_FIELD_PATTERN :: u64
  whiteLeftPawnAttacks :: "u64 \<Rightarrow> u64"
  whiteRightPawnAttacks :: "u64 \<Rightarrow> u64"
  blackLeftPawnAttacks :: "u64 \<Rightarrow> u64"
  blackRightPawnAttacks :: "u64 \<Rightarrow> u64"
  horizontalAttacks :: "u64 \<Rightarrow> int \<Rightarrow> u64"
  verticalAttacks :: "u64 \<Rightarrow> int \<Rightarrow> u64"
  diagonalAttacks :: "u64 \<Rightarrow> int \<Rightarrow> u64"
  antiDiagonalAttacks :: "u64 \<Rightarrow> int \<Rightarrow> u64"
  isSingleRepetition :: "u64 list \<Rightarrow> bool"

section \<open>Constants of the board module\<close>

definition WHITE_KING_START :: int where "WHITE_KING_START = 60"
definition BLACK_KING_START :: int where "BLACK_KING_START = 4"

definition HALFMOVE_CLOCK_INDEX :: int where "HALFMOVE_CLOCK_INDEX = 64"
definition HALFMOVE_COUNT_INDEX :: int where "HALFMOVE_COUNT_INDEX = 65"
definition STATE_INDEX :: int where "STATE_INDEX = 66"

definition MAX_GAME_HALFMOVES :: int where "MAX_GAME_HALFMOVES = 5898 * 2"

text \<open>\<open>1 << 31\<close> as an \<open>i32\<close> is the smallest 32-bit integer.\<close>

definition EN_PASSANT_BIT :: int where "EN_PASSANT_BIT = wrap32 (push_bit 31 1)"

definition DOUBLED_PAWN_PENALTY :: int where "DOUBLED_PAWN_PENALTY = 6"
definition PASSED_PAWN_BONUS :: int where "PASSED_PAWN_BONUS = 25"
definition KING_SHIELD_BONUS :: int where "KING_SHIELD_BONUS = 21"
definition PAWNLESS_DRAW_SCORE_LOW_THRESHOLD :: int where "PAWNLESS_DRAW_SCORE_LOW_THRESHOLD = 100"
definition PAWNLESS_DRAW_SCORE_HIGH_THRESHOLD :: int where "PAWNLESS_DRAW_SCORE_HIGH_THRESHOLD = 400"
definition PAWNLESS_DRAW_CLOCK_THRESHOLD :: int where "PAWNLESS_DRAW_CLOCK_THRESHOLD = 64"
definition CASTLING_BONUS :: int where "CASTLING_BONUS = 28"
definition LOST_QUEENSIDE_CASTLING_PENALTY :: int where "LOST_QUEENSIDE_CASTLING_PENALTY = 18"
definition LOST_KINGSIDE_CASTLING_PENALTY :: int where "LOST_KINGSIDE_CASTLING_PENALTY = 21"
definition KING_DANGER_THRESHOLD :: int where "KING_DANGER_THRESHOLD = 1"
definition KING_DANGER_PIECE_PENALTY :: int where "KING_DANGER_PIECE_PENALTY = 21"
definition PAWN_COVER_BONUS :: int where "PAWN_COVER_BONUS = 14"
definition KNIGHT_MOB_BONUS :: int where "KNIGHT_MOB_BONUS = 5"
definition BISHOP_MOB_BONUS :: int where "BISHOP_MOB_BONUS = 5"
definition ROOK_MOB_BONUS :: int where "ROOK_MOB_BONUS = 5"
definition QUEEN_MOB_BONUS :: int where "QUEEN_MOB_BONUS = 5"

definition BLACK :: int where "BLACK = - 1"
definition WHITE :: int where "WHITE = 1"
definition EMPTY :: int where "EMPTY = 0"

definition WHITE_KING_SIDE_CASTLING :: int where "WHITE_KING_SIDE_CASTLING = push_bit 7 1"
definition BLACK_KING_SIDE_CASTLING :: int where "BLACK_KING_SIDE_CASTLING = push_bit 8 1"
definition WHITE_QUEEN_SIDE_CASTLING :: int where "WHITE_QUEEN_SIDE_CASTLING = push_bit 9 1"
definition BLACK_QUEEN_SIDE_CASTLING :: int where "BLACK_QUEEN_SIDE_CASTLING = push_bit 10 1"
definition WHITE_HAS_CASTLED :: int where "WHITE_HAS_CASTLED = push_bit 11 1"
definition BLACK_HAS_CASTLED :: int where "BLACK_HAS_CASTLED = push_bit 12 1"

definition CASTLING_BITSTART :: nat where "CASTLING_BITSTART = 7"

definition BITS :: "nat list" where
  "BITS = [13, 14, 15, 16, 17, 18, 19, 20, 21, 22, 23, 24, 25, 26, 27, 28]"

definition EN_PASSANT_BITSTART :: nat where "EN_PASSANT_BITSTART = 13"

definition calculateEnPassantBitMask :: "nat \<Rightarrow> int" where
  "calculateEnPassantBitMask b = push_bit b 1"

definition EN_PASSANT_BITMASKS :: "int list" where
  "EN_PASSANT_BITMASKS = map calculateEnPassantBitMask BITS"

section \<open>The board\<close>

text \<open>
  The fields of the class \<open>Board\<close>.  The arrays are \<open>StaticArray\<close>s that the source reads
  and writes through \<open>unchecked\<close>, that is, with no bounds check; they are functions of the
  index here, and \<open>itemsLength\<close> is the length of \<open>items\<close> (the state word is its last
  entry).  An access outside an array is outside this model: the theorems below assume
  squares within 0..63, pieces within -6..6 and a history counter below
  \<open>MAX_GAME_HALFMOVES\<close>.  The position history is an external stack of hash codes
  (\<open>push\<close>, \<open>pop\<close>); it is a list whose last element is the top.
\<close>

record board =
  items :: "int \<Rightarrow> int"
  itemsLength :: int
  whiteKingIndex :: int
  blackKingIndex :: int
  score :: i16
  egScore :: i16
  halfMoveCount :: i16
  halfMoveClock :: i16
  bitBoardPieces :: "int \<Rightarrow> u64"
  bitBoardAllPieces :: "int \<Rightarrow> u64"
  hashCode :: u64
  historyCounter :: int
  stateHistory :: "int \<Rightarrow> int"
  hashCodeHistory :: "int \<Rightarrow> u64"
  scoreHistory :: "int \<Rightarrow> u32"
  halfMoveClockHistory :: "int \<Rightarrow> i16"
  positionHistory :: "u64 list"
  endgame :: int

definition getBitBoard :: "board \<Rightarrow> int \<Rightarrow> u64" where
  "getBitBoard b piece = bitBoardPieces b (piece + 6)"

definition getAllPieceBitBoard :: "board \<Rightarrow> int \<Rightarrow> u64" where
  "getAllPieceBitBoard b color = bitBoardAllPieces b (color + 1)"

definition getItem :: "board \<Rightarrow> int \<Rightarrow> int" where
  "getItem b pos = items b pos"

definition getState :: "board \<Rightarrow> int" where
  "getState b = items b (itemsLength b - 1)"

definition getHash :: "board \<Rightarrow> u64" where
  "getHash b = hashCode b"

definition getHalfMoveClock :: "board \<Rightarrow> int" where
  "getHalfMoveClock b = sint (halfMoveClock b)"

definition getOccupancyBitboard :: "board \<Rightarrow> u64" where
  "getOccupancyBitboard b = getAllPieceBitBoard b WHITE OR getAllPieceBitBoard b BLACK"

subsection \<open>The history frames\<close>

definition storeState :: "board \<Rightarrow> board" where
  "storeState b = b\<lparr>
     stateHistory := (stateHistory b)(historyCounter b := items b STATE_INDEX),
     halfMoveClockHistory := (halfMoveClockHistory b)(historyCounter b := halfMoveClock b),
     hashCodeHistory := (hashCodeHistory b)(historyCounter b := hashCode b),
     scoreHistory := (scoreHistory b)(historyCounter b := packScores (score b) (egScore b)),
     historyCounter := historyCounter b + 1\<rparr>"

definition restoreState :: "board \<Rightarrow> board" where
  "restoreState b =
     (let hc = historyCounter b - 1;
          packedScore = scoreHistory b hc
      in b\<lparr>halfMoveCount := halfMoveCount b - 1,
           historyCounter := hc,
           items := (items b)(STATE_INDEX := stateHistory b hc),
           halfMoveClock := halfMoveClockHistory b hc,
           hashCode := hashCodeHistory b hc,
           score := unpackFirstScore packedScore,
           egScore := unpackSecondScore packedScore\<rparr>)"

subsection \<open>State bits and their hash\<close>

definition setStateBit :: "int \<Rightarrow> board \<Rightarrow> board" where
  "setStateBit bitMask b = b\<lparr>items := (items b)(itemsLength b - 1 := getState b OR bitMask)\<rparr>"

definition clearStateBit :: "int \<Rightarrow> board \<Rightarrow> board" where
  "clearStateBit bitMask b =
     b\<lparr>items := (items b)(itemsLength b - 1 := getState b AND NOT bitMask)\<rparr>"

definition getCastlingStateBits :: "board \<Rightarrow> int" where
  "getCastlingStateBits b = drop_bit CASTLING_BITSTART (getState b) AND 0xf"

definition getEnPassantStateBits :: "board \<Rightarrow> int" where
  "getEnPassantStateBits b = drop_bit EN_PASSANT_BITSTART (getState b) AND 0xFFFF"

definition updateHashForCastling :: "env \<Rightarrow> int \<Rightarrow> board \<Rightarrow> board" where
  "updateHashForCastling env previousCastlingState b =
     b\<lparr>hashCode := hashCode b XOR CASTLING_RNG_NUMBERS env previousCastlingState
                       XOR CASTLING_RNG_NUMBERS env (getCastlingStateBits b)\<rparr>"

definition updateHashForEnPassent :: "env \<Rightarrow> int \<Rightarrow> board \<Rightarrow> board" where
  "updateHashForEnPassent env previousEnPassantState b =
     (let newEnPassantState = getEnPassantStateBits b
      in if previousEnPassantState \<noteq> newEnPassantState then
           (let h1 = (if previousEnPassantState \<noteq> 0
                      then hashCode b XOR EN_PASSANT_RNG_NUMBERS env (ctz32 previousEnPassantState)
                      else hashCode b);
                h2 = (if newEnPassantState \<noteq> 0
                      then h1 XOR EN_PASSANT_RNG_NUMBERS env (ctz32 newEnPassantState)
                      else h1)
            in b\<lparr>hashCode := h2\<rparr>)
         else b)"

definition setEnPassantPossible :: "env \<Rightarrow> int \<Rightarrow> board \<Rightarrow> board" where
  "setEnPassantPossible env boardIndex b =
     (let previousEnPassantState = getEnPassantStateBits b;
          enPassentBitIndex = (if boardIndex \<ge> WHITE_PAWNS_BASELINE_START
                               then boardIndex - WHITE_PAWNS_BASELINE_START + 8
                               else boardIndex - BLACK_PAWNS_BASELINE_START)
      in updateHashForEnPassent env previousEnPassantState
           (setStateBit (EN_PASSANT_BITMASKS ! nat enPassentBitIndex) b))"

definition clearEnPassentPossible :: "env \<Rightarrow> board \<Rightarrow> board" where
  "clearEnPassentPossible env b =
     (let previousEnPassantState = getEnPassantStateBits b
      in if previousEnPassantState \<noteq> 0 then
           updateHashForEnPassent env previousEnPassantState
             (b\<lparr>items := (items b)(itemsLength b - 1 :=
                   getState b AND (EN_PASSANT_BITMASKS ! 0 - 1))\<rparr>)
         else b)"

definition increaseHalfMoveCount :: "env \<Rightarrow> board \<Rightarrow> board" where
  "increaseHalfMoveCount env b =
     b\<lparr>halfMoveClock := halfMoveClock b + 1,
       halfMoveCount := halfMoveCount b + 1,
       hashCode := hashCode b XOR PLAYER_RNG_NUMBER env\<rparr>"

definition resetHalfMoveClock :: "board \<Rightarrow> board" where
  "resetHalfMoveClock b = b\<lparr>halfMoveClock := 0\<rparr>"

definition hasWhiteCastled :: "board \<Rightarrow> bool" where
  "hasWhiteCastled b = (getState b AND WHITE_HAS_CASTLED \<noteq> 0)"

definition canWhiteCastleKingSide :: "board \<Rightarrow> bool" where
  "canWhiteCastleKingSide b = (getState b AND WHITE_KING_SIDE_CASTLING \<noteq> 0)"

definition canBlackCastleKingSide :: "board \<Rightarrow> bool" where
  "canBlackCastleKingSide b = (getState b AND BLACK_KING_SIDE_CASTLING \<noteq> 0)"

definition canWhiteCastleQueenSide :: "board \<Rightarrow> bool" where
  "canWhiteCastleQueenSide b = (getState b AND WHITE_QUEEN_SIDE_CASTLING \<noteq> 0)"

definition hasBlackCastled :: "board \<Rightarrow> bool" where
  "hasBlackCastled b = (getState b AND BLACK_HAS_CASTLED \<noteq> 0)"

definition canBlackCastleQueenSide :: "board \<Rightarrow> bool" where
  "canBlackCastleQueenSide b = (getState b AND BLACK_QUEEN_SIDE_CASTLING \<noteq> 0)"

definition setWhiteKingMoved :: "env \<Rightarrow> board \<Rightarrow> board" where
  "setWhiteKingMoved env b =
     (if canWhiteCastleKingSide b \<or> canWhiteCastleQueenSide b then
        (let previousCastlingState = getCastlingStateBits b
         in updateHashForCastling env previousCastlingState
              (clearStateBit WHITE_QUEEN_SIDE_CASTLING (clearStateBit WHITE_KING_SIDE_CASTLING b)))
      else b)"

definition setBlackKingMoved :: "env \<Rightarrow> board \<Rightarrow> board" where
  "setBlackKingMoved env b =
     (if canBlackCastleKingSide b \<or> canBlackCastleQueenSide b then
        (let previousCastlingState = getCastlingStateBits b
         in updateHashForCastling env previousCastlingState
              (clearStateBit BLACK_QUEEN_SIDE_CASTLING (clearStateBit BLACK_KING_SIDE_CASTLING b)))
      else b)"

definition setWhiteQueenSideRookMoved :: "env \<Rightarrow> board \<Rightarrow> board" where
  "setWhiteQueenSideRookMoved env b =
     (if canWhiteCastleQueenSide b then
        (let previousCastlingState = getCastlingStateBits b
         in updateHashForCastling env previousCastlingState
              (clearStateBit WHITE_QUEEN_SIDE_CASTLING b))
      else b)"

definition setWhiteKingSideRookMoved :: "env \<Rightarrow> board \<Rightarrow> board" where
  "setWhiteKingSideRookMoved env b =
     (if canWhiteCastleKingSide b then
        (let previousCastlingState = getCastlingStateBits b
         in updateHashForCastling env previousCastlingState
              (clearStateBit WHITE_KING_SIDE_CASTLING b))
      else b)"

definition setBlackQueenSideRookMoved :: "env \<Rightarrow> board \<Rightarrow> board" where
  "setBlackQueenSideRookMoved env b =
     (if canBlackCastleQueenSide b then
        (let previousCastlingState = getCastlingStateBits b
         in updateHashForCastling env previousCastlingState
              (clearStateBit BLACK_QUEEN_SIDE_CASTLING b))
      else b)"

definition setBlackKingSideRookMoved :: "env \<Rightarrow> board \<Rightarrow> board" where
  "setBlackKingSideRookMoved env b =
     (if canBlackCastleKingSide b then
        (let previousCastlingState = getCastlingStateBits b
         in updateHashForCastling env previousCastlingState
              (clearStateBit BLACK_KING_SIDE_CASTLING b))
      else b)"

definition findKingPosition :: "board \<Rightarrow> int \<Rightarrow> int" where
  "findKingPosition b playerColor =
     (if playerColor = WHITE then whiteKingIndex b else blackKingIndex b)"

definition updateWhiteKingPosition :: "env \<Rightarrow> int \<Rightarrow> board \<Rightarrow> board" where
  "updateWhiteKingPosition env boardIndex b =
     setWhiteKingMoved env (b\<lparr>whiteKingIndex := boardIndex\<rparr>)"

definition updateBlackKingPosition :: "env \<Rightarrow> int \<Rightarrow> board \<Rightarrow> board" where
  "updateBlackKingPosition env boardIndex b =
     setBlackKingMoved env (b\<lparr>blackKingIndex := boardIndex\<rparr>)"

definition updateKingPosition :: "env \<Rightarrow> int \<Rightarrow> int \<Rightarrow> board \<Rightarrow> board" where
  "updateKingPosition env playerColor boardIndex b =
     (if playerColor = WHITE then updateWhiteKingPosition env boardIndex b
      else updateBlackKingPosition env boardIndex b)"

subsection \<open>Placing and removing pieces\<close>

definition addPieceScore :: "env \<Rightarrow> int \<Rightarrow> int \<Rightarrow> board \<Rightarrow> board" where
  "addPieceScore env pos piece b =
     (let packedScores = (if piece > 0 then WHITE_POSITION_SCORES env (piece * 64 + pos)
                          else BLACK_POSITION_SCORES env (- piece * 64 + pos))
      in b\<lparr>score := score b + unpackFirstScore packedScores,
           egScore := egScore b + unpackSecondScore packedScores\<rparr>)"

definition subtractPieceScore :: "env \<Rightarrow> int \<Rightarrow> int \<Rightarrow> board \<Rightarrow> board" where
  "subtractPieceScore env pos piece b =
     (let packedScores = (if piece > 0 then WHITE_POSITION_SCORES env (piece * 64 + pos)
                          else BLACK_POSITION_SCORES env (- piece * 64 + pos))
      in b\<lparr>score := score b - unpackFirstScore packedScores,
           egScore := egScore b - unpackSecondScore packedScores\<rparr>)"

definition addPiece :: "env \<Rightarrow> int \<Rightarrow> int \<Rightarrow> int \<Rightarrow> board \<Rightarrow> board" where
  "addPiece env pieceColor pieceId pos b =
     (let piece = pieceId * pieceColor;
          b1 = b\<lparr>items := (items b)(pos := piece)\<rparr>;
          b2 = addPieceScore env pos piece b1;
          b3 = b2\<lparr>hashCode := hashCode b2 XOR PIECE_RNG_NUMBERS env ((piece + 6) * 64 + pos)\<rparr>;
          b4 = b3\<lparr>bitBoardPieces := (bitBoardPieces b3)
                 (piece + 6 := bitBoardPieces b3 (piece + 6) OR bit64 pos)\<rparr>
      in b4\<lparr>bitBoardAllPieces := (bitBoardAllPieces b4)
              (pieceColor + 1 := bitBoardAllPieces b4 (pieceColor + 1) OR bit64 pos)\<rparr>)"

definition addPieceWithoutIncrementalUpdate :: "int \<Rightarrow> int \<Rightarrow> int \<Rightarrow> board \<Rightarrow> board" where
  "addPieceWithoutIncrementalUpdate pieceColor piece pos b =
     (let b1 = b\<lparr>items := (items b)(pos := piece)\<rparr>;
          b2 = b1\<lparr>bitBoardPieces := (bitBoardPieces b1)
                 (piece + 6 := bitBoardPieces b1 (piece + 6) OR bit64 pos)\<rparr>
      in b2\<lparr>bitBoardAllPieces := (bitBoardAllPieces b2)
              (pieceColor + 1 := bitBoardAllPieces b2 (pieceColor + 1) OR bit64 pos)\<rparr>)"

text \<open>\<open>remove\<close> returns the piece it was given; the board comes first in the result.\<close>

definition remove :: "env \<Rightarrow> int \<Rightarrow> int \<Rightarrow> int \<Rightarrow> board \<Rightarrow> board \<times> int" where
  "remove env piece pieceColor pos b =
     (let b1 = b\<lparr>bitBoardPieces := (bitBoardPieces b)
                 (piece + 6 := bitBoardPieces b (piece + 6) AND NOT (bit64 pos))\<rparr>;
          b2 = b1\<lparr>bitBoardAllPieces := (bitBoardAllPieces b1)
                 (pieceColor + 1 := bitBoardAllPieces b1 (pieceColor + 1) AND NOT (bit64 pos))\<rparr>;
          b3 = b2\<lparr>items := (items b2)(pos := EMPTY)\<rparr>;
          b4 = (if piece = ROOK then
                  (if pos = WHITE_QUEEN_SIDE_ROOK_START then setWhiteQueenSideRookMoved env b3
                   else if pos = WHITE_KING_SIDE_ROOK_START then setWhiteKingSideRookMoved env b3
                   else b3)
                else if piece = - ROOK then
                  (if pos = BLACK_QUEEN_SIDE_ROOK_START then setBlackQueenSideRookMoved env b3
                   else if pos = BLACK_KING_SIDE_ROOK_START then setBlackKingSideRookMoved env b3
                   else b3)
                else b3)
      in (b4, piece))"

definition removePiece :: "env \<Rightarrow> int \<Rightarrow> board \<Rightarrow> board \<times> int" where
  "removePiece env pos b =
     (let piece = items b pos;
          b1 = subtractPieceScore env pos piece b;
          b2 = b1\<lparr>hashCode := hashCode b1 XOR PIECE_RNG_NUMBERS env ((piece + 6) * 64 + pos)\<rparr>;
          color = sign piece
      in remove env piece color pos b2)"

definition removePieceWithoutIncrementalUpdate :: "env \<Rightarrow> int \<Rightarrow> board \<Rightarrow> board \<times> int" where
  "removePieceWithoutIncrementalUpdate env pos b =
     (let piece = items b pos in remove env piece (sign piece) pos b)"

subsection \<open>Make and unmake\<close>

definition pushPositionHistory :: "board \<Rightarrow> board" where
  "pushPositionHistory b = b\<lparr>positionHistory := positionHistory b @ [getHash b]\<rparr>"

definition popPositionHistory :: "board \<Rightarrow> board" where
  "popPositionHistory b = b\<lparr>positionHistory := butlast (positionHistory b)\<rparr>"

text \<open>\<open>performMove\<close> returns the board after the move and the value the source returns.\<close>

definition performMove :: "env \<Rightarrow> int \<Rightarrow> int \<Rightarrow> int \<Rightarrow> board \<Rightarrow> board \<times> int" where
  "performMove env pieceId start endp b0 =
     (let b1 = storeState b0;
          b2 = increaseHalfMoveCount env b1;
          (b3, ownPiece) = removePiece env start b2;
          pieceColor = sign ownPiece;
          b4 = clearEnPassentPossible env b3
      in if getItem b4 endp \<noteq> EMPTY then
           (let (b5, removedPiece) = removePiece env endp b4;
                b6 = addPiece env pieceColor pieceId endp b5;
                b7 = resetHalfMoveClock b6;
                b8 = (if pieceId = KING then updateKingPosition env pieceColor endp b7 else b7)
            in (pushPositionHistory b8, \<bar>removedPiece\<bar>))
         else
           (let b5 = addPiece env pieceColor pieceId endp b4 in
            if ownPiece = PAWN then
              (let b6 = resetHalfMoveClock b5 in
               if start - endp = 16 then
                 (pushPositionHistory (setEnPassantPossible env start b6), EMPTY)
               else if start - endp = 7 then
                 (pushPositionHistory (fst (removePiece env (start + WHITE) b6)), EN_PASSANT_BIT)
               else if start - endp = 9 then
                 (pushPositionHistory (fst (removePiece env (start - WHITE) b6)), EN_PASSANT_BIT)
               else (pushPositionHistory b6, EMPTY))
            else if ownPiece = - PAWN then
              (let b6 = resetHalfMoveClock b5 in
               if start - endp = - 16 then
                 (pushPositionHistory (setEnPassantPossible env start b6), EMPTY)
               else if start - endp = - 7 then
                 (pushPositionHistory (fst (removePiece env (start + BLACK) b6)), EN_PASSANT_BIT)
               else if start - endp = - 9 then
                 (pushPositionHistory (fst (removePiece env (start - BLACK) b6)), EN_PASSANT_BIT)
               else (pushPositionHistory b6, EMPTY))
            else if ownPiece = KING then
              (let b6 = updateWhiteKingPosition env endp b5 in
               if start - endp = - 2 then
                 (pushPositionHistory
                    (setStateBit WHITE_HAS_CASTLED
                       (addPiece env pieceColor ROOK (WHITE_KING_START + 1)
                          (fst (removePiece env WHITE_KING_SIDE_ROOK_START b6)))), EMPTY)
               else if start - endp = 2 then
                 (pushPositionHistory
                    (setStateBit WHITE_HAS_CASTLED
                       (addPiece env pieceColor ROOK (WHITE_KING_START - 1)
                          (fst (removePiece env WHITE_QUEEN_SIDE_ROOK_START b6)))), EMPTY)
               else (pushPositionHistory b6, EMPTY))
            else if ownPiece = - KING then
              (let b6 = updateBlackKingPosition env endp b5 in
               if start - endp = - 2 then
                 (pushPositionHistory
                    (setStateBit BLACK_HAS_CASTLED
                       (addPiece env pieceColor ROOK (BLACK_KING_START + 1)
                          (fst (removePiece env BLACK_KING_SIDE_ROOK_START b6)))), EMPTY)
               else if start - endp = 2 then
                 (pushPositionHistory
                    (setStateBit BLACK_HAS_CASTLED
                       (addPiece env pieceColor ROOK (BLACK_KING_START - 1)
                          (fst (removePiece env BLACK_QUEEN_SIDE_ROOK_START b6)))), EMPTY)
               else (pushPositionHistory b6, EMPTY))
            else (pushPositionHistory b5, EMPTY)))"

definition performNullMove :: "env \<Rightarrow> board \<Rightarrow> board" where
  "performNullMove env b = clearEnPassentPossible env (increaseHalfMoveCount env (storeState b))"

definition undoMove :: "env \<Rightarrow> int \<Rightarrow> int \<Rightarrow> int \<Rightarrow> int \<Rightarrow> board \<Rightarrow> board" where
  "undoMove env piece start endp removedPieceId b0 =
     (let b1 = popPositionHistory b0;
          pieceColor = sign piece;
          b2 = fst (removePieceWithoutIncrementalUpdate env endp b1);
          b3 = addPieceWithoutIncrementalUpdate pieceColor piece start b2;
          b4 = (if removedPieceId = EN_PASSANT_BIT then
                  (if \<bar>start - endp\<bar> = 7 then
                     addPieceWithoutIncrementalUpdate (- pieceColor) (PAWN * - pieceColor)
                       (start + pieceColor) b3
                   else if \<bar>start - endp\<bar> = 9 then
                     addPieceWithoutIncrementalUpdate (- pieceColor) (PAWN * - pieceColor)
                       (start - pieceColor) b3
                   else b3)
                else if removedPieceId \<noteq> EMPTY then
                  addPieceWithoutIncrementalUpdate (- pieceColor) (removedPieceId * - pieceColor)
                    endp b3
                else b3);
          b5 = (if piece = KING then
                  (let b = updateWhiteKingPosition env start b4 in
                   if start - endp = - 2 then
                     addPieceWithoutIncrementalUpdate WHITE ROOK WHITE_KING_SIDE_ROOK_START
                       (fst (removePieceWithoutIncrementalUpdate env (WHITE_KING_START + 1) b))
                   else if start - endp = 2 then
                     addPieceWithoutIncrementalUpdate WHITE ROOK WHITE_QUEEN_SIDE_ROOK_START
                       (fst (removePieceWithoutIncrementalUpdate env (WHITE_KING_START - 1) b))
                   else b)
                else if piece = - KING then
                  (let b = updateBlackKingPosition env start b4 in
                   if start - endp = - 2 then
                     addPieceWithoutIncrementalUpdate BLACK (- ROOK) BLACK_KING_SIDE_ROOK_START
                       (fst (removePieceWithoutIncrementalUpdate env (BLACK_KING_START + 1) b))
                   else if start - endp = 2 then
                     addPieceWithoutIncrementalUpdate BLACK (- ROOK) BLACK_QUEEN_SIDE_ROOK_START
                       (fst (removePieceWithoutIncrementalUpdate env (BLACK_KING_START - 1) b))
                   else b)
                else b4)
      in restoreState b5)"

definition undoNullMove :: "board \<Rightarrow> board" where
  "undoNullMove b = restoreState b"

section \<open>Attack queries and static exchange evaluation\<close>

definition findSmallestAttacker :: "env \<Rightarrow> board \<Rightarrow> u64 \<Rightarrow> int \<Rightarrow> int \<Rightarrow> int" where
  "findSmallestAttacker env b occupiedBB opponentColor pos =
     (let targetBB = bit64 pos in
      if opponentColor = WHITE then
        (let whitePawns = getBitBoard b PAWN AND occupiedBB in
         if whiteLeftPawnAttacks env whitePawns AND targetBB \<noteq> 0 then pos + 9
         else if whiteRightPawnAttacks env whitePawns AND targetBB \<noteq> 0 then pos + 7
         else
          (let knights = getBitBoard b KNIGHT AND occupiedBB;
               attackingKnights = knights AND KNIGHT_PATTERNS env pos in
           if attackingKnights \<noteq> 0 then ctz attackingKnights
           else
            (let allDiagonalAttacks =
                   diagonalAttacks env occupiedBB pos OR antiDiagonalAttacks env occupiedBB pos;
                 bishops = getBitBoard b BISHOP AND occupiedBB;
                 attackingBishops = bishops AND allDiagonalAttacks in
             if attackingBishops \<noteq> 0 then ctz attackingBishops
             else
              (let orthogonalAttacks =
                     horizontalAttacks env occupiedBB pos OR verticalAttacks env occupiedBB pos;
                   rooks = getBitBoard b ROOK AND occupiedBB;
                   attackingRooks = rooks AND orthogonalAttacks in
               if attackingRooks \<noteq> 0 then ctz attackingRooks
               else
                (let queens = getBitBoard b QUEEN AND occupiedBB;
                     attackingQueens = queens AND (orthogonalAttacks OR allDiagonalAttacks) in
                 if attackingQueens \<noteq> 0 then ctz attackingQueens
                 else
                  (let kingPos = whiteKingIndex b;
                       attackingKing = KING_PATTERNS env kingPos AND targetBB in
                   if attackingKing \<noteq> 0 then
                     (if bit64 kingPos AND occupiedBB \<noteq> 0 then kingPos else - 1)
                   else - 1))))))
      else
        (let blackPawns = getBitBoard b (- PAWN) AND occupiedBB in
         if blackLeftPawnAttacks env blackPawns AND targetBB \<noteq> 0 then pos - 7
         else if blackRightPawnAttacks env blackPawns AND targetBB \<noteq> 0 then pos - 9
         else
          (let knights = getBitBoard b (- KNIGHT) AND occupiedBB;
               attackingKnights = knights AND KNIGHT_PATTERNS env pos in
           if attackingKnights \<noteq> 0 then ctz attackingKnights
           else
            (let allDiagonalAttacks =
                   diagonalAttacks env occupiedBB pos OR antiDiagonalAttacks env occupiedBB pos;
                 bishops = getBitBoard b (- BISHOP) AND occupiedBB;
                 attackingBishops = bishops AND allDiagonalAttacks in
             if attackingBishops \<noteq> 0 then ctz attackingBishops
             else
              (let orthogonalAttacks =
                     horizontalAttacks env occupiedBB pos OR verticalAttacks env occupiedBB pos;
                   rooks = getBitBoard b (- ROOK) AND occupiedBB;
                   attackingRooks = rooks AND orthogonalAttacks in
               if attackingRooks \<noteq> 0 then ctz attackingRooks
               else
                (let queens = getBitBoard b (- QUEEN) AND occupiedBB;
                     attackingQueens = queens AND (orthogonalAttacks OR allDiagonalAttacks) in
                 if attackingQueens \<noteq> 0 then ctz attackingQueens
                 else
                  (let kingPos = blackKingIndex b;
                       attackingKing = KING_PATTERNS env kingPos AND targetBB in
                   if attackingKing \<noteq> 0 then
                     (if bit64 kingPos AND occupiedBB \<noteq> 0 then kingPos else - 1)
                   else - 1)))))))"

definition isAttacked :: "env \<Rightarrow> board \<Rightarrow> int \<Rightarrow> int \<Rightarrow> bool" where
  "isAttacked env b opponentColor pos =
     (findSmallestAttacker env b (getOccupancyBitboard b) opponentColor pos \<ge> 0)"

definition isInCheck :: "env \<Rightarrow> board \<Rightarrow> int \<Rightarrow> bool" where
  "isInCheck env b activeColor =
     isAttacked env b (- activeColor) (findKingPosition b activeColor)"

text \<open>
  The \<open>do ... while (true)\<close> loop of \<open>seeScore\<close>.  The first argument bounds the number of
  iterations: \<open>None\<close> is the loop still running after that many iterations, \<open>Some s\<close> is
  the loop returning \<open>s\<close>.  The score is an \<open>i32\<close>: sums and differences wrap.
\<close>

primrec seeLoop :: "nat \<Rightarrow> env \<Rightarrow> board \<Rightarrow> int \<Rightarrow> int \<Rightarrow> int \<Rightarrow> u64 \<Rightarrow> int \<Rightarrow> int option" where
  "seeLoop 0 env b opponentColor target sc occupied trophyPieceScore = None"
| "seeLoop (Suc n) env b opponentColor target sc occupied trophyPieceScore =
     (let attackerPos = findSmallestAttacker env b occupied opponentColor target in
      if attackerPos < 0 then Some sc
      else
       (let sc1 = wrap32 (sc - trophyPieceScore);
            trophy1 = PIECE_VALUES env \<bar>getItem b attackerPos\<bar> in
        if wrap32 (sc1 + trophy1) < 0 then Some sc1
        else
         (let occupied1 = occupied AND NOT (bit64 attackerPos);
              ownAttackerPos = findSmallestAttacker env b occupied1 (- opponentColor) target in
          if ownAttackerPos < 0 then Some sc1
          else
           (let sc2 = wrap32 (sc1 + trophy1);
                trophy2 = PIECE_VALUES env \<bar>getItem b ownAttackerPos\<bar> in
            if wrap32 (sc2 - trophy2) > 0 then Some sc2
            else seeLoop n env b opponentColor target sc2
                   (occupied1 AND NOT (bit64 ownAttackerPos)) trophy2))))"

definition seeScore :: "nat \<Rightarrow> env \<Rightarrow> board \<Rightarrow> int \<Rightarrow> int \<Rightarrow> int \<Rightarrow> int \<Rightarrow> int \<Rightarrow> int option" where
  "seeScore fuel env b opponentColor from target ownPieceId capturedPieceId =
     seeLoop fuel env b opponentColor target (PIECE_VALUES env capturedPieceId)
       (getOccupancyBitboard b AND NOT (bit64 from)) (PIECE_VALUES env ownPieceId)"

section \<open>Draw detection and the endgame flag\<close>

definition isFiftyMoveDraw :: "board \<Rightarrow> bool" where
  "isFiftyMoveDraw b = (getHalfMoveClock b \<ge> 100)"

definition isInsufficientMaterialDraw :: "env \<Rightarrow> board \<Rightarrow> bool" where
  "isInsufficientMaterialDraw env b =
     (let n = popcnt (getAllPieceBitBoard b WHITE OR getAllPieceBitBoard b BLACK) in
      if n = 2 then True
      else if n = 3 then
        (let knightsOrBishops = getBitBoard b KNIGHT OR getBitBoard b (- KNIGHT)
                                OR getBitBoard b BISHOP OR getBitBoard b (- BISHOP)
         in knightsOrBishops \<noteq> 0)
      else if n = 4 then
        (let whiteBishops = getBitBoard b BISHOP;
             blackBishops = getBitBoard b (- BISHOP)
         in (whiteBishops AND LIGHT_COLORED_FIELD_PATTERN env \<noteq> 0
               \<and> blackBishops AND LIGHT_COLORED_FIELD_PATTERN env \<noteq> 0)
            \<or> (whiteBishops AND DARK_COLORED_FIELD_PATTERN env \<noteq> 0
               \<and> blackBishops AND DARK_COLORED_FIELD_PATTERN env \<noteq> 0))
      else False)"

definition isEngineDraw :: "env \<Rightarrow> board \<Rightarrow> bool" where
  "isEngineDraw env b =
     (isSingleRepetition env (positionHistory b) \<or> isFiftyMoveDraw b
        \<or> isInsufficientMaterialDraw env b)"

definition isEndGame :: "board \<Rightarrow> bool" where
  "isEndGame b = (endgame b \<noteq> 0)"

definition updateEndGameStatus :: "board \<Rightarrow> board" where
  "updateEndGameStatus b =
     (let pawnCount = popcnt (getBitBoard b PAWN) + popcnt (getBitBoard b (- PAWN)) in
      if pawnCount \<le> 3 then b\<lparr>endgame := 1\<rparr>
      else
       (let otherPieceCount =
              popcnt (getBitBoard b KNIGHT) + popcnt (getBitBoard b (- KNIGHT)) +
              popcnt (getBitBoard b BISHOP) + popcnt (getBitBoard b (- BISHOP)) +
              popcnt (getBitBoard b ROOK) + popcnt (getBitBoard b (- ROOK)) +
              popcnt (getBitBoard b QUEEN) + popcnt (getBitBoard b (- QUEEN))
        in b\<lparr>endgame := (if otherPieceCount \<le> 3 then 1 else 0)\<rparr>))"

section \<open>Construction\<close>

text \<open>
  The three \<open>throw\<close> statements of the constructor, with their messages:
  "Invalid board item length: n", "White king is missing on the board" and
  "Black king is missing on the board!".  The loop over the squares then calls \<open>addPiece\<close>
  for every non-empty square, which indexes \<open>bitBoardPieces\<close> (13 entries), the position
  scores (7 * 64 entries) and the Zobrist numbers with the piece code in unchecked
  accesses.  For a code outside -6..6 these accesses lie outside the arrays: the source
  does not determine what happens then (other memory is read and written, or the access
  traps), and no board is built in the sense of the class.  The model stops there with
  \<open>UncheckedAccessOutOfBounds\<close> and the first such code.
\<close>

datatype board_error = InvalidBoardItemLength nat | WhiteKingMissing | BlackKingMissing
  | UncheckedAccessOutOfBounds int


definition isWhiteKing :: "int \<Rightarrow> bool" where
  "isWhiteKing piece = (piece = KING)"

definition isBlackKing :: "int \<Rightarrow> bool" where
  "isBlackKing piece = (piece = - KING)"

text \<open>\<open>Array.findIndex\<close>: the index of the first element that satisfies the predicate,
  -1 when there is none.\<close>

primrec findIndexFrom :: "(int \<Rightarrow> bool) \<Rightarrow> int \<Rightarrow> int list \<Rightarrow> int" where
  "findIndexFrom p i [] = - 1"
| "findIndexFrom p i (x # xs) = (if p x then i else findIndexFrom p (i + 1) xs)"

definition findIndex :: "(int \<Rightarrow> bool) \<Rightarrow> int list \<Rightarrow> int" where
  "findIndex p xs = findIndexFrom p 0 xs"

text \<open>The object as its field initialisers leave it, with \<open>items\<close> a zero-filled array of
  the length of the input, and the king indices the constructor found.\<close>

definition initialFields :: "int \<Rightarrow> int \<Rightarrow> int \<Rightarrow> board" where
  "initialFields len wk bk =
     \<lparr>items = (\<lambda>_. 0), itemsLength = len, whiteKingIndex = wk, blackKingIndex = bk,
      score = 0, egScore = 0, halfMoveCount = 0, halfMoveClock = 0,
      bitBoardPieces = (\<lambda>_. 0), bitBoardAllPieces = (\<lambda>_. 0), hashCode = 0,
      historyCounter = 0, stateHistory = (\<lambda>_. 0), hashCodeHistory = (\<lambda>_. 0),
      scoreHistory = (\<lambda>_. 0), halfMoveClockHistory = (\<lambda>_. 0), positionHistory = [],
      endgame = 0\<rparr>"

text \<open>The body of the loop \<open>for (let i = 0; i < 64; i++)\<close> of the constructor, and the loop
  over the squares \<open>0, ..., n - 1\<close>.\<close>

definition constructorStep :: "env \<Rightarrow> int list \<Rightarrow> int \<Rightarrow> board \<Rightarrow> board" where
  "constructorStep env xs i b =
     (let piece = xs ! nat i in
      if piece \<noteq> EMPTY then addPiece env (sign piece) \<bar>piece\<bar> i b
      else b\<lparr>items := (items b)(i := xs ! nat i)\<rparr>)"

primrec constructorLoop :: "env \<Rightarrow> int list \<Rightarrow> nat \<Rightarrow> board \<Rightarrow> board" where
  "constructorLoop env xs 0 b = b"
| "constructorLoop env xs (Suc n) b = constructorStep env xs (int n) (constructorLoop env xs n b)"

definition constructor :: "env \<Rightarrow> int list \<Rightarrow> board_error + board" where
  "constructor env xs =
     (if int (length xs) < STATE_INDEX + 1 then Inl (InvalidBoardItemLength (length xs))
      else
       (let wk = findIndex isWhiteKing xs;
            bk = findIndex isBlackKing xs in
        if wk = - 1 then Inl WhiteKingMissing
        else if bk = - 1 then Inl BlackKingMissing
        else
         (case find (\<lambda>piece. piece < - 6 \<or> 6 < piece) (take 64 xs) of
            Some piece \<Rightarrow> Inl (UncheckedAccessOutOfBounds piece)
          | None \<Rightarrow>
             (let b1 = constructorLoop env xs 64 (initialFields (int (length xs)) wk bk);
                  b2 = b1\<lparr>items := (items b1)(STATE_INDEX := xs ! nat STATE_INDEX)\<rparr>;
                  b3 = b2\<lparr>halfMoveClock := word_of_int (xs ! nat HALFMOVE_CLOCK_INDEX)\<rparr>;
                  b4 = b3\<lparr>halfMoveCount := word_of_int (xs ! nat HALFMOVE_COUNT_INDEX)\<rparr>
              in Inr (updateEndGameStatus b4)))))"

section \<open>Evaluation\<close>

text \<open>
  The loops \<open>while (bits != 0) { pos = ctz(bits); bits ^= 1 << pos; ... }\<close> of the
  evaluation visit the set bits of a bitboard from the lowest to the highest; \<open>body\<close> is
  the rest of the loop body, acting on the variables the loop updates.
\<close>

function forEachBit :: "(int \<Rightarrow> 'a \<Rightarrow> 'a) \<Rightarrow> u64 \<Rightarrow> 'a \<Rightarrow> 'a" where
  "forEachBit body bits acc =
     (if bits = 0 then acc
      else (let pos = ctz bits in forEachBit body (bits XOR bit64 pos) (body pos acc)))"
  by pat_completeness auto
termination
proof (relation "measure (\<lambda>(body, bits, acc). card {n. bit bits n})")
  show "wf (measure (\<lambda>(body, bits, acc). card {n. bit bits n}))"
    by simp
next
  fix body :: "int \<Rightarrow> 'a \<Rightarrow> 'a" and bits :: u64 and acc :: 'a and pos :: int
  assume nz: "bits \<noteq> 0" and pos: "pos = ctz bits"
  define k where "k = length (takeWhile (\<lambda>n. \<not> bit bits n) [0..<64])"
  from nz obtain m where m: "bit bits m"
    by (auto simp: bit_eq_iff)
  then have m64: "m < 64"
    by (auto dest: bit_imp_le_length)
  have "\<exists>x \<in> set [0..<64]. \<not> \<not> bit bits x"
    using m m64 by auto
  then have "takeWhile (\<lambda>n. \<not> bit bits n) [0..<64] \<noteq> [0..<64]"
    by (simp only: takeWhile_eq_all_conv) blast
  then have "k \<noteq> length [0..<64]"
    unfolding k_def by (metis takeWhile_eq_take take_all order_refl)
  moreover have "k \<le> length [0..<64]"
    unfolding k_def by (rule length_takeWhile_le)
  ultimately have klt: "k < length [0..<64]"
    by linarith
  then have k64: "k < 64" by simp
  have "\<not> \<not> bit bits ([0..<64] ! k)"
    unfolding k_def by (rule nth_length_takeWhile) (use klt k_def in simp)
  then have bk: "bit bits k"
    using k64 by simp
  have posk: "pos = int k"
    by (simp add: pos ctz_def k_def)
  have b64: "bit64 pos = push_bit k 1"
    using k64 by (simp add: bit64_def posk)
  have eq: "{n. bit (bits XOR bit64 pos) n} = {n. bit bits n} - {k}"
    using bk by (auto simp: b64 bit_simps dest: bit_imp_le_length)
  have "card ({n. bit bits n} - {k}) < card {n. bit bits n}"
    by (rule card_Diff1_less) (use bk in simp_all)
  then have "card {n. bit (bits XOR bit64 pos) n} < card {n. bit bits n}"
    by (simp only: eq)
  then show "((body, bits XOR bit64 pos, body pos acc), body, bits, acc)
      \<in> measure (\<lambda>(body, bits, acc). card {n. bit bits n})"
    by simp
qed


definition calcDoubledPawnPenalty :: "u64 \<Rightarrow> int" where
  "calcDoubledPawnPenalty pawns =
     (let doubled = (pawns AND rotr pawns 8) OR (pawns AND rotr pawns 16)
                    OR (pawns AND rotr pawns 24) OR (pawns AND rotr pawns 32)
      in popcnt doubled * DOUBLED_PAWN_PENALTY)"

definition mobilityScore :: "env \<Rightarrow> board \<Rightarrow> u64 \<Rightarrow> u64 \<Rightarrow> u64 \<Rightarrow> u64 \<Rightarrow> int" where
  "mobilityScore env b whitePawnAttacks blackPawnAttacks whitePieces blackPieces =
     (let emptyBoard = NOT whitePieces AND NOT blackPieces;
          emptyOrBlackPiece = emptyBoard OR blackPieces;
          whiteSafeTargets0 = emptyOrBlackPiece AND NOT blackPawnAttacks;
          (whiteKnightAttacks, sc1) =
             forEachBit (\<lambda>pos (attacks, sc).
                 let possibleMoves = KNIGHT_PATTERNS env pos;
                     moveCount = popcnt (possibleMoves AND whiteSafeTargets0)
                 in (attacks OR possibleMoves, sc + moveCount * KNIGHT_MOB_BONUS))
               (getBitBoard b KNIGHT) (0, 0);
          emptyOrWhitePiece = emptyBoard OR whitePieces;
          blackSafeTargets0 = emptyOrWhitePiece AND NOT whitePawnAttacks;
          (blackKnightAttacks, sc2) =
             forEachBit (\<lambda>pos (attacks, sc).
                 let possibleMoves = KNIGHT_PATTERNS env pos;
                     moveCount = popcnt (possibleMoves AND blackSafeTargets0)
                 in (attacks OR possibleMoves, sc - moveCount * KNIGHT_MOB_BONUS))
               (getBitBoard b (- KNIGHT)) (0, sc1);
          whiteSafeTargets1 = whiteSafeTargets0 AND NOT blackKnightAttacks;
          blackSafeTargets1 = blackSafeTargets0 AND NOT whiteKnightAttacks;
          occupied = NOT emptyBoard;
          (whiteBishopAttacks, sc3) =
             forEachBit (\<lambda>pos (attacks, sc).
                 let possibleMoves = diagonalAttacks env occupied pos
                                     OR antiDiagonalAttacks env occupied pos;
                     moveCount = popcnt (possibleMoves AND whiteSafeTargets1)
                 in (attacks OR possibleMoves, sc + moveCount * BISHOP_MOB_BONUS))
               (getBitBoard b BISHOP) (0, sc2);
          (blackBishopAttacks, sc4) =
             forEachBit (\<lambda>pos (attacks, sc).
                 let possibleMoves = diagonalAttacks env occupied pos
                                     OR antiDiagonalAttacks env occupied pos;
                     moveCount = popcnt (possibleMoves AND blackSafeTargets1)
                 in (attacks OR possibleMoves, sc - moveCount * BISHOP_MOB_BONUS))
               (getBitBoard b (- BISHOP)) (0, sc3);
          whiteSafeTargets2 = whiteSafeTargets1 AND NOT blackBishopAttacks;
          blackSafeTargets2 = blackSafeTargets1 AND NOT whiteBishopAttacks;
          (whiteRookAttacks, sc5) =
             forEachBit (\<lambda>pos (attacks, sc).
                 let possibleMoves = horizontalAttacks env occupied pos
                                     OR verticalAttacks env occupied pos;
                     moveCount = popcnt (possibleMoves AND whiteSafeTargets2)
                 in (attacks OR possibleMoves, sc + moveCount * ROOK_MOB_BONUS))
               (getBitBoard b ROOK) (0, sc4);
          (blackRookAttacks, sc6) =
             forEachBit (\<lambda>pos (attacks, sc).
                 let possibleMoves = horizontalAttacks env occupied pos
                                     OR verticalAttacks env occupied pos;
                     moveCount = popcnt (possibleMoves AND blackSafeTargets2)
                 in (attacks OR possibleMoves, sc - moveCount * ROOK_MOB_BONUS))
               (getBitBoard b (- ROOK)) (0, sc5);
          whiteSafeTargets3 = whiteSafeTargets2 AND NOT blackRookAttacks;
          blackSafeTargets3 = blackSafeTargets2 AND NOT whiteRookAttacks;
          sc7 = forEachBit (\<lambda>pos sc.
                 let possibleMoves = horizontalAttacks env occupied pos
                                     OR verticalAttacks env occupied pos
                                     OR diagonalAttacks env occupied pos
                                     OR antiDiagonalAttacks env occupied pos;
                     moveCount = popcnt (possibleMoves AND whiteSafeTargets3)
                 in sc + moveCount * QUEEN_MOB_BONUS)
               (getBitBoard b QUEEN) sc6;
          sc8 = forEachBit (\<lambda>pos sc.
                 let possibleMoves = horizontalAttacks env occupied pos
                                     OR verticalAttacks env occupied pos
                                     OR diagonalAttacks env occupied pos
                                     OR antiDiagonalAttacks env occupied pos;
                     moveCount = popcnt (possibleMoves AND blackSafeTargets3)
                 in sc - moveCount * QUEEN_MOB_BONUS)
               (getBitBoard b (- QUEEN)) sc7
      in sc8)"

text \<open>The bodies of the two passed-pawn loops of \<open>getScore\<close>.\<close>

definition passedWhitePawn :: "env \<Rightarrow> u64 \<Rightarrow> u64 \<Rightarrow> int \<Rightarrow> int \<Rightarrow> int" where
  "passedWhitePawn env blackPieces blackPawns pos interpolatedScore =
     (let distanceToPromotion = pos sdiv 8 in
      if distanceToPromotion \<le> 4 \<and> WHITE_PAWN_FREEPATH_PATTERNS env pos AND blackPieces = 0 then
        (let col = pos AND 7 in
         if col = 0 \<or> WHITE_PAWN_FREEPATH_PATTERNS env (pos - 1) AND blackPawns = 0 then
           (let reversedDistance = 5 - distanceToPromotion;
                s1 = interpolatedScore + PASSED_PAWN_BONUS * reversedDistance in
            if col = 7 \<or> WHITE_PAWN_FREEPATH_PATTERNS env (pos + 1) AND blackPawns = 0
            then s1 + (push_bit (nat reversedDistance) 1 + reversedDistance)
            else s1)
         else if col = 7 \<or> WHITE_PAWN_FREEPATH_PATTERNS env (pos + 1) AND blackPawns = 0 then
           (let reversedDistance = 5 - distanceToPromotion
            in interpolatedScore + PASSED_PAWN_BONUS * reversedDistance)
         else interpolatedScore)
      else interpolatedScore)"

definition passedBlackPawn :: "env \<Rightarrow> u64 \<Rightarrow> u64 \<Rightarrow> int \<Rightarrow> int \<Rightarrow> int" where
  "passedBlackPawn env whitePieces whitePawns pos interpolatedScore =
     (let distanceToPromotion = 7 - pos sdiv 8 in
      if distanceToPromotion \<le> 4 \<and> BLACK_PAWN_FREEPATH_PATTERNS env pos AND whitePieces = 0 then
        (let col = pos AND 7 in
         if col = 0 \<or> BLACK_PAWN_FREEPATH_PATTERNS env (pos - 1) AND whitePawns = 0 then
           (let reversedDistance = 5 - distanceToPromotion;
                s1 = interpolatedScore - PASSED_PAWN_BONUS * reversedDistance in
            if col = 7 \<or> BLACK_PAWN_FREEPATH_PATTERNS env (pos + 1) AND whitePawns = 0
            then s1 - (push_bit (nat reversedDistance) 1 + reversedDistance)
            else s1)
         else if col = 7 \<or> BLACK_PAWN_FREEPATH_PATTERNS env (pos + 1) AND whitePawns = 0 then
           (let reversedDistance = 5 - distanceToPromotion
            in interpolatedScore - PASSED_PAWN_BONUS * reversedDistance)
         else interpolatedScore)
      else interpolatedScore)"

text \<open>
  \<open>getScore\<close> is modelled in two parts: \<open>getScoreBeforeDrawAdjustment\<close> is the value of the
  local variable \<open>interpolatedScore\<close> when the king threat blocks are done, and
  \<open>adjustForPawnlessDraw\<close> is the last block of the function, the adjustment "for
  positions, which are very likely to end in a draw".  Division of \<open>i32\<close> truncates
  (\<open>sdiv\<close>).
\<close>

definition kingDanger :: "env \<Rightarrow> int \<Rightarrow> u64 \<Rightarrow> u64 \<Rightarrow> u64 \<Rightarrow> int" where
  "kingDanger env kingIndex opponentPieces opponentPawns opponentQueens =
     (let kingDangerZone = KING_DANGER_ZONE_PATTERNS env kingIndex;
          opponentPiecesInKingDangerZone =
            popcnt ((opponentPieces AND NOT opponentPawns) AND kingDangerZone) in
      if opponentPiecesInKingDangerZone \<ge> KING_DANGER_THRESHOLD then
        (let queensInKingDangerZone = popcnt (opponentQueens AND kingDangerZone);
             dangerScore = wrap32 (push_bit
               (nat ((opponentPiecesInKingDangerZone + queensInKingDangerZone
                       - KING_DANGER_THRESHOLD) mod 32)) KING_DANGER_PIECE_PENALTY)
         in min dangerScore 500)
      else 0)"

definition getScoreBeforeDrawAdjustment :: "env \<Rightarrow> board \<Rightarrow> int" where
  "getScoreBeforeDrawAdjustment env b =
     (let sc0 = sint (score b);
          egSc = sint (egScore b);
          whitePawns = getBitBoard b PAWN;
          blackPawns = getBitBoard b (- PAWN);
          whiteFrontKingShield =
            popcnt (whitePawns AND WHITE_KING_SHIELD_PATTERNS env (whiteKingIndex b));
          blackFrontKingShield =
            popcnt (blackPawns AND BLACK_KING_SHIELD_PATTERNS env (blackKingIndex b));
          sc1 = sc0 + whiteFrontKingShield * KING_SHIELD_BONUS;
          sc2 = sc1 - blackFrontKingShield * KING_SHIELD_BONUS;
          sc3 = (if hasWhiteCastled b then sc2 + CASTLING_BONUS
                 else
                  (let s = (if \<not> canWhiteCastleQueenSide b
                            then sc2 - LOST_QUEENSIDE_CASTLING_PENALTY else sc2)
                   in if \<not> canWhiteCastleKingSide b
                      then s - LOST_KINGSIDE_CASTLING_PENALTY else s));
          sc4 = (if hasBlackCastled b then sc3 - CASTLING_BONUS
                 else
                  (let s = (if \<not> canBlackCastleQueenSide b
                            then sc3 + LOST_QUEENSIDE_CASTLING_PENALTY else sc3)
                   in if \<not> canBlackCastleKingSide b
                      then s + LOST_KINGSIDE_CASTLING_PENALTY else s));
          whiteQueens = getBitBoard b QUEEN;
          blackQueens = getBitBoard b (- QUEEN);
          phase = popcnt (whitePawns OR blackPawns)
                  + (if whiteQueens \<noteq> 0 then 1 else 0) * 4
                  + (if blackQueens \<noteq> 0 then 1 else 0) * 4;
          egPhase = 24 - phase;
          i0 = ((sc4 * phase) + (egSc * egPhase)) sdiv 24;
          whitePawnAttacks = whiteLeftPawnAttacks env whitePawns
                             OR whiteRightPawnAttacks env whitePawns;
          whiteKnights = getBitBoard b KNIGHT;
          whitePawnsAndKnights = whitePawns OR whiteKnights;
          i1 = i0 + popcnt (whitePawnsAndKnights AND whitePawnAttacks) * PAWN_COVER_BONUS;
          blackPawnAttacks = blackLeftPawnAttacks env blackPawns
                             OR blackRightPawnAttacks env blackPawns;
          blackKnights = getBitBoard b (- KNIGHT);
          blackPawnsAndKnights = blackPawns OR blackKnights;
          i2 = i1 - popcnt (blackPawnsAndKnights AND blackPawnAttacks) * PAWN_COVER_BONUS;
          i3 = i2 - calcDoubledPawnPenalty whitePawns;
          i4 = i3 + calcDoubledPawnPenalty blackPawns;
          whitePieces = getAllPieceBitBoard b WHITE;
          blackPieces = getAllPieceBitBoard b BLACK;
          i5 = i4 + mobilityScore env b whitePawnAttacks blackPawnAttacks whitePieces blackPieces;
          i6 = forEachBit (passedWhitePawn env blackPieces blackPawns) whitePawns i5;
          i7 = forEachBit (passedBlackPawn env whitePieces whitePawns) blackPawns i6;
          i8 = i7 - kingDanger env (whiteKingIndex b) blackPieces blackPawns blackQueens;
          i9 = i8 + kingDanger env (blackKingIndex b) whitePieces whitePawns whiteQueens
      in i9)"

definition adjustForPawnlessDraw :: "board \<Rightarrow> int \<Rightarrow> int" where
  "adjustForPawnlessDraw b interpolatedScore =
     (let whitePawns = getBitBoard b PAWN;
          blackPawns = getBitBoard b (- PAWN) in
      if (blackPawns = 0 \<and> interpolatedScore < - PAWNLESS_DRAW_SCORE_LOW_THRESHOLD
            \<and> interpolatedScore > - PAWNLESS_DRAW_SCORE_HIGH_THRESHOLD)
         \<or> (whitePawns = 0 \<and> interpolatedScore > PAWNLESS_DRAW_SCORE_LOW_THRESHOLD
            \<and> interpolatedScore < PAWNLESS_DRAW_SCORE_HIGH_THRESHOLD) then
        (let divider = PAWNLESS_DRAW_CLOCK_THRESHOLD - getHalfMoveClock b in
         if divider > 0 then interpolatedScore * divider sdiv PAWNLESS_DRAW_CLOCK_THRESHOLD
         else interpolatedScore sdiv PAWNLESS_DRAW_CLOCK_THRESHOLD)
      else interpolatedScore)"

definition getScore :: "env \<Rightarrow> board \<Rightarrow> int" where
  "getScore env b = adjustForPawnlessDraw b (getScoreBeforeDrawAdjustment env b)"


section \<open>Predicates of the specification\<close>

subsection \<open>Doubled pawns\<close>

text \<open>
  A pawn bitboard whose set bits all lie on ranks 1..6; the pawns "that have another pawn
  of the same bitboard on the same file within 4 ranks", counted as the specification words
  it; and the pawns the rotations of \<open>calcDoubledPawnPenalty\<close> detect: those with another
  pawn on the same file one to four ranks further on (at a higher index), exactly four
  ranks back, or, through the wrap of the rotation by 24, five ranks back.
\<close>

definition legalPawnSquares :: "u64 \<Rightarrow> bool" where
  "legalPawnSquares pawns \<longleftrightarrow> pawns AND (mask 8 OR push_bit 56 (mask 8)) = 0"

definition sameFileWithin4 :: "u64 \<Rightarrow> nat \<Rightarrow> bool" where
  "sameFileWithin4 pawns i \<longleftrightarrow>
     (\<exists>j\<in>set [0..<64]. j \<noteq> i \<and> bit pawns j \<and> j mod 8 = i mod 8
        \<and> (if i div 8 \<le> j div 8 then j div 8 - i div 8 else i div 8 - j div 8) \<le> 4)"

definition doubledPawnsClaimed :: "u64 \<Rightarrow> int" where
  "doubledPawnsClaimed pawns =
     int (length (filter (\<lambda>i. bit pawns i \<and> sameFileWithin4 pawns i) [0..<64]))"

definition countedAsDoubled :: "u64 \<Rightarrow> nat \<Rightarrow> bool" where
  "countedAsDoubled pawns i \<longleftrightarrow>
     (\<exists>j\<in>set [0..<64]. bit pawns j \<and>
        (j = i + 8 \<or> j = i + 16 \<or> j = i + 24 \<or> j = i + 32 \<or> i = j + 32 \<or> i = j + 40))"


subsection \<open>Consistency of the board\<close>

text \<open>
  \<open>board_inv\<close>: the state word lies behind the 64 squares and the clock and count slots,
  every square holds a piece code, bit \<open>s\<close> of the bitboard of piece \<open>p\<close> is set exactly
  when square \<open>s\<close> holds \<open>p\<close>, and bit \<open>s\<close> of the occupancy bitboard of a colour is set
  exactly when square \<open>s\<close> holds a piece of that colour.  \<open>mailbox_decomposed\<close> is the
  invariant as the specification words it: a square is occupied iff exactly one of the
  twelve piece bitboards has its bit set, and then that bit lies in the bitboard of the
  piece on the square and in the occupancy bitboard of its colour.
\<close>

definition pieceCodes :: "int list" where
  "pieceCodes = [- 6, - 5, - 4, - 3, - 2, - 1, 1, 2, 3, 4, 5, 6]"

definition board_inv :: "board \<Rightarrow> bool" where
  "board_inv b \<longleftrightarrow> 67 \<le> itemsLength b
     \<and> (\<forall>s\<in>{0..63}. items b s \<in> {- 6..6})
     \<and> (\<forall>s\<in>{0..63}. \<forall>p\<in>{- 6..6}. p \<noteq> 0 \<longrightarrow>
           (bit (bitBoardPieces b (p + 6)) (nat s) \<longleftrightarrow> items b s = p))
     \<and> (\<forall>s\<in>{0..63}. \<forall>c\<in>{- 1, 1}.
           bit (bitBoardAllPieces b (c + 1)) (nat s) \<longleftrightarrow> sign (items b s) = c)"

definition mailbox_decomposed :: "board \<Rightarrow> bool" where
  "mailbox_decomposed b \<longleftrightarrow> (\<forall>s\<in>{0..63}.
       ((items b s \<noteq> 0) = (length (filter (\<lambda>p. bit (getBitBoard b p) (nat s)) pieceCodes) = 1))
     \<and> (items b s \<noteq> 0 \<longrightarrow> bit (getBitBoard b (items b s)) (nat s)
            \<and> bit (getAllPieceBitBoard b (sign (items b s))) (nat s)))"

text \<open>\<open>kings_cached\<close>: each side has its king on exactly one square, the cached one.\<close>

definition kings_cached :: "board \<Rightarrow> bool" where
  "kings_cached b \<longleftrightarrow>
     0 \<le> whiteKingIndex b \<and> whiteKingIndex b \<le> 63 \<and> 0 \<le> blackKingIndex b \<and> blackKingIndex b \<le> 63
     \<and> (\<forall>s\<in>{0..63}. (items b s = KING \<longleftrightarrow> s = whiteKingIndex b)
                      \<and> (items b s = - KING \<longleftrightarrow> s = blackKingIndex b))"

subsection \<open>Moves\<close>

text \<open>
  \<open>legal_shape b pieceId start endp\<close> holds of every legal chess move in the position \<open>b\<close>,
  given as \<open>performMove\<close> takes it (the piece id after a promotion, start and end square):
  the squares are on the board and differ, the start square is occupied, the end square is
  empty or holds a piece of the other colour that is not a king, the piece id is that of
  the moving piece or a promotion of a pawn to knight, bishop, rook or queen; a pawn makes
  its double step from its base line, and steps diagonally to an empty square only beside
  an enemy pawn (en passant); a king moves two squares only when castling, from its start
  square, with its own rook in the corner and the square it crosses empty.  It is weaker
  than chess legality: nothing is said about how pieces move otherwise, or about check.
\<close>

definition legal_shape :: "board \<Rightarrow> int \<Rightarrow> int \<Rightarrow> int \<Rightarrow> bool" where
  "legal_shape b pieceId start endp \<longleftrightarrow>
     (let own = items b start; target = items b endp in
      0 \<le> start \<and> start \<le> 63 \<and> 0 \<le> endp \<and> endp \<le> 63 \<and> start \<noteq> endp
      \<and> own \<noteq> 0
      \<and> (target = 0 \<or> sign target = - sign own) \<and> \<bar>target\<bar> \<noteq> KING
      \<and> (pieceId = \<bar>own\<bar> \<or> (\<bar>own\<bar> = PAWN \<and> KNIGHT \<le> pieceId \<and> pieceId \<le> QUEEN))
      \<and> (own = PAWN \<and> target = 0 \<longrightarrow>
            (start - endp = 16 \<longrightarrow> 48 \<le> start \<and> start \<le> 55)
          \<and> (start - endp = 7 \<longrightarrow> start + 1 \<le> 63 \<and> items b (start + 1) = - PAWN)
          \<and> (start - endp = 9 \<longrightarrow> 0 \<le> start - 1 \<and> items b (start - 1) = - PAWN))
      \<and> (own = - PAWN \<and> target = 0 \<longrightarrow>
            (start - endp = - 16 \<longrightarrow> 8 \<le> start \<and> start \<le> 15)
          \<and> (start - endp = - 7 \<longrightarrow> 0 \<le> start - 1 \<and> items b (start - 1) = PAWN)
          \<and> (start - endp = - 9 \<longrightarrow> start + 1 \<le> 63 \<and> items b (start + 1) = PAWN))
      \<and> (own = KING \<and> \<bar>start - endp\<bar> = 2 \<longrightarrow>
            target = 0 \<and> start = WHITE_KING_START
          \<and> (start - endp = - 2 \<longrightarrow>
                items b WHITE_KING_SIDE_ROOK_START = ROOK \<and> items b (WHITE_KING_START + 1) = 0)
          \<and> (start - endp = 2 \<longrightarrow>
                items b WHITE_QUEEN_SIDE_ROOK_START = ROOK \<and> items b (WHITE_KING_START - 1) = 0))
      \<and> (own = - KING \<and> \<bar>start - endp\<bar> = 2 \<longrightarrow>
            target = 0 \<and> start = BLACK_KING_START
          \<and> (start - endp = - 2 \<longrightarrow>
                items b BLACK_KING_SIDE_ROOK_START = - ROOK \<and> items b (BLACK_KING_START + 1) = 0)
          \<and> (start - endp = 2 \<longrightarrow>
                items b BLACK_QUEEN_SIDE_ROOK_START = - ROOK \<and> items b (BLACK_KING_START - 1) = 0)))"

text \<open>A move is the triple of arguments of \<open>performMove\<close>.  \<open>legal_seq\<close>: each move of the
  sequence is of legal shape in the position the moves before it lead to.\<close>

type_synonym move = "int \<times> int \<times> int"

fun legal_seq :: "env \<Rightarrow> board \<Rightarrow> move list \<Rightarrow> bool" where
  "legal_seq env b [] = True"
| "legal_seq env b ((pieceId, start, endp) # ms) =
     (legal_shape b pieceId start endp
      \<and> legal_seq env (fst (performMove env pieceId start endp b)) ms)"

text \<open>
  \<open>roundTrip\<close>: \<open>performMove\<close> for the moves in order, then \<open>undoMove\<close> for them in reverse
  order, each with the piece that stood on the start square before the move (the signed
  piece code, as the search driver passes it), the squares of the move and the value
  \<open>performMove\<close> returned.  \<open>roundTripSameId\<close> passes the piece id of \<open>performMove\<close> instead.
\<close>

fun roundTrip :: "env \<Rightarrow> board \<Rightarrow> move list \<Rightarrow> board" where
  "roundTrip env b [] = b"
| "roundTrip env b ((pieceId, start, endp) # ms) =
     undoMove env (items b start) start endp (snd (performMove env pieceId start endp b))
       (roundTrip env (fst (performMove env pieceId start endp b)) ms)"

fun roundTripSameId :: "env \<Rightarrow> board \<Rightarrow> move list \<Rightarrow> board" where
  "roundTripSameId env b [] = b"
| "roundTripSameId env b ((pieceId, start, endp) # ms) =
     undoMove env pieceId start endp (snd (performMove env pieceId start endp b))
       (roundTripSameId env (fst (performMove env pieceId start endp b)) ms)"

text \<open>
  A pawn stepping diagonally forward, as \<open>performMove\<close> tests it: a white pawn moves to
  lower indices, by 7 or 9, a black pawn to higher ones.  On an empty end square this is
  the en-passant capture.
\<close>

definition diagonalPawnStep :: "int \<Rightarrow> int \<Rightarrow> int \<Rightarrow> bool" where
  "diagonalPawnStep own start endp \<longleftrightarrow>
     (own = PAWN \<and> (start - endp = 7 \<or> start - endp = 9))
   \<or> (own = - PAWN \<and> (start - endp = - 7 \<or> start - endp = - 9))"

text \<open>The 64 square entries of an input vector of the constructor are piece codes.\<close>

definition squaresInRange :: "int list \<Rightarrow> bool" where
  "squaresInRange xs = list_all (\<lambda>p. - 6 \<le> p \<and> p \<le> 6) (take 64 xs)"

subsection \<open>Counting pieces; endgame and insufficient material\<close>

text \<open>
  The 64 squares as a list, and the number of squares whose piece code satisfies a
  predicate.  \<open>endgameCondition\<close> is the predicate of the specification for the endgame
  flag: at most three pawns, or at most three pieces that are neither king nor pawn.
\<close>

definition squaresOf :: "board \<Rightarrow> int list" where
  "squaresOf b = map (\<lambda>s. items b (int s)) [0..<64]"

definition countPieces :: "board \<Rightarrow> (int \<Rightarrow> bool) \<Rightarrow> int" where
  "countPieces b P = int (length (filter P (squaresOf b)))"

definition endgameCondition :: "board \<Rightarrow> bool" where
  "endgameCondition b \<longleftrightarrow>
     countPieces b (\<lambda>p. \<bar>p\<bar> = PAWN) \<le> 3
   \<or> countPieces b (\<lambda>p. \<bar>p\<bar> = KNIGHT \<or> \<bar>p\<bar> = BISHOP \<or> \<bar>p\<bar> = ROOK \<or> \<bar>p\<bar> = QUEEN) \<le> 3"

text \<open>
  Insufficient material as the specification words it: two pieces on the board; three
  pieces, one of them a knight or a bishop; or four pieces, among them a white and a black
  bishop (with the two kings: king and bishop against king and bishop) on squares of the
  same colour, the colours of the squares being those of the two field patterns.
  \<open>kingsAndAtMostOneMinor\<close>: the position holds the two kings, at most one knight or bishop,
  and nothing else.
\<close>

definition insufficientMaterial :: "env \<Rightarrow> board \<Rightarrow> bool" where
  "insufficientMaterial env b \<longleftrightarrow>
     countPieces b (\<lambda>p. p \<noteq> 0) = 2
   \<or> (countPieces b (\<lambda>p. p \<noteq> 0) = 3
        \<and> (\<exists>s\<in>set [0..<64]. \<bar>items b (int s)\<bar> = KNIGHT \<or> \<bar>items b (int s)\<bar> = BISHOP))
   \<or> (countPieces b (\<lambda>p. p \<noteq> 0) = 4
        \<and> (\<exists>s\<in>set [0..<64]. \<exists>t\<in>set [0..<64].
              items b (int s) = BISHOP \<and> items b (int t) = - BISHOP
            \<and> ((bit (LIGHT_COLORED_FIELD_PATTERN env) s \<and> bit (LIGHT_COLORED_FIELD_PATTERN env) t)
               \<or> (bit (DARK_COLORED_FIELD_PATTERN env) s \<and> bit (DARK_COLORED_FIELD_PATTERN env) t))))"

definition kingsAndAtMostOneMinor :: "board \<Rightarrow> bool" where
  "kingsAndAtMostOneMinor b \<longleftrightarrow>
     countPieces b (\<lambda>p. \<bar>p\<bar> = KING) = 2
   \<and> countPieces b (\<lambda>p. \<bar>p\<bar> = KNIGHT \<or> \<bar>p\<bar> = BISHOP) \<le> 1
   \<and> countPieces b (\<lambda>p. p \<noteq> 0 \<and> \<bar>p\<bar> \<noteq> KING \<and> \<bar>p\<bar> \<noteq> KNIGHT \<and> \<bar>p\<bar> \<noteq> BISHOP) = 0"

subsection \<open>The pawn attack functions\<close>

text \<open>
  Modelled from the spec: the pawn attack functions of \<open>bitboard.ts\<close> are not part of the
  sources at hand.  The specification uses them "in reverse (a pawn at target +- {7,9}
  attacks target, colour-dependent)": a bit \<open>t\<close> of the left (right) attacks of white
  pawns comes from a pawn on \<open>t + 9\<close> (\<open>t + 7\<close>), a bit \<open>t\<close> of the left (right) attacks of
  black pawns from a pawn on \<open>t - 7\<close> (\<open>t - 9\<close>).
\<close>

definition pawnAttacksSound :: "env \<Rightarrow> bool" where
  "pawnAttacksSound env \<longleftrightarrow>
     (\<forall>pawns t. bit (whiteLeftPawnAttacks env pawns) t \<longrightarrow> bit pawns (t + 9))
   \<and> (\<forall>pawns t. bit (whiteRightPawnAttacks env pawns) t \<longrightarrow> bit pawns (t + 7))
   \<and> (\<forall>pawns t. bit (blackLeftPawnAttacks env pawns) t \<longrightarrow> 7 \<le> t \<and> bit pawns (t - 7))
   \<and> (\<forall>pawns t. bit (blackRightPawnAttacks env pawns) t \<longrightarrow> 9 \<le> t \<and> bit pawns (t - 9))"

subsection \<open>Auxiliary notions for the proofs\<close>

text \<open>The board after the first five statements of \<open>performMove\<close> (the history frame is
  stored, the counters are advanced, the moving piece is taken off its start square and
  the en-passant flags are cleared); and the 64 squares of \<open>items\<close> as a function.\<close>

definition liftedPiece :: "env \<Rightarrow> int \<Rightarrow> board \<Rightarrow> board" where
  "liftedPiece env start b =
     clearEnPassentPossible env
       (fst (removePiece env start (increaseHalfMoveCount env (storeState b))))"

definition mailbox :: "board \<Rightarrow> int \<Rightarrow> int" where
  "mailbox b = (\<lambda>s. if 0 \<le> s \<and> s \<le> 63 then items b s else 0)"


text \<open>\<open>kings_cached\<close> in terms of the squares as a function; and the relation between a
  board \<open>b\<close> and a board \<open>X\<close> that agree on the squares, the state, the cached kings, the
  hash, the scores, the counters and the position history, and on the history frames
  below \<open>n\<close>.\<close>

definition kingsOK :: "(int \<Rightarrow> int) \<Rightarrow> int \<Rightarrow> int \<Rightarrow> bool" where
  "kingsOK m wk bk \<longleftrightarrow> 0 \<le> wk \<and> wk \<le> 63 \<and> 0 \<le> bk \<and> bk \<le> 63
     \<and> (\<forall>s\<in>{0..63}. (m s = 6 \<longleftrightarrow> s = wk) \<and> (m s = - 6 \<longleftrightarrow> s = bk))"

definition same_position :: "int \<Rightarrow> board \<Rightarrow> board \<Rightarrow> bool" where
  "same_position n b X \<longleftrightarrow>
     mailbox X = mailbox b \<and> itemsLength X = itemsLength b \<and> getState X = getState b
     \<and> whiteKingIndex X = whiteKingIndex b \<and> blackKingIndex X = blackKingIndex b
     \<and> hashCode X = hashCode b \<and> score X = score b \<and> egScore X = egScore b
     \<and> halfMoveClock X = halfMoveClock b \<and> halfMoveCount X = halfMoveCount b
     \<and> historyCounter X = historyCounter b \<and> positionHistory X = positionHistory b
     \<and> endgame X = endgame b
     \<and> (\<forall>i. i < n \<longrightarrow> stateHistory X i = stateHistory b i
              \<and> hashCodeHistory X i = hashCodeHistory b i
              \<and> scoreHistory X i = scoreHistory b i
              \<and> halfMoveClockHistory X i = halfMoveClockHistory b i)"

section \<open>A sample environment and sample positions\<close>

text \<open>
  The theorems below hold for every environment (some under stated assumptions on the
  pawn attack functions).  To run the model on concrete positions, the external tables
  are instantiated here: pawn attacks as shifts of the pawn bitboard away from the edge
  files, knight and king patterns and the sliding attacks from the geometry of the board,
  sample piece values (pawn 100 and knight 320 as in the specification), piece-square
  tables that hold the material values only, and arbitrary Zobrist numbers.
\<close>

definition squareMask :: "(int \<times> int) list \<Rightarrow> int \<Rightarrow> u64" where
  "squareMask offsets pos =
     fold (\<lambda>(dr, df) acc.
             let r = pos div 8 + dr; f = pos mod 8 + df
             in if 0 \<le> r \<and> r < 8 \<and> 0 \<le> f \<and> f < 8 then acc OR bit64 (r * 8 + f) else acc)
          offsets 0"

primrec ray :: "nat \<Rightarrow> u64 \<Rightarrow> int \<Rightarrow> int \<Rightarrow> int \<Rightarrow> int \<Rightarrow> u64" where
  "ray 0 occ r f dr df = 0"
| "ray (Suc n) occ r f dr df =
     (let r' = r + dr; f' = f + df in
      if 0 \<le> r' \<and> r' < 8 \<and> 0 \<le> f' \<and> f' < 8 then
        (if bit occ (nat (r' * 8 + f')) then bit64 (r' * 8 + f')
         else bit64 (r' * 8 + f') OR ray n occ r' f' dr df)
      else 0)"

definition slide :: "int \<Rightarrow> int \<Rightarrow> u64 \<Rightarrow> int \<Rightarrow> u64" where
  "slide dr df occ pos =
     ray 7 occ (pos div 8) (pos mod 8) dr df OR ray 7 occ (pos div 8) (pos mod 8) (- dr) (- df)"

definition samplePieceValue :: "int \<Rightarrow> int" where
  "samplePieceValue i = (if 0 \<le> i \<and> i \<le> 6 then [0, 100, 320, 330, 500, 950, 10000] ! nat i else 0)"

definition knightOffsets :: "(int \<times> int) list" where
  "knightOffsets = [(- 2, - 1), (- 2, 1), (- 1, - 2), (- 1, 2), (1, - 2), (1, 2), (2, - 1), (2, 1)]"

definition kingOffsets :: "(int \<times> int) list" where
  "kingOffsets = [(- 1, - 1), (- 1, 0), (- 1, 1), (0, - 1), (0, 1), (1, - 1), (1, 0), (1, 1)]"

definition sample_env :: env where
  "sample_env =
     \<lparr>PIECE_VALUES = samplePieceValue,
      PIECE_RNG_NUMBERS = (\<lambda>i. (word_of_int i + 1) * 0x9E3779B97F4A7C15),
      CASTLING_RNG_NUMBERS = (\<lambda>i. (word_of_int i + 1) * 0xBF58476D1CE4E5B9),
      EN_PASSANT_RNG_NUMBERS = (\<lambda>i. (word_of_int i + 1) * 0x94D049BB133111EB),
      PLAYER_RNG_NUMBER = 0x2545F4914F6CDD1D,
      WHITE_POSITION_SCORES = (\<lambda>i. packScores (word_of_int (samplePieceValue (i div 64)))
                                               (word_of_int (samplePieceValue (i div 64)))),
      BLACK_POSITION_SCORES = (\<lambda>i. packScores (word_of_int (- samplePieceValue (i div 64)))
                                               (word_of_int (- samplePieceValue (i div 64)))),
      KNIGHT_PATTERNS = squareMask knightOffsets,
      KING_PATTERNS = squareMask kingOffsets,
      WHITE_KING_SHIELD_PATTERNS = squareMask [(- 1, - 1), (- 1, 0), (- 1, 1)],
      BLACK_KING_SHIELD_PATTERNS = squareMask [(1, - 1), (1, 0), (1, 1)],
      KING_DANGER_ZONE_PATTERNS = squareMask kingOffsets,
      WHITE_PAWN_FREEPATH_PATTERNS = (\<lambda>pos. ray 7 0 (pos div 8) (pos mod 8) (- 1) 0),
      BLACK_PAWN_FREEPATH_PATTERNS = (\<lambda>pos. ray 7 0 (pos div 8) (pos mod 8) 1 0),
      LIGHT_COLORED_FIELD_PATTERN = 0xAA55AA55AA55AA55,
      DARK_COLORED_FIELD_PATTERN = 0x55AA55AA55AA55AA,
      whiteLeftPawnAttacks = (\<lambda>pawns. drop_bit 9 (pawns AND 0xFEFEFEFEFEFEFEFE)),
      whiteRightPawnAttacks = (\<lambda>pawns. drop_bit 7 (pawns AND 0x7F7F7F7F7F7F7F7F)),
      blackLeftPawnAttacks = (\<lambda>pawns. push_bit 7 (pawns AND 0xFEFEFEFEFEFEFEFE)),
      blackRightPawnAttacks = (\<lambda>pawns. push_bit 9 (pawns AND 0x7F7F7F7F7F7F7F7F)),
      horizontalAttacks = slide 0 1,
      verticalAttacks = slide 1 0,
      diagonalAttacks = slide 1 1,
      antiDiagonalAttacks = slide 1 (- 1),
      isSingleRepetition = (\<lambda>hashes. hashes \<noteq> [] \<and> last hashes \<in> set (butlast hashes))\<rparr>"

text \<open>The input vector of the constructor for a position given by its occupied squares:
  64 squares, then half-move clock, half-move count and state.\<close>

definition positionVector :: "(int \<times> int) list \<Rightarrow> int \<Rightarrow> int \<Rightarrow> int \<Rightarrow> int list" where
  "positionVector pieces clock count state =
     map (\<lambda>s. case map_of pieces s of Some p \<Rightarrow> p | None \<Rightarrow> 0) [0..63] @ [clock, count, state]"

definition boardOf :: "int list \<Rightarrow> board" where
  "boardOf xs = (case constructor sample_env xs of Inr b \<Rightarrow> b | Inl e \<Rightarrow> initialFields 0 0 0)"

text \<open>
  Sample positions, as input vectors of the constructor (square 0 is a8, square 63 is h1).
  \<open>exchange_position\<close>: a white knight on c3 can take a black pawn on d5 that the black
  pawn on e6 defends.  \<open>enpassant_position\<close>: the white pawn on e5 can take the black pawn
  on d5 en passant.  \<open>trap_position\<close>: the first position with the number 1048576, which
  is no piece code, on square 0.
\<close>

definition exchange_position :: "int list" where
  "exchange_position =
     [0, 0, 0, 0, - 6, 0, 0, 0,
      0, 0, 0, 0, 0, 0, 0, 0,
      0, 0, 0, 0, - 1, 0, 0, 0,
      0, 0, 0, - 1, 0, 0, 0, 0,
      0, 0, 0, 0, 0, 0, 0, 0,
      0, 0, 2, 0, 0, 0, 0, 0,
      0, 0, 0, 0, 0, 0, 0, 0,
      0, 0, 0, 0, 6, 0, 0, 0,
      0, 0, 0]"

definition exchange_board :: board where
  "exchange_board = boardOf exchange_position"

definition enpassant_position :: "int list" where
  "enpassant_position =
     [0, 0, 0, 0, - 6, 0, 0, 0,
      0, 0, 0, 0, 0, 0, 0, 0,
      0, 0, 0, 0, 0, 0, 0, 0,
      0, 0, 0, - 1, 1, 0, 0, 0,
      0, 0, 0, 0, 0, 0, 0, 0,
      0, 0, 0, 0, 0, 0, 0, 0,
      0, 0, 0, 0, 0, 0, 0, 0,
      0, 0, 0, 0, 6, 0, 0, 0,
      0, 0, 0]"

definition enpassant_board :: board where
  "enpassant_board = boardOf enpassant_position"


text \<open>
  \<open>middlegame_position\<close>: four pawns and four pieces beside the kings; the white knight on
  c3 can take the black pawn on d5.  \<open>knight_ending_position\<close>: king and knight against
  king, with the half-move clock at 64.
\<close>

definition middlegame_position :: "int list" where
  "middlegame_position =
     [- 4, 0, 0, 0, - 6, 0, - 2, 0,
      - 1, - 1, 0, 0, 0, 0, 0, 0,
      0, 0, 0, 0, 0, 0, 0, 0,
      0, 0, 0, - 1, 0, 0, 0, 0,
      0, 0, 0, 0, 0, 0, 0, 0,
      0, 0, 2, 0, 0, 0, 0, 0,
      1, 0, 0, 0, 0, 0, 0, 0,
      0, 0, 0, 0, 6, 0, 0, 4,
      0, 0, 0]"

definition middlegame_board :: board where
  "middlegame_board = boardOf middlegame_position"

definition knight_ending_position :: "int list" where
  "knight_ending_position =
     [0, 0, 0, 0, - 6, 0, 0, 0,
      0, 0, 0, 0, 0, 0, 0, 0,
      0, 0, 0, 0, 0, 0, 0, 0,
      0, 0, 0, 0, 0, 0, 0, 0,
      0, 0, 0, 0, 0, 0, 0, 0,
      0, 0, 2, 0, 0, 0, 0, 0,
      0, 0, 0, 0, 0, 0, 0, 0,
      0, 0, 0, 0, 6, 0, 0, 0,
      64, 0, 0]"

definition knight_ending_board :: board where
  "knight_ending_board = boardOf knight_ending_position"


section \<open>What each operation leaves unchanged\<close>

text \<open>The fields an operation does not touch, as rewrite rules; \<open>items\<close> away from the
  state word, which the operations on the state bits overwrite.\<close>

lemma setStateBit_frame [simp]:
  "bitBoardPieces (setStateBit m b) = bitBoardPieces b"
  "bitBoardAllPieces (setStateBit m b) = bitBoardAllPieces b"
  "itemsLength (setStateBit m b) = itemsLength b"
  "whiteKingIndex (setStateBit m b) = whiteKingIndex b"
  "blackKingIndex (setStateBit m b) = blackKingIndex b"
  "historyCounter (setStateBit m b) = historyCounter b"
  "stateHistory (setStateBit m b) = stateHistory b"
  "hashCodeHistory (setStateBit m b) = hashCodeHistory b"
  "scoreHistory (setStateBit m b) = scoreHistory b"
  "halfMoveClockHistory (setStateBit m b) = halfMoveClockHistory b"
  "positionHistory (setStateBit m b) = positionHistory b"
  "halfMoveCount (setStateBit m b) = halfMoveCount b"
  "endgame (setStateBit m b) = endgame b"
  "s \<noteq> itemsLength b - 1 \<Longrightarrow> items (setStateBit m b) s = items b s"
  by (simp_all add: setStateBit_def Let_def)

lemma clearStateBit_frame [simp]:
  "bitBoardPieces (clearStateBit m b) = bitBoardPieces b"
  "bitBoardAllPieces (clearStateBit m b) = bitBoardAllPieces b"
  "itemsLength (clearStateBit m b) = itemsLength b"
  "whiteKingIndex (clearStateBit m b) = whiteKingIndex b"
  "blackKingIndex (clearStateBit m b) = blackKingIndex b"
  "historyCounter (clearStateBit m b) = historyCounter b"
  "stateHistory (clearStateBit m b) = stateHistory b"
  "hashCodeHistory (clearStateBit m b) = hashCodeHistory b"
  "scoreHistory (clearStateBit m b) = scoreHistory b"
  "halfMoveClockHistory (clearStateBit m b) = halfMoveClockHistory b"
  "positionHistory (clearStateBit m b) = positionHistory b"
  "halfMoveCount (clearStateBit m b) = halfMoveCount b"
  "endgame (clearStateBit m b) = endgame b"
  "s \<noteq> itemsLength b - 1 \<Longrightarrow> items (clearStateBit m b) s = items b s"
  by (simp_all add: clearStateBit_def Let_def)

lemma updateHashForCastling_frame [simp]:
  "bitBoardPieces (updateHashForCastling env p b) = bitBoardPieces b"
  "bitBoardAllPieces (updateHashForCastling env p b) = bitBoardAllPieces b"
  "itemsLength (updateHashForCastling env p b) = itemsLength b"
  "whiteKingIndex (updateHashForCastling env p b) = whiteKingIndex b"
  "blackKingIndex (updateHashForCastling env p b) = blackKingIndex b"
  "historyCounter (updateHashForCastling env p b) = historyCounter b"
  "stateHistory (updateHashForCastling env p b) = stateHistory b"
  "hashCodeHistory (updateHashForCastling env p b) = hashCodeHistory b"
  "scoreHistory (updateHashForCastling env p b) = scoreHistory b"
  "halfMoveClockHistory (updateHashForCastling env p b) = halfMoveClockHistory b"
  "positionHistory (updateHashForCastling env p b) = positionHistory b"
  "halfMoveCount (updateHashForCastling env p b) = halfMoveCount b"
  "endgame (updateHashForCastling env p b) = endgame b"
  "s \<noteq> itemsLength b - 1 \<Longrightarrow> items (updateHashForCastling env p b) s = items b s"
  by (simp_all add: updateHashForCastling_def Let_def)

lemma updateHashForEnPassent_frame [simp]:
  "bitBoardPieces (updateHashForEnPassent env p b) = bitBoardPieces b"
  "bitBoardAllPieces (updateHashForEnPassent env p b) = bitBoardAllPieces b"
  "itemsLength (updateHashForEnPassent env p b) = itemsLength b"
  "whiteKingIndex (updateHashForEnPassent env p b) = whiteKingIndex b"
  "blackKingIndex (updateHashForEnPassent env p b) = blackKingIndex b"
  "historyCounter (updateHashForEnPassent env p b) = historyCounter b"
  "stateHistory (updateHashForEnPassent env p b) = stateHistory b"
  "hashCodeHistory (updateHashForEnPassent env p b) = hashCodeHistory b"
  "scoreHistory (updateHashForEnPassent env p b) = scoreHistory b"
  "halfMoveClockHistory (updateHashForEnPassent env p b) = halfMoveClockHistory b"
  "positionHistory (updateHashForEnPassent env p b) = positionHistory b"
  "halfMoveCount (updateHashForEnPassent env p b) = halfMoveCount b"
  "endgame (updateHashForEnPassent env p b) = endgame b"
  "s \<noteq> itemsLength b - 1 \<Longrightarrow> items (updateHashForEnPassent env p b) s = items b s"
  by (simp_all add: updateHashForEnPassent_def Let_def)

lemma setEnPassantPossible_frame [simp]:
  "bitBoardPieces (setEnPassantPossible env i b) = bitBoardPieces b"
  "bitBoardAllPieces (setEnPassantPossible env i b) = bitBoardAllPieces b"
  "itemsLength (setEnPassantPossible env i b) = itemsLength b"
  "whiteKingIndex (setEnPassantPossible env i b) = whiteKingIndex b"
  "blackKingIndex (setEnPassantPossible env i b) = blackKingIndex b"
  "historyCounter (setEnPassantPossible env i b) = historyCounter b"
  "stateHistory (setEnPassantPossible env i b) = stateHistory b"
  "hashCodeHistory (setEnPassantPossible env i b) = hashCodeHistory b"
  "scoreHistory (setEnPassantPossible env i b) = scoreHistory b"
  "halfMoveClockHistory (setEnPassantPossible env i b) = halfMoveClockHistory b"
  "positionHistory (setEnPassantPossible env i b) = positionHistory b"
  "halfMoveCount (setEnPassantPossible env i b) = halfMoveCount b"
  "endgame (setEnPassantPossible env i b) = endgame b"
  "s \<noteq> itemsLength b - 1 \<Longrightarrow> items (setEnPassantPossible env i b) s = items b s"
  by (simp_all add: setEnPassantPossible_def Let_def)

lemma clearEnPassentPossible_frame [simp]:
  "bitBoardPieces (clearEnPassentPossible env b) = bitBoardPieces b"
  "bitBoardAllPieces (clearEnPassentPossible env b) = bitBoardAllPieces b"
  "itemsLength (clearEnPassentPossible env b) = itemsLength b"
  "whiteKingIndex (clearEnPassentPossible env b) = whiteKingIndex b"
  "blackKingIndex (clearEnPassentPossible env b) = blackKingIndex b"
  "historyCounter (clearEnPassentPossible env b) = historyCounter b"
  "stateHistory (clearEnPassentPossible env b) = stateHistory b"
  "hashCodeHistory (clearEnPassentPossible env b) = hashCodeHistory b"
  "scoreHistory (clearEnPassentPossible env b) = scoreHistory b"
  "halfMoveClockHistory (clearEnPassentPossible env b) = halfMoveClockHistory b"
  "positionHistory (clearEnPassentPossible env b) = positionHistory b"
  "halfMoveCount (clearEnPassentPossible env b) = halfMoveCount b"
  "endgame (clearEnPassentPossible env b) = endgame b"
  "s \<noteq> itemsLength b - 1 \<Longrightarrow> items (clearEnPassentPossible env b) s = items b s"
  by (simp_all add: clearEnPassentPossible_def Let_def)

lemma resetHalfMoveClock_frame [simp]:
  "bitBoardPieces (resetHalfMoveClock b) = bitBoardPieces b"
  "bitBoardAllPieces (resetHalfMoveClock b) = bitBoardAllPieces b"
  "itemsLength (resetHalfMoveClock b) = itemsLength b"
  "whiteKingIndex (resetHalfMoveClock b) = whiteKingIndex b"
  "blackKingIndex (resetHalfMoveClock b) = blackKingIndex b"
  "historyCounter (resetHalfMoveClock b) = historyCounter b"
  "stateHistory (resetHalfMoveClock b) = stateHistory b"
  "hashCodeHistory (resetHalfMoveClock b) = hashCodeHistory b"
  "scoreHistory (resetHalfMoveClock b) = scoreHistory b"
  "halfMoveClockHistory (resetHalfMoveClock b) = halfMoveClockHistory b"
  "positionHistory (resetHalfMoveClock b) = positionHistory b"
  "halfMoveCount (resetHalfMoveClock b) = halfMoveCount b"
  "endgame (resetHalfMoveClock b) = endgame b"
  "s \<noteq> itemsLength b - 1 \<Longrightarrow> items (resetHalfMoveClock b) s = items b s"
  by (simp_all add: resetHalfMoveClock_def Let_def)

lemma setWhiteKingMoved_frame [simp]:
  "bitBoardPieces (setWhiteKingMoved env b) = bitBoardPieces b"
  "bitBoardAllPieces (setWhiteKingMoved env b) = bitBoardAllPieces b"
  "itemsLength (setWhiteKingMoved env b) = itemsLength b"
  "whiteKingIndex (setWhiteKingMoved env b) = whiteKingIndex b"
  "blackKingIndex (setWhiteKingMoved env b) = blackKingIndex b"
  "historyCounter (setWhiteKingMoved env b) = historyCounter b"
  "stateHistory (setWhiteKingMoved env b) = stateHistory b"
  "hashCodeHistory (setWhiteKingMoved env b) = hashCodeHistory b"
  "scoreHistory (setWhiteKingMoved env b) = scoreHistory b"
  "halfMoveClockHistory (setWhiteKingMoved env b) = halfMoveClockHistory b"
  "positionHistory (setWhiteKingMoved env b) = positionHistory b"
  "halfMoveCount (setWhiteKingMoved env b) = halfMoveCount b"
  "endgame (setWhiteKingMoved env b) = endgame b"
  "s \<noteq> itemsLength b - 1 \<Longrightarrow> items (setWhiteKingMoved env b) s = items b s"
  by (simp_all add: setWhiteKingMoved_def Let_def)

lemma setBlackKingMoved_frame [simp]:
  "bitBoardPieces (setBlackKingMoved env b) = bitBoardPieces b"
  "bitBoardAllPieces (setBlackKingMoved env b) = bitBoardAllPieces b"
  "itemsLength (setBlackKingMoved env b) = itemsLength b"
  "whiteKingIndex (setBlackKingMoved env b) = whiteKingIndex b"
  "blackKingIndex (setBlackKingMoved env b) = blackKingIndex b"
  "historyCounter (setBlackKingMoved env b) = historyCounter b"
  "stateHistory (setBlackKingMoved env b) = stateHistory b"
  "hashCodeHistory (setBlackKingMoved env b) = hashCodeHistory b"
  "scoreHistory (setBlackKingMoved env b) = scoreHistory b"
  "halfMoveClockHistory (setBlackKingMoved env b) = halfMoveClockHistory b"
  "positionHistory (setBlackKingMoved env b) = positionHistory b"
  "halfMoveCount (setBlackKingMoved env b) = halfMoveCount b"
  "endgame (setBlackKingMoved env b) = endgame b"
  "s \<noteq> itemsLength b - 1 \<Longrightarrow> items (setBlackKingMoved env b) s = items b s"
  by (simp_all add: setBlackKingMoved_def Let_def)

lemma setWhiteQueenSideRookMoved_frame [simp]:
  "bitBoardPieces (setWhiteQueenSideRookMoved env b) = bitBoardPieces b"
  "bitBoardAllPieces (setWhiteQueenSideRookMoved env b) = bitBoardAllPieces b"
  "itemsLength (setWhiteQueenSideRookMoved env b) = itemsLength b"
  "whiteKingIndex (setWhiteQueenSideRookMoved env b) = whiteKingIndex b"
  "blackKingIndex (setWhiteQueenSideRookMoved env b) = blackKingIndex b"
  "historyCounter (setWhiteQueenSideRookMoved env b) = historyCounter b"
  "stateHistory (setWhiteQueenSideRookMoved env b) = stateHistory b"
  "hashCodeHistory (setWhiteQueenSideRookMoved env b) = hashCodeHistory b"
  "scoreHistory (setWhiteQueenSideRookMoved env b) = scoreHistory b"
  "halfMoveClockHistory (setWhiteQueenSideRookMoved env b) = halfMoveClockHistory b"
  "positionHistory (setWhiteQueenSideRookMoved env b) = positionHistory b"
  "halfMoveCount (setWhiteQueenSideRookMoved env b) = halfMoveCount b"
  "endgame (setWhiteQueenSideRookMoved env b) = endgame b"
  "s \<noteq> itemsLength b - 1 \<Longrightarrow> items (setWhiteQueenSideRookMoved env b) s = items b s"
  by (simp_all add: setWhiteQueenSideRookMoved_def Let_def)

lemma setWhiteKingSideRookMoved_frame [simp]:
  "bitBoardPieces (setWhiteKingSideRookMoved env b) = bitBoardPieces b"
  "bitBoardAllPieces (setWhiteKingSideRookMoved env b) = bitBoardAllPieces b"
  "itemsLength (setWhiteKingSideRookMoved env b) = itemsLength b"
  "whiteKingIndex (setWhiteKingSideRookMoved env b) = whiteKingIndex b"
  "blackKingIndex (setWhiteKingSideRookMoved env b) = blackKingIndex b"
  "historyCounter (setWhiteKingSideRookMoved env b) = historyCounter b"
  "stateHistory (setWhiteKingSideRookMoved env b) = stateHistory b"
  "hashCodeHistory (setWhiteKingSideRookMoved env b) = hashCodeHistory b"
  "scoreHistory (setWhiteKingSideRookMoved env b) = scoreHistory b"
  "halfMoveClockHistory (setWhiteKingSideRookMoved env b) = halfMoveClockHistory b"
  "positionHistory (setWhiteKingSideRookMoved env b) = positionHistory b"
  "halfMoveCount (setWhiteKingSideRookMoved env b) = halfMoveCount b"
  "endgame (setWhiteKingSideRookMoved env b) = endgame b"
  "s \<noteq> itemsLength b - 1 \<Longrightarrow> items (setWhiteKingSideRookMoved env b) s = items b s"
  by (simp_all add: setWhiteKingSideRookMoved_def Let_def)

lemma setBlackQueenSideRookMoved_frame [simp]:
  "bitBoardPieces (setBlackQueenSideRookMoved env b) = bitBoardPieces b"
  "bitBoardAllPieces (setBlackQueenSideRookMoved env b) = bitBoardAllPieces b"
  "itemsLength (setBlackQueenSideRookMoved env b) = itemsLength b"
  "whiteKingIndex (setBlackQueenSideRookMoved env b) = whiteKingIndex b"
  "blackKingIndex (setBlackQueenSideRookMoved env b) = blackKingIndex b"
  "historyCounter (setBlackQueenSideRookMoved env b) = historyCounter b"
  "stateHistory (setBlackQueenSideRookMoved env b) = stateHistory b"
  "hashCodeHistory (setBlackQueenSideRookMoved env b) = hashCodeHistory b"
  "scoreHistory (setBlackQueenSideRookMoved env b) = scoreHistory b"
  "halfMoveClockHistory (setBlackQueenSideRookMoved env b) = halfMoveClockHistory b"
  "positionHistory (setBlackQueenSideRookMoved env b) = positionHistory b"
  "halfMoveCount (setBlackQueenSideRookMoved env b) = halfMoveCount b"
  "endgame (setBlackQueenSideRookMoved env b) = endgame b"
  "s \<noteq> itemsLength b - 1 \<Longrightarrow> items (setBlackQueenSideRookMoved env b) s = items b s"
  by (simp_all add: setBlackQueenSideRookMoved_def Let_def)

lemma setBlackKingSideRookMoved_frame [simp]:
  "bitBoardPieces (setBlackKingSideRookMoved env b) = bitBoardPieces b"
  "bitBoardAllPieces (setBlackKingSideRookMoved env b) = bitBoardAllPieces b"
  "itemsLength (setBlackKingSideRookMoved env b) = itemsLength b"
  "whiteKingIndex (setBlackKingSideRookMoved env b) = whiteKingIndex b"
  "blackKingIndex (setBlackKingSideRookMoved env b) = blackKingIndex b"
  "historyCounter (setBlackKingSideRookMoved env b) = historyCounter b"
  "stateHistory (setBlackKingSideRookMoved env b) = stateHistory b"
  "hashCodeHistory (setBlackKingSideRookMoved env b) = hashCodeHistory b"
  "scoreHistory (setBlackKingSideRookMoved env b) = scoreHistory b"
  "halfMoveClockHistory (setBlackKingSideRookMoved env b) = halfMoveClockHistory b"
  "positionHistory (setBlackKingSideRookMoved env b) = positionHistory b"
  "halfMoveCount (setBlackKingSideRookMoved env b) = halfMoveCount b"
  "endgame (setBlackKingSideRookMoved env b) = endgame b"
  "s \<noteq> itemsLength b - 1 \<Longrightarrow> items (setBlackKingSideRookMoved env b) s = items b s"
  by (simp_all add: setBlackKingSideRookMoved_def Let_def)

lemma addPieceScore_frame [simp]:
  "bitBoardPieces (addPieceScore env pos piece b) = bitBoardPieces b"
  "bitBoardAllPieces (addPieceScore env pos piece b) = bitBoardAllPieces b"
  "itemsLength (addPieceScore env pos piece b) = itemsLength b"
  "whiteKingIndex (addPieceScore env pos piece b) = whiteKingIndex b"
  "blackKingIndex (addPieceScore env pos piece b) = blackKingIndex b"
  "historyCounter (addPieceScore env pos piece b) = historyCounter b"
  "stateHistory (addPieceScore env pos piece b) = stateHistory b"
  "hashCodeHistory (addPieceScore env pos piece b) = hashCodeHistory b"
  "scoreHistory (addPieceScore env pos piece b) = scoreHistory b"
  "halfMoveClockHistory (addPieceScore env pos piece b) = halfMoveClockHistory b"
  "positionHistory (addPieceScore env pos piece b) = positionHistory b"
  "halfMoveCount (addPieceScore env pos piece b) = halfMoveCount b"
  "endgame (addPieceScore env pos piece b) = endgame b"
  "s \<noteq> itemsLength b - 1 \<Longrightarrow> items (addPieceScore env pos piece b) s = items b s"
  by (simp_all add: addPieceScore_def Let_def)

lemma subtractPieceScore_frame [simp]:
  "bitBoardPieces (subtractPieceScore env pos piece b) = bitBoardPieces b"
  "bitBoardAllPieces (subtractPieceScore env pos piece b) = bitBoardAllPieces b"
  "itemsLength (subtractPieceScore env pos piece b) = itemsLength b"
  "whiteKingIndex (subtractPieceScore env pos piece b) = whiteKingIndex b"
  "blackKingIndex (subtractPieceScore env pos piece b) = blackKingIndex b"
  "historyCounter (subtractPieceScore env pos piece b) = historyCounter b"
  "stateHistory (subtractPieceScore env pos piece b) = stateHistory b"
  "hashCodeHistory (subtractPieceScore env pos piece b) = hashCodeHistory b"
  "scoreHistory (subtractPieceScore env pos piece b) = scoreHistory b"
  "halfMoveClockHistory (subtractPieceScore env pos piece b) = halfMoveClockHistory b"
  "positionHistory (subtractPieceScore env pos piece b) = positionHistory b"
  "halfMoveCount (subtractPieceScore env pos piece b) = halfMoveCount b"
  "endgame (subtractPieceScore env pos piece b) = endgame b"
  "s \<noteq> itemsLength b - 1 \<Longrightarrow> items (subtractPieceScore env pos piece b) s = items b s"
  by (simp_all add: subtractPieceScore_def Let_def)

lemma increaseHalfMoveCount_frame [simp]:
  "bitBoardPieces (increaseHalfMoveCount env b) = bitBoardPieces b"
  "bitBoardAllPieces (increaseHalfMoveCount env b) = bitBoardAllPieces b"
  "itemsLength (increaseHalfMoveCount env b) = itemsLength b"
  "whiteKingIndex (increaseHalfMoveCount env b) = whiteKingIndex b"
  "blackKingIndex (increaseHalfMoveCount env b) = blackKingIndex b"
  "historyCounter (increaseHalfMoveCount env b) = historyCounter b"
  "stateHistory (increaseHalfMoveCount env b) = stateHistory b"
  "hashCodeHistory (increaseHalfMoveCount env b) = hashCodeHistory b"
  "scoreHistory (increaseHalfMoveCount env b) = scoreHistory b"
  "halfMoveClockHistory (increaseHalfMoveCount env b) = halfMoveClockHistory b"
  "positionHistory (increaseHalfMoveCount env b) = positionHistory b"
  "endgame (increaseHalfMoveCount env b) = endgame b"
  "s \<noteq> itemsLength b - 1 \<Longrightarrow> items (increaseHalfMoveCount env b) s = items b s"
  by (simp_all add: increaseHalfMoveCount_def Let_def)

lemma updateWhiteKingPosition_frame [simp]:
  "bitBoardPieces (updateWhiteKingPosition env i b) = bitBoardPieces b"
  "bitBoardAllPieces (updateWhiteKingPosition env i b) = bitBoardAllPieces b"
  "itemsLength (updateWhiteKingPosition env i b) = itemsLength b"
  "blackKingIndex (updateWhiteKingPosition env i b) = blackKingIndex b"
  "historyCounter (updateWhiteKingPosition env i b) = historyCounter b"
  "stateHistory (updateWhiteKingPosition env i b) = stateHistory b"
  "hashCodeHistory (updateWhiteKingPosition env i b) = hashCodeHistory b"
  "scoreHistory (updateWhiteKingPosition env i b) = scoreHistory b"
  "halfMoveClockHistory (updateWhiteKingPosition env i b) = halfMoveClockHistory b"
  "positionHistory (updateWhiteKingPosition env i b) = positionHistory b"
  "halfMoveCount (updateWhiteKingPosition env i b) = halfMoveCount b"
  "endgame (updateWhiteKingPosition env i b) = endgame b"
  "s \<noteq> itemsLength b - 1 \<Longrightarrow> items (updateWhiteKingPosition env i b) s = items b s"
  by (simp_all add: updateWhiteKingPosition_def Let_def)

lemma updateBlackKingPosition_frame [simp]:
  "bitBoardPieces (updateBlackKingPosition env i b) = bitBoardPieces b"
  "bitBoardAllPieces (updateBlackKingPosition env i b) = bitBoardAllPieces b"
  "itemsLength (updateBlackKingPosition env i b) = itemsLength b"
  "whiteKingIndex (updateBlackKingPosition env i b) = whiteKingIndex b"
  "historyCounter (updateBlackKingPosition env i b) = historyCounter b"
  "stateHistory (updateBlackKingPosition env i b) = stateHistory b"
  "hashCodeHistory (updateBlackKingPosition env i b) = hashCodeHistory b"
  "scoreHistory (updateBlackKingPosition env i b) = scoreHistory b"
  "halfMoveClockHistory (updateBlackKingPosition env i b) = halfMoveClockHistory b"
  "positionHistory (updateBlackKingPosition env i b) = positionHistory b"
  "halfMoveCount (updateBlackKingPosition env i b) = halfMoveCount b"
  "endgame (updateBlackKingPosition env i b) = endgame b"
  "s \<noteq> itemsLength b - 1 \<Longrightarrow> items (updateBlackKingPosition env i b) s = items b s"
  by (simp_all add: updateBlackKingPosition_def Let_def)

lemma updateKingPosition_frame [simp]:
  "bitBoardPieces (updateKingPosition env c i b) = bitBoardPieces b"
  "bitBoardAllPieces (updateKingPosition env c i b) = bitBoardAllPieces b"
  "itemsLength (updateKingPosition env c i b) = itemsLength b"
  "historyCounter (updateKingPosition env c i b) = historyCounter b"
  "stateHistory (updateKingPosition env c i b) = stateHistory b"
  "hashCodeHistory (updateKingPosition env c i b) = hashCodeHistory b"
  "scoreHistory (updateKingPosition env c i b) = scoreHistory b"
  "halfMoveClockHistory (updateKingPosition env c i b) = halfMoveClockHistory b"
  "positionHistory (updateKingPosition env c i b) = positionHistory b"
  "halfMoveCount (updateKingPosition env c i b) = halfMoveCount b"
  "endgame (updateKingPosition env c i b) = endgame b"
  "s \<noteq> itemsLength b - 1 \<Longrightarrow> items (updateKingPosition env c i b) s = items b s"
  by (simp_all add: updateKingPosition_def Let_def)

lemma pushPositionHistory_frame [simp]:
  "bitBoardPieces (pushPositionHistory b) = bitBoardPieces b"
  "bitBoardAllPieces (pushPositionHistory b) = bitBoardAllPieces b"
  "itemsLength (pushPositionHistory b) = itemsLength b"
  "whiteKingIndex (pushPositionHistory b) = whiteKingIndex b"
  "blackKingIndex (pushPositionHistory b) = blackKingIndex b"
  "historyCounter (pushPositionHistory b) = historyCounter b"
  "stateHistory (pushPositionHistory b) = stateHistory b"
  "hashCodeHistory (pushPositionHistory b) = hashCodeHistory b"
  "scoreHistory (pushPositionHistory b) = scoreHistory b"
  "halfMoveClockHistory (pushPositionHistory b) = halfMoveClockHistory b"
  "halfMoveCount (pushPositionHistory b) = halfMoveCount b"
  "endgame (pushPositionHistory b) = endgame b"
  "s \<noteq> itemsLength b - 1 \<Longrightarrow> items (pushPositionHistory b) s = items b s"
  by (simp_all add: pushPositionHistory_def Let_def)

lemma popPositionHistory_frame [simp]:
  "bitBoardPieces (popPositionHistory b) = bitBoardPieces b"
  "bitBoardAllPieces (popPositionHistory b) = bitBoardAllPieces b"
  "itemsLength (popPositionHistory b) = itemsLength b"
  "whiteKingIndex (popPositionHistory b) = whiteKingIndex b"
  "blackKingIndex (popPositionHistory b) = blackKingIndex b"
  "historyCounter (popPositionHistory b) = historyCounter b"
  "stateHistory (popPositionHistory b) = stateHistory b"
  "hashCodeHistory (popPositionHistory b) = hashCodeHistory b"
  "scoreHistory (popPositionHistory b) = scoreHistory b"
  "halfMoveClockHistory (popPositionHistory b) = halfMoveClockHistory b"
  "halfMoveCount (popPositionHistory b) = halfMoveCount b"
  "endgame (popPositionHistory b) = endgame b"
  "s \<noteq> itemsLength b - 1 \<Longrightarrow> items (popPositionHistory b) s = items b s"
  by (simp_all add: popPositionHistory_def Let_def)

lemma storeState_frame [simp]:
  "bitBoardPieces (storeState b) = bitBoardPieces b"
  "bitBoardAllPieces (storeState b) = bitBoardAllPieces b"
  "itemsLength (storeState b) = itemsLength b"
  "whiteKingIndex (storeState b) = whiteKingIndex b"
  "blackKingIndex (storeState b) = blackKingIndex b"
  "positionHistory (storeState b) = positionHistory b"
  "halfMoveCount (storeState b) = halfMoveCount b"
  "endgame (storeState b) = endgame b"
  "items (storeState b) = items b"
  by (simp_all add: storeState_def Let_def)

lemma restoreState_frame [simp]:
  "bitBoardPieces (restoreState b) = bitBoardPieces b"
  "bitBoardAllPieces (restoreState b) = bitBoardAllPieces b"
  "itemsLength (restoreState b) = itemsLength b"
  "whiteKingIndex (restoreState b) = whiteKingIndex b"
  "blackKingIndex (restoreState b) = blackKingIndex b"
  "stateHistory (restoreState b) = stateHistory b"
  "hashCodeHistory (restoreState b) = hashCodeHistory b"
  "scoreHistory (restoreState b) = scoreHistory b"
  "halfMoveClockHistory (restoreState b) = halfMoveClockHistory b"
  "positionHistory (restoreState b) = positionHistory b"
  "endgame (restoreState b) = endgame b"
  "s \<noteq> 66 \<Longrightarrow> items (restoreState b) s = items b s"
  by (simp_all add: restoreState_def Let_def STATE_INDEX_def)

lemma addPieceWithoutIncrementalUpdate_frame [simp]:
  "itemsLength (addPieceWithoutIncrementalUpdate c p pos b) = itemsLength b"
  "whiteKingIndex (addPieceWithoutIncrementalUpdate c p pos b) = whiteKingIndex b"
  "blackKingIndex (addPieceWithoutIncrementalUpdate c p pos b) = blackKingIndex b"
  "historyCounter (addPieceWithoutIncrementalUpdate c p pos b) = historyCounter b"
  "stateHistory (addPieceWithoutIncrementalUpdate c p pos b) = stateHistory b"
  "hashCodeHistory (addPieceWithoutIncrementalUpdate c p pos b) = hashCodeHistory b"
  "scoreHistory (addPieceWithoutIncrementalUpdate c p pos b) = scoreHistory b"
  "halfMoveClockHistory (addPieceWithoutIncrementalUpdate c p pos b) = halfMoveClockHistory b"
  "positionHistory (addPieceWithoutIncrementalUpdate c p pos b) = positionHistory b"
  "halfMoveCount (addPieceWithoutIncrementalUpdate c p pos b) = halfMoveCount b"
  "endgame (addPieceWithoutIncrementalUpdate c p pos b) = endgame b"
  by (simp_all add: addPieceWithoutIncrementalUpdate_def Let_def)

lemma addPiece_frame [simp]:
  "itemsLength (addPiece env c pid pos b) = itemsLength b"
  "whiteKingIndex (addPiece env c pid pos b) = whiteKingIndex b"
  "blackKingIndex (addPiece env c pid pos b) = blackKingIndex b"
  "historyCounter (addPiece env c pid pos b) = historyCounter b"
  "stateHistory (addPiece env c pid pos b) = stateHistory b"
  "hashCodeHistory (addPiece env c pid pos b) = hashCodeHistory b"
  "scoreHistory (addPiece env c pid pos b) = scoreHistory b"
  "halfMoveClockHistory (addPiece env c pid pos b) = halfMoveClockHistory b"
  "positionHistory (addPiece env c pid pos b) = positionHistory b"
  "halfMoveCount (addPiece env c pid pos b) = halfMoveCount b"
  "endgame (addPiece env c pid pos b) = endgame b"
  by (simp_all add: addPiece_def Let_def)

lemma remove_frame [simp]:
  "itemsLength (fst (remove env p c pos b)) = itemsLength b"
  "whiteKingIndex (fst (remove env p c pos b)) = whiteKingIndex b"
  "blackKingIndex (fst (remove env p c pos b)) = blackKingIndex b"
  "historyCounter (fst (remove env p c pos b)) = historyCounter b"
  "stateHistory (fst (remove env p c pos b)) = stateHistory b"
  "hashCodeHistory (fst (remove env p c pos b)) = hashCodeHistory b"
  "scoreHistory (fst (remove env p c pos b)) = scoreHistory b"
  "halfMoveClockHistory (fst (remove env p c pos b)) = halfMoveClockHistory b"
  "positionHistory (fst (remove env p c pos b)) = positionHistory b"
  "halfMoveCount (fst (remove env p c pos b)) = halfMoveCount b"
  "endgame (fst (remove env p c pos b)) = endgame b"
  by (simp_all add: remove_def Let_def)

lemma removePiece_frame [simp]:
  "itemsLength (fst (removePiece env pos b)) = itemsLength b"
  "whiteKingIndex (fst (removePiece env pos b)) = whiteKingIndex b"
  "blackKingIndex (fst (removePiece env pos b)) = blackKingIndex b"
  "historyCounter (fst (removePiece env pos b)) = historyCounter b"
  "stateHistory (fst (removePiece env pos b)) = stateHistory b"
  "hashCodeHistory (fst (removePiece env pos b)) = hashCodeHistory b"
  "scoreHistory (fst (removePiece env pos b)) = scoreHistory b"
  "halfMoveClockHistory (fst (removePiece env pos b)) = halfMoveClockHistory b"
  "positionHistory (fst (removePiece env pos b)) = positionHistory b"
  "halfMoveCount (fst (removePiece env pos b)) = halfMoveCount b"
  "endgame (fst (removePiece env pos b)) = endgame b"
  by (simp_all add: removePiece_def Let_def)

lemma removePieceWithoutIncrementalUpdate_frame [simp]:
  "itemsLength (fst (removePieceWithoutIncrementalUpdate env pos b)) = itemsLength b"
  "whiteKingIndex (fst (removePieceWithoutIncrementalUpdate env pos b)) = whiteKingIndex b"
  "blackKingIndex (fst (removePieceWithoutIncrementalUpdate env pos b)) = blackKingIndex b"
  "historyCounter (fst (removePieceWithoutIncrementalUpdate env pos b)) = historyCounter b"
  "stateHistory (fst (removePieceWithoutIncrementalUpdate env pos b)) = stateHistory b"
  "hashCodeHistory (fst (removePieceWithoutIncrementalUpdate env pos b)) = hashCodeHistory b"
  "scoreHistory (fst (removePieceWithoutIncrementalUpdate env pos b)) = scoreHistory b"
  "halfMoveClockHistory (fst (removePieceWithoutIncrementalUpdate env pos b)) = halfMoveClockHistory b"
  "positionHistory (fst (removePieceWithoutIncrementalUpdate env pos b)) = positionHistory b"
  "halfMoveCount (fst (removePieceWithoutIncrementalUpdate env pos b)) = halfMoveCount b"
  "endgame (fst (removePieceWithoutIncrementalUpdate env pos b)) = endgame b"
  by (simp_all add: removePieceWithoutIncrementalUpdate_def Let_def)


section \<open>Pieces on the board and the consistency invariant\<close>

lemma sign_simps:
  "sign x = 1 \<longleftrightarrow> 0 < x" "sign x = - 1 \<longleftrightarrow> x < 0" "sign x = 0 \<longleftrightarrow> x = 0"
  "1 = sign x \<longleftrightarrow> 0 < x" "- 1 = sign x \<longleftrightarrow> x < 0" "0 = sign x \<longleftrightarrow> x = 0"
  by (simp_all add: sign_def)

lemma sign_cases [simp]:
  "0 < x \<Longrightarrow> sign x = 1" "x < 0 \<Longrightarrow> sign x = - 1" "sign 0 = 0"
  by (simp_all add: sign_def)

lemma bit_bit64 [simp]:
  "0 \<le> pos \<Longrightarrow> pos \<le> 63 \<Longrightarrow> 0 \<le> s \<Longrightarrow> bit (bit64 pos) (nat s) \<longleftrightarrow> s = pos"
  by (auto simp: bit64_def bit_simps nat_eq_iff)

lemma addPieceWithoutIncrementalUpdate_pieces [simp]:
  "bitBoardPieces (addPieceWithoutIncrementalUpdate c p pos b) =
     (bitBoardPieces b)(p + 6 := bitBoardPieces b (p + 6) OR bit64 pos)"
  "bitBoardAllPieces (addPieceWithoutIncrementalUpdate c p pos b) =
     (bitBoardAllPieces b)(c + 1 := bitBoardAllPieces b (c + 1) OR bit64 pos)"
  "items (addPieceWithoutIncrementalUpdate c p pos b) = (items b)(pos := p)"
  by (simp_all add: addPieceWithoutIncrementalUpdate_def Let_def)

lemma addPiece_pieces [simp]:
  "bitBoardPieces (addPiece env c pid pos b) =
     (bitBoardPieces b)(pid * c + 6 := bitBoardPieces b (pid * c + 6) OR bit64 pos)"
  "bitBoardAllPieces (addPiece env c pid pos b) =
     (bitBoardAllPieces b)(c + 1 := bitBoardAllPieces b (c + 1) OR bit64 pos)"
  "items (addPiece env c pid pos b) = (items b)(pos := pid * c)"
  by (simp_all add: addPiece_def addPieceScore_def Let_def)

lemma remove_pieces [simp]:
  "bitBoardPieces (fst (remove env p c pos b)) =
     (bitBoardPieces b)(p + 6 := bitBoardPieces b (p + 6) AND NOT (bit64 pos))"
  "bitBoardAllPieces (fst (remove env p c pos b)) =
     (bitBoardAllPieces b)(c + 1 := bitBoardAllPieces b (c + 1) AND NOT (bit64 pos))"
  "s \<noteq> itemsLength b - 1 \<Longrightarrow>
     items (fst (remove env p c pos b)) s = (if s = pos then 0 else items b s)"
  "snd (remove env p c pos b) = p"
  by (simp_all add: remove_def Let_def EMPTY_def)

lemma removePiece_pieces [simp]:
  "bitBoardPieces (fst (removePiece env pos b)) =
     (bitBoardPieces b)(items b pos + 6 := bitBoardPieces b (items b pos + 6) AND NOT (bit64 pos))"
  "bitBoardAllPieces (fst (removePiece env pos b)) =
     (bitBoardAllPieces b)(sign (items b pos) + 1 :=
        bitBoardAllPieces b (sign (items b pos) + 1) AND NOT (bit64 pos))"
  "s \<noteq> itemsLength b - 1 \<Longrightarrow>
     items (fst (removePiece env pos b)) s = (if s = pos then 0 else items b s)"
  "snd (removePiece env pos b) = items b pos"
  by (simp_all add: removePiece_def subtractPieceScore_def Let_def)

lemma removePieceWithoutIncrementalUpdate_pieces [simp]:
  "bitBoardPieces (fst (removePieceWithoutIncrementalUpdate env pos b)) =
     (bitBoardPieces b)(items b pos + 6 := bitBoardPieces b (items b pos + 6) AND NOT (bit64 pos))"
  "bitBoardAllPieces (fst (removePieceWithoutIncrementalUpdate env pos b)) =
     (bitBoardAllPieces b)(sign (items b pos) + 1 :=
        bitBoardAllPieces b (sign (items b pos) + 1) AND NOT (bit64 pos))"
  "s \<noteq> itemsLength b - 1 \<Longrightarrow>
     items (fst (removePieceWithoutIncrementalUpdate env pos b)) s =
       (if s = pos then 0 else items b s)"
  "snd (removePieceWithoutIncrementalUpdate env pos b) = items b pos"
  by (simp_all add: removePieceWithoutIncrementalUpdate_def Let_def)

lemma board_inv_cong:
  assumes "itemsLength b' = itemsLength b"
    and "bitBoardPieces b' = bitBoardPieces b"
    and "bitBoardAllPieces b' = bitBoardAllPieces b"
    and "\<And>s. s \<noteq> itemsLength b - 1 \<Longrightarrow> items b' s = items b s"
  shows "board_inv b' = board_inv b"
proof (cases "67 \<le> itemsLength b")
  case True
  then have "\<And>s. s \<in> {0..63} \<Longrightarrow> items b' s = items b s"
    using assms(4) by simp
  then show ?thesis
    using assms(1-3) by (simp add: board_inv_def)
next
  case False
  then show ?thesis
    using assms(1) by (simp add: board_inv_def)
qed

lemma board_inv_state_ops [simp]:
  "board_inv (setStateBit m b) = board_inv b"
  "board_inv (clearStateBit m b) = board_inv b"
  "board_inv (updateHashForCastling env p b) = board_inv b"
  "board_inv (updateHashForEnPassent env p b) = board_inv b"
  "board_inv (setEnPassantPossible env i b) = board_inv b"
  "board_inv (clearEnPassentPossible env b) = board_inv b"
  "board_inv (resetHalfMoveClock b) = board_inv b"
  "board_inv (setWhiteKingMoved env b) = board_inv b"
  "board_inv (setBlackKingMoved env b) = board_inv b"
  "board_inv (setWhiteQueenSideRookMoved env b) = board_inv b"
  "board_inv (setWhiteKingSideRookMoved env b) = board_inv b"
  "board_inv (setBlackQueenSideRookMoved env b) = board_inv b"
  "board_inv (setBlackKingSideRookMoved env b) = board_inv b"
  "board_inv (addPieceScore env pos piece b) = board_inv b"
  "board_inv (subtractPieceScore env pos piece b) = board_inv b"
  "board_inv (increaseHalfMoveCount env b) = board_inv b"
  "board_inv (updateWhiteKingPosition env i b) = board_inv b"
  "board_inv (updateBlackKingPosition env i b) = board_inv b"
  "board_inv (updateKingPosition env c i b) = board_inv b"
  "board_inv (pushPositionHistory b) = board_inv b"
  "board_inv (popPositionHistory b) = board_inv b"
  "board_inv (storeState b) = board_inv b"
  by (rule board_inv_cong; simp)+

lemma board_inv_restoreState [simp]: "board_inv (restoreState b) = board_inv b"
proof -
  have "\<And>s. s \<in> {0..63} \<Longrightarrow> items (restoreState b) s = items b s"
    by simp
  then show ?thesis
    by (simp add: board_inv_def)
qed

lemma board_inv_add:
  assumes "board_inv b" "0 \<le> pos" "pos \<le> 63" "items b pos = 0" "c = 1 \<or> c = - 1"
    "1 \<le> pid" "pid \<le> 6"
  shows "board_inv (addPiece env c pid pos b)"
  using assms unfolding board_inv_def
  by (auto simp: bit_simps sign_simps)

lemma board_inv_addWithout:
  assumes "board_inv b" "0 \<le> pos" "pos \<le> 63" "items b pos = 0" "p \<noteq> 0" "- 6 \<le> p" "p \<le> 6"
  shows "board_inv (addPieceWithoutIncrementalUpdate (sign p) p pos b)"
proof -
  consider "p < 0" | "0 < p"
    using assms(5) by linarith
  then show ?thesis
    using assms unfolding board_inv_def
    by cases (auto simp: bit_simps sign_simps)
qed

lemma board_inv_removePiece:
  assumes "board_inv b" "0 \<le> pos" "pos \<le> 63"
  shows "board_inv (fst (removePiece env pos b))"
proof -
  consider "items b pos = 0" | "items b pos < 0" | "0 < items b pos"
    by linarith
  then show ?thesis
    using assms unfolding board_inv_def
    by cases (auto simp: bit_simps sign_simps)
qed

lemma board_inv_removeWithout:
  assumes "board_inv b" "0 \<le> pos" "pos \<le> 63"
  shows "board_inv (fst (removePieceWithoutIncrementalUpdate env pos b))"
proof -
  consider "items b pos = 0" | "items b pos < 0" | "0 < items b pos"
    by linarith
  then show ?thesis
    using assms unfolding board_inv_def
    by cases (auto simp: bit_simps sign_simps)
qed

section \<open>The cases of make and unmake\<close>

lemmas const_defs = PAWN_def KNIGHT_def BISHOP_def ROOK_def QUEEN_def KING_def
  WHITE_QUEEN_SIDE_ROOK_START_def WHITE_KING_SIDE_ROOK_START_def BLACK_QUEEN_SIDE_ROOK_START_def
  BLACK_KING_SIDE_ROOK_START_def WHITE_PAWNS_BASELINE_START_def BLACK_PAWNS_BASELINE_START_def
  WHITE_KING_START_def BLACK_KING_START_def BLACK_def WHITE_def EMPTY_def

lemma legal_shapeD:
  assumes "legal_shape b pieceId start endp"
  shows "0 \<le> start" "start \<le> 63" "0 \<le> endp" "endp \<le> 63" "start \<noteq> endp" "items b start \<noteq> 0"
    "items b endp = 0 \<or> sign (items b endp) = - sign (items b start)"
    "\<bar>items b endp\<bar> \<noteq> 6"
    "pieceId = \<bar>items b start\<bar> \<or> (\<bar>items b start\<bar> = 1 \<and> 2 \<le> pieceId \<and> pieceId \<le> 5)"
  using assms by (simp_all add: legal_shape_def Let_def const_defs)

lemma board_inv_add_sign:
  assumes "board_inv b" "0 \<le> pos" "pos \<le> 63" "items b pos = 0" "own \<noteq> 0"
    "1 \<le> pid" "pid \<le> 6"
  shows "board_inv (addPiece env (sign own) pid pos b)"
  by (rule board_inv_add) (use assms in \<open>auto simp: sign_def\<close>)

lemma legal_shape_pid:
  assumes "board_inv b" "legal_shape b pieceId start endp"
  shows "1 \<le> pieceId" "pieceId \<le> 6"
proof -
  note d = legal_shapeD [OF assms(2)]
  have "- 6 \<le> items b start" "items b start \<le> 6"
    using assms(1) d by (auto simp: board_inv_def)
  then show "1 \<le> pieceId" "pieceId \<le> 6"
    using d(9) d(6) by auto
qed

lemma liftedPiece_frame [simp]:
  "itemsLength (liftedPiece env start b) = itemsLength b"
  "whiteKingIndex (liftedPiece env start b) = whiteKingIndex b"
  "blackKingIndex (liftedPiece env start b) = blackKingIndex b"
  "historyCounter (liftedPiece env start b) = historyCounter b + 1"
  "positionHistory (liftedPiece env start b) = positionHistory b"
  "halfMoveCount (liftedPiece env start b) = halfMoveCount b + 1"
  "endgame (liftedPiece env start b) = endgame b"
  "stateHistory (liftedPiece env start b) =
     (stateHistory b)(historyCounter b := items b STATE_INDEX)"
  "hashCodeHistory (liftedPiece env start b) = (hashCodeHistory b)(historyCounter b := hashCode b)"
  "scoreHistory (liftedPiece env start b) =
     (scoreHistory b)(historyCounter b := packScores (score b) (egScore b))"
  "halfMoveClockHistory (liftedPiece env start b) =
     (halfMoveClockHistory b)(historyCounter b := halfMoveClock b)"
  "s \<noteq> itemsLength b - 1 \<Longrightarrow>
     items (liftedPiece env start b) s = (if s = start then 0 else items b s)"
  by (simp_all add: liftedPiece_def storeState_def increaseHalfMoveCount_def)

lemma liftedPiece_inv:
  "board_inv b \<Longrightarrow> 0 \<le> start \<Longrightarrow> start \<le> 63 \<Longrightarrow> board_inv (liftedPiece env start b)"
  by (simp add: liftedPiece_def board_inv_removePiece)

lemma performMove_eqs:
  assumes "67 \<le> itemsLength b" "0 \<le> start" "start \<le> 63" "0 \<le> endp" "endp \<le> 63" "start \<noteq> endp"
  shows
    "items b endp \<noteq> 0 \<Longrightarrow> pieceId \<noteq> 6 \<Longrightarrow>
      performMove env pieceId start endp b =
       (pushPositionHistory
          (resetHalfMoveClock (addPiece env (sign (items b start)) pieceId endp
             (fst (removePiece env endp (liftedPiece env start b))))),
        \<bar>items b endp\<bar>)"
    "items b endp \<noteq> 0 \<Longrightarrow> pieceId = 6 \<Longrightarrow>
      performMove env pieceId start endp b =
       (pushPositionHistory
          (updateKingPosition env (sign (items b start)) endp
             (resetHalfMoveClock (addPiece env (sign (items b start)) pieceId endp
               (fst (removePiece env endp (liftedPiece env start b)))))),
        \<bar>items b endp\<bar>)"
    "items b endp = 0 \<Longrightarrow> items b start = 1 \<Longrightarrow> start - endp = 16 \<Longrightarrow>
      performMove env pieceId start endp b =
       (pushPositionHistory
          (setEnPassantPossible env start (resetHalfMoveClock (addPiece env (sign (items b start)) pieceId endp (liftedPiece env start b)))),
        0)"
    "items b endp = 0 \<Longrightarrow> items b start = 1 \<Longrightarrow> start - endp = 7 \<Longrightarrow>
      performMove env pieceId start endp b =
       (pushPositionHistory
          (fst (removePiece env (start + 1) (resetHalfMoveClock (addPiece env (sign (items b start)) pieceId endp (liftedPiece env start b))))),
        EN_PASSANT_BIT)"
    "items b endp = 0 \<Longrightarrow> items b start = 1 \<Longrightarrow> start - endp = 9 \<Longrightarrow>
      performMove env pieceId start endp b =
       (pushPositionHistory
          (fst (removePiece env (start - 1) (resetHalfMoveClock (addPiece env (sign (items b start)) pieceId endp (liftedPiece env start b))))),
        EN_PASSANT_BIT)"
    "items b endp = 0 \<Longrightarrow> items b start = 1 \<Longrightarrow> start - endp \<noteq> 16 \<Longrightarrow> start - endp \<noteq> 7 \<Longrightarrow> start - endp \<noteq> 9 \<Longrightarrow>
      performMove env pieceId start endp b =
       (pushPositionHistory
          (resetHalfMoveClock (addPiece env (sign (items b start)) pieceId endp (liftedPiece env start b))),
        0)"
    "items b endp = 0 \<Longrightarrow> items b start = - 1 \<Longrightarrow> start - endp = - 16 \<Longrightarrow>
      performMove env pieceId start endp b =
       (pushPositionHistory
          (setEnPassantPossible env start (resetHalfMoveClock (addPiece env (sign (items b start)) pieceId endp (liftedPiece env start b)))),
        0)"
    "items b endp = 0 \<Longrightarrow> items b start = - 1 \<Longrightarrow> start - endp = - 7 \<Longrightarrow>
      performMove env pieceId start endp b =
       (pushPositionHistory
          (fst (removePiece env (start - 1) (resetHalfMoveClock (addPiece env (sign (items b start)) pieceId endp (liftedPiece env start b))))),
        EN_PASSANT_BIT)"
    "items b endp = 0 \<Longrightarrow> items b start = - 1 \<Longrightarrow> start - endp = - 9 \<Longrightarrow>
      performMove env pieceId start endp b =
       (pushPositionHistory
          (fst (removePiece env (start + 1) (resetHalfMoveClock (addPiece env (sign (items b start)) pieceId endp (liftedPiece env start b))))),
        EN_PASSANT_BIT)"
    "items b endp = 0 \<Longrightarrow> items b start = - 1 \<Longrightarrow> start - endp \<noteq> - 16 \<Longrightarrow> start - endp \<noteq> - 7 \<Longrightarrow> start - endp \<noteq> - 9 \<Longrightarrow>
      performMove env pieceId start endp b =
       (pushPositionHistory
          (resetHalfMoveClock (addPiece env (sign (items b start)) pieceId endp (liftedPiece env start b))),
        0)"
    "items b endp = 0 \<Longrightarrow> items b start = 6 \<Longrightarrow> start - endp = - 2 \<Longrightarrow>
      performMove env pieceId start endp b =
       (pushPositionHistory
          (setStateBit WHITE_HAS_CASTLED (addPiece env (sign (items b start)) 4 61
             (fst (removePiece env 63 (updateWhiteKingPosition env endp (addPiece env (sign (items b start)) pieceId endp (liftedPiece env start b))))))),
        0)"
    "items b endp = 0 \<Longrightarrow> items b start = 6 \<Longrightarrow> start - endp = 2 \<Longrightarrow>
      performMove env pieceId start endp b =
       (pushPositionHistory
          (setStateBit WHITE_HAS_CASTLED (addPiece env (sign (items b start)) 4 59
             (fst (removePiece env 56 (updateWhiteKingPosition env endp (addPiece env (sign (items b start)) pieceId endp (liftedPiece env start b))))))),
        0)"
    "items b endp = 0 \<Longrightarrow> items b start = 6 \<Longrightarrow> start - endp \<noteq> - 2 \<Longrightarrow> start - endp \<noteq> 2 \<Longrightarrow>
      performMove env pieceId start endp b =
       (pushPositionHistory
          (updateWhiteKingPosition env endp (addPiece env (sign (items b start)) pieceId endp (liftedPiece env start b))),
        0)"
    "items b endp = 0 \<Longrightarrow> items b start = - 6 \<Longrightarrow> start - endp = - 2 \<Longrightarrow>
      performMove env pieceId start endp b =
       (pushPositionHistory
          (setStateBit BLACK_HAS_CASTLED (addPiece env (sign (items b start)) 4 5
             (fst (removePiece env 7 (updateBlackKingPosition env endp (addPiece env (sign (items b start)) pieceId endp (liftedPiece env start b))))))),
        0)"
    "items b endp = 0 \<Longrightarrow> items b start = - 6 \<Longrightarrow> start - endp = 2 \<Longrightarrow>
      performMove env pieceId start endp b =
       (pushPositionHistory
          (setStateBit BLACK_HAS_CASTLED (addPiece env (sign (items b start)) 4 3
             (fst (removePiece env 0 (updateBlackKingPosition env endp (addPiece env (sign (items b start)) pieceId endp (liftedPiece env start b))))))),
        0)"
    "items b endp = 0 \<Longrightarrow> items b start = - 6 \<Longrightarrow> start - endp \<noteq> - 2 \<Longrightarrow> start - endp \<noteq> 2 \<Longrightarrow>
      performMove env pieceId start endp b =
       (pushPositionHistory
          (updateBlackKingPosition env endp (addPiece env (sign (items b start)) pieceId endp (liftedPiece env start b))),
        0)"
    "items b endp = 0 \<Longrightarrow> items b start \<noteq> 1 \<Longrightarrow> items b start \<noteq> - 1 \<Longrightarrow> items b start \<noteq> 6 \<Longrightarrow> items b start \<noteq> - 6 \<Longrightarrow>
      performMove env pieceId start endp b =
       (pushPositionHistory
          (addPiece env (sign (items b start)) pieceId endp (liftedPiece env start b)),
        0)"
  using assms
  unfolding performMove_def Let_def split_beta liftedPiece_def [symmetric]
  by (simp_all add: const_defs getItem_def)

lemma performMove_cases [case_names capture king_capture white_double white_ep7 white_ep9 white_pawn black_double black_ep7 black_ep9 black_pawn white_castle_king_side white_castle_queen_side white_king black_castle_king_side black_castle_queen_side black_king piece]:
  assumes "67 \<le> itemsLength b" "0 \<le> start" "start \<le> 63" "0 \<le> endp" "endp \<le> 63" "start \<noteq> endp"
  obtains
    (capture) "items b endp \<noteq> 0" "pieceId \<noteq> 6"
      "performMove env pieceId start endp b =
       (pushPositionHistory
          (resetHalfMoveClock (addPiece env (sign (items b start)) pieceId endp
             (fst (removePiece env endp (liftedPiece env start b))))),
        \<bar>items b endp\<bar>)"
  | (king_capture) "items b endp \<noteq> 0" "pieceId = 6"
      "performMove env pieceId start endp b =
       (pushPositionHistory
          (updateKingPosition env (sign (items b start)) endp
             (resetHalfMoveClock (addPiece env (sign (items b start)) pieceId endp
               (fst (removePiece env endp (liftedPiece env start b)))))),
        \<bar>items b endp\<bar>)"
  | (white_double) "items b endp = 0" "items b start = 1" "start - endp = 16"
      "performMove env pieceId start endp b =
       (pushPositionHistory
          (setEnPassantPossible env start (resetHalfMoveClock (addPiece env (sign (items b start)) pieceId endp (liftedPiece env start b)))),
        0)"
  | (white_ep7) "items b endp = 0" "items b start = 1" "start - endp = 7"
      "performMove env pieceId start endp b =
       (pushPositionHistory
          (fst (removePiece env (start + 1) (resetHalfMoveClock (addPiece env (sign (items b start)) pieceId endp (liftedPiece env start b))))),
        EN_PASSANT_BIT)"
  | (white_ep9) "items b endp = 0" "items b start = 1" "start - endp = 9"
      "performMove env pieceId start endp b =
       (pushPositionHistory
          (fst (removePiece env (start - 1) (resetHalfMoveClock (addPiece env (sign (items b start)) pieceId endp (liftedPiece env start b))))),
        EN_PASSANT_BIT)"
  | (white_pawn) "items b endp = 0" "items b start = 1" "start - endp \<noteq> 16" "start - endp \<noteq> 7" "start - endp \<noteq> 9"
      "performMove env pieceId start endp b =
       (pushPositionHistory
          (resetHalfMoveClock (addPiece env (sign (items b start)) pieceId endp (liftedPiece env start b))),
        0)"
  | (black_double) "items b endp = 0" "items b start = - 1" "start - endp = - 16"
      "performMove env pieceId start endp b =
       (pushPositionHistory
          (setEnPassantPossible env start (resetHalfMoveClock (addPiece env (sign (items b start)) pieceId endp (liftedPiece env start b)))),
        0)"
  | (black_ep7) "items b endp = 0" "items b start = - 1" "start - endp = - 7"
      "performMove env pieceId start endp b =
       (pushPositionHistory
          (fst (removePiece env (start - 1) (resetHalfMoveClock (addPiece env (sign (items b start)) pieceId endp (liftedPiece env start b))))),
        EN_PASSANT_BIT)"
  | (black_ep9) "items b endp = 0" "items b start = - 1" "start - endp = - 9"
      "performMove env pieceId start endp b =
       (pushPositionHistory
          (fst (removePiece env (start + 1) (resetHalfMoveClock (addPiece env (sign (items b start)) pieceId endp (liftedPiece env start b))))),
        EN_PASSANT_BIT)"
  | (black_pawn) "items b endp = 0" "items b start = - 1" "start - endp \<noteq> - 16" "start - endp \<noteq> - 7" "start - endp \<noteq> - 9"
      "performMove env pieceId start endp b =
       (pushPositionHistory
          (resetHalfMoveClock (addPiece env (sign (items b start)) pieceId endp (liftedPiece env start b))),
        0)"
  | (white_castle_king_side) "items b endp = 0" "items b start = 6" "start - endp = - 2"
      "performMove env pieceId start endp b =
       (pushPositionHistory
          (setStateBit WHITE_HAS_CASTLED (addPiece env (sign (items b start)) 4 61
             (fst (removePiece env 63 (updateWhiteKingPosition env endp (addPiece env (sign (items b start)) pieceId endp (liftedPiece env start b))))))),
        0)"
  | (white_castle_queen_side) "items b endp = 0" "items b start = 6" "start - endp = 2"
      "performMove env pieceId start endp b =
       (pushPositionHistory
          (setStateBit WHITE_HAS_CASTLED (addPiece env (sign (items b start)) 4 59
             (fst (removePiece env 56 (updateWhiteKingPosition env endp (addPiece env (sign (items b start)) pieceId endp (liftedPiece env start b))))))),
        0)"
  | (white_king) "items b endp = 0" "items b start = 6" "start - endp \<noteq> - 2" "start - endp \<noteq> 2"
      "performMove env pieceId start endp b =
       (pushPositionHistory
          (updateWhiteKingPosition env endp (addPiece env (sign (items b start)) pieceId endp (liftedPiece env start b))),
        0)"
  | (black_castle_king_side) "items b endp = 0" "items b start = - 6" "start - endp = - 2"
      "performMove env pieceId start endp b =
       (pushPositionHistory
          (setStateBit BLACK_HAS_CASTLED (addPiece env (sign (items b start)) 4 5
             (fst (removePiece env 7 (updateBlackKingPosition env endp (addPiece env (sign (items b start)) pieceId endp (liftedPiece env start b))))))),
        0)"
  | (black_castle_queen_side) "items b endp = 0" "items b start = - 6" "start - endp = 2"
      "performMove env pieceId start endp b =
       (pushPositionHistory
          (setStateBit BLACK_HAS_CASTLED (addPiece env (sign (items b start)) 4 3
             (fst (removePiece env 0 (updateBlackKingPosition env endp (addPiece env (sign (items b start)) pieceId endp (liftedPiece env start b))))))),
        0)"
  | (black_king) "items b endp = 0" "items b start = - 6" "start - endp \<noteq> - 2" "start - endp \<noteq> 2"
      "performMove env pieceId start endp b =
       (pushPositionHistory
          (updateBlackKingPosition env endp (addPiece env (sign (items b start)) pieceId endp (liftedPiece env start b))),
        0)"
  | (piece) "items b endp = 0" "items b start \<noteq> 1" "items b start \<noteq> - 1" "items b start \<noteq> 6" "items b start \<noteq> - 6"
      "performMove env pieceId start endp b =
       (pushPositionHistory
          (addPiece env (sign (items b start)) pieceId endp (liftedPiece env start b)),
        0)"
proof -
  note e = performMove_eqs [OF assms, where env = env and pieceId = pieceId]
  show thesis
  proof (cases "items b endp = 0")
    case False
    then show thesis
      by (cases "pieceId = 6") (use that(1,2) e(1,2) in blast)+
  next
    case e0: True
    consider (wp) "items b start = 1" | (bp) "items b start = - 1" | (wk) "items b start = 6"
      | (bk) "items b start = - 6"
      | (o) "items b start \<noteq> 1" "items b start \<noteq> - 1" "items b start \<noteq> 6" "items b start \<noteq> - 6"
      by blast
    then show thesis
    proof cases
      case wp
      consider "start - endp = 16" | "start - endp = 7" | "start - endp = 9"
        | "start - endp \<noteq> 16" "start - endp \<noteq> 7" "start - endp \<noteq> 9"
        by blast
      then show thesis
        by cases (use e0 wp that(3,4,5,6) e(3,4,5,6) in blast)+
    next
      case bp
      consider "start - endp = - 16" | "start - endp = - 7" | "start - endp = - 9"
        | "start - endp \<noteq> - 16" "start - endp \<noteq> - 7" "start - endp \<noteq> - 9"
        by blast
      then show thesis
        by cases (use e0 bp that(7,8,9,10) e(7,8,9,10) in blast)+
    next
      case wk
      consider "start - endp = - 2" | "start - endp = 2"
        | "start - endp \<noteq> - 2" "start - endp \<noteq> 2"
        by blast
      then show thesis
        by cases (use e0 wk that(11,12,13) e(11,12,13) in blast)+
    next
      case bk
      consider "start - endp = - 2" | "start - endp = 2"
        | "start - endp \<noteq> - 2" "start - endp \<noteq> 2"
        by blast
      then show thesis
        by cases (use e0 bk that(14,15,16) e(14,15,16) in blast)+
    next
      case o
      then show thesis
        using e0 that(17) e(17) by blast
    qed
  qed
qed


lemma legal_shape_ep:
  assumes "legal_shape b pieceId start endp" "items b endp = 0"
  shows "items b start = 1 \<Longrightarrow> start - endp = 7 \<Longrightarrow> start + 1 \<le> 63 \<and> items b (start + 1) = - 1"
    "items b start = 1 \<Longrightarrow> start - endp = 9 \<Longrightarrow> 0 \<le> start - 1 \<and> items b (start - 1) = - 1"
    "items b start = - 1 \<Longrightarrow> start - endp = - 7 \<Longrightarrow> 0 \<le> start - 1 \<and> items b (start - 1) = 1"
    "items b start = - 1 \<Longrightarrow> start - endp = - 9 \<Longrightarrow> start + 1 \<le> 63 \<and> items b (start + 1) = 1"
  using assms by (simp_all add: legal_shape_def Let_def const_defs)

lemma legal_shape_double:
  assumes "legal_shape b pieceId start endp" "items b endp = 0"
  shows "items b start = 1 \<Longrightarrow> start - endp = 16 \<Longrightarrow> 48 \<le> start \<and> start \<le> 55"
    "items b start = - 1 \<Longrightarrow> start - endp = - 16 \<Longrightarrow> 8 \<le> start \<and> start \<le> 15"
  using assms by (simp_all add: legal_shape_def Let_def const_defs)

lemma legal_shape_castle:
  assumes "legal_shape b pieceId start endp"
  shows "items b start = 6 \<Longrightarrow> start - endp = - 2 \<Longrightarrow>
           start = 60 \<and> endp = 62 \<and> items b 63 = 4 \<and> items b 61 = 0"
    "items b start = 6 \<Longrightarrow> start - endp = 2 \<Longrightarrow>
           start = 60 \<and> endp = 58 \<and> items b 56 = 4 \<and> items b 59 = 0"
    "items b start = - 6 \<Longrightarrow> start - endp = - 2 \<Longrightarrow>
           start = 4 \<and> endp = 6 \<and> items b 7 = - 4 \<and> items b 5 = 0"
    "items b start = - 6 \<Longrightarrow> start - endp = 2 \<Longrightarrow>
           start = 4 \<and> endp = 2 \<and> items b 0 = - 4 \<and> items b 3 = 0"
  using assms by (simp_all add: legal_shape_def Let_def const_defs)

lemma king_position_updates [simp]:
  "whiteKingIndex (updateWhiteKingPosition env i b) = i"
  "blackKingIndex (updateBlackKingPosition env i b) = i"
  "whiteKingIndex (updateKingPosition env c i b) = (if c = 1 then i else whiteKingIndex b)"
  "blackKingIndex (updateKingPosition env c i b) = (if c = 1 then blackKingIndex b else i)"
  by (simp_all add: updateWhiteKingPosition_def updateBlackKingPosition_def updateKingPosition_def
      WHITE_def)

lemma legal_shape_king_capture:
  assumes "legal_shape b pieceId start endp" "items b endp \<noteq> 0"
    "items b start = 6 \<or> items b start = - 6"
  shows "start - endp \<noteq> - 2" "start - endp \<noteq> 2"
  using assms by (auto simp: legal_shape_def Let_def const_defs)

lemma performMove_inv:
  assumes inv: "board_inv b" and leg: "legal_shape b pieceId start endp"
  shows "board_inv (fst (performMove env pieceId start endp b))"
proof -
  note d = legal_shapeD [OF leg]
  have len: "67 \<le> itemsLength b"
    using inv by (simp add: board_inv_def)
  note pid = legal_shape_pid [OF inv leg]
  note l4 = liftedPiece_inv [OF inv d(1,2), of env]
  note rules = board_inv_add_sign board_inv_add board_inv_removePiece
  from len d(1-5) show ?thesis
  proof (cases rule: performMove_cases [where env = env and pieceId = pieceId])
    case capture
    then show ?thesis
      using len d(1-6) pid l4 by (simp add: rules)
  next
    case king_capture
    then show ?thesis
      using len d(1-6) pid l4 by (simp add: rules)
  next
    case white_double
    then show ?thesis
      using len d(1-6) pid l4 by (simp add: rules)
  next
    case white_ep7
    then show ?thesis
      using len d(1-6) pid l4 legal_shape_ep(1) [OF leg] by (simp add: rules)
  next
    case white_ep9
    then show ?thesis
      using len d(1-6) pid l4 legal_shape_ep(2) [OF leg] by (simp add: rules)
  next
    case white_pawn
    then show ?thesis
      using len d(1-6) pid l4 by (simp add: rules)
  next
    case black_double
    then show ?thesis
      using len d(1-6) pid l4 by (simp add: rules)
  next
    case black_ep7
    then show ?thesis
      using len d(1-6) pid l4 legal_shape_ep(3) [OF leg] by (simp add: rules)
  next
    case black_ep9
    then show ?thesis
      using len d(1-6) pid l4 legal_shape_ep(4) [OF leg] by (simp add: rules)
  next
    case black_pawn
    then show ?thesis
      using len d(1-6) pid l4 by (simp add: rules)
  next
    case white_castle_king_side
    then show ?thesis
      using len d(1-6) pid l4 legal_shape_castle(1) [OF leg] by (simp add: rules)
  next
    case white_castle_queen_side
    then show ?thesis
      using len d(1-6) pid l4 legal_shape_castle(2) [OF leg] by (simp add: rules)
  next
    case white_king
    then show ?thesis
      using len d(1-6) pid l4 by (simp add: rules)
  next
    case black_castle_king_side
    then show ?thesis
      using len d(1-6) pid l4 legal_shape_castle(3) [OF leg] by (simp add: rules)
  next
    case black_castle_queen_side
    then show ?thesis
      using len d(1-6) pid l4 legal_shape_castle(4) [OF leg] by (simp add: rules)
  next
    case black_king
    then show ?thesis
      using len d(1-6) pid l4 by (simp add: rules)
  next
    case piece
    then show ?thesis
      using len d(1-6) pid l4 by (simp add: rules)
  qed
qed

lemma EN_PASSANT_BIT_value: "EN_PASSANT_BIT = - 2147483648"
  by (simp add: EN_PASSANT_BIT_def wrap32_def)

lemma undoMove_eqs:
  shows
    "removed = 0 \<Longrightarrow> piece \<noteq> 6 \<Longrightarrow> piece \<noteq> - 6 \<Longrightarrow>
      undoMove env piece start endp removed X =
        restoreState
          (addPieceWithoutIncrementalUpdate (sign piece) piece start
             (fst (removePieceWithoutIncrementalUpdate env endp (popPositionHistory X))))"
    "removed \<noteq> 0 \<Longrightarrow> removed \<noteq> EN_PASSANT_BIT \<Longrightarrow> piece \<noteq> 6 \<Longrightarrow> piece \<noteq> - 6 \<Longrightarrow>
      undoMove env piece start endp removed X =
        restoreState
          (addPieceWithoutIncrementalUpdate (- sign piece) (removed * - sign piece) endp
            (addPieceWithoutIncrementalUpdate (sign piece) piece start
             (fst (removePieceWithoutIncrementalUpdate env endp (popPositionHistory X)))))"
    "removed = EN_PASSANT_BIT \<Longrightarrow> \<bar>start - endp\<bar> = 7 \<Longrightarrow> piece \<noteq> 6 \<Longrightarrow> piece \<noteq> - 6 \<Longrightarrow>
      undoMove env piece start endp removed X =
        restoreState
          (addPieceWithoutIncrementalUpdate (- sign piece) (1 * - sign piece) (start + sign piece)
            (addPieceWithoutIncrementalUpdate (sign piece) piece start
             (fst (removePieceWithoutIncrementalUpdate env endp (popPositionHistory X)))))"
    "removed = EN_PASSANT_BIT \<Longrightarrow> \<bar>start - endp\<bar> = 9 \<Longrightarrow> piece \<noteq> 6 \<Longrightarrow> piece \<noteq> - 6 \<Longrightarrow>
      undoMove env piece start endp removed X =
        restoreState
          (addPieceWithoutIncrementalUpdate (- sign piece) (1 * - sign piece) (start - sign piece)
            (addPieceWithoutIncrementalUpdate (sign piece) piece start
             (fst (removePieceWithoutIncrementalUpdate env endp (popPositionHistory X)))))"
    "piece = 6 \<Longrightarrow> removed = 0 \<Longrightarrow> start - endp \<noteq> - 2 \<Longrightarrow> start - endp \<noteq> 2 \<Longrightarrow>
      undoMove env piece start endp removed X =
        restoreState
          (updateWhiteKingPosition env start
            (addPieceWithoutIncrementalUpdate (sign piece) piece start
             (fst (removePieceWithoutIncrementalUpdate env endp (popPositionHistory X)))))"
    "piece = 6 \<Longrightarrow> removed \<noteq> 0 \<Longrightarrow> removed \<noteq> EN_PASSANT_BIT \<Longrightarrow> start - endp \<noteq> - 2 \<Longrightarrow> start - endp \<noteq> 2 \<Longrightarrow>
      undoMove env piece start endp removed X =
        restoreState
          (updateWhiteKingPosition env start
            (addPieceWithoutIncrementalUpdate (- sign piece) (removed * - sign piece) endp
            (addPieceWithoutIncrementalUpdate (sign piece) piece start
             (fst (removePieceWithoutIncrementalUpdate env endp (popPositionHistory X))))))"
    "piece = 6 \<Longrightarrow> removed = 0 \<Longrightarrow> start - endp = - 2 \<Longrightarrow>
      undoMove env piece start endp removed X =
        restoreState
          (addPieceWithoutIncrementalUpdate (1) (4) 63
            (fst (removePieceWithoutIncrementalUpdate env 61
            (updateWhiteKingPosition env start
            (addPieceWithoutIncrementalUpdate (sign piece) piece start
             (fst (removePieceWithoutIncrementalUpdate env endp (popPositionHistory X))))))))"
    "piece = 6 \<Longrightarrow> removed = 0 \<Longrightarrow> start - endp = 2 \<Longrightarrow>
      undoMove env piece start endp removed X =
        restoreState
          (addPieceWithoutIncrementalUpdate (1) (4) 56
            (fst (removePieceWithoutIncrementalUpdate env 59
            (updateWhiteKingPosition env start
            (addPieceWithoutIncrementalUpdate (sign piece) piece start
             (fst (removePieceWithoutIncrementalUpdate env endp (popPositionHistory X))))))))"
    "piece = - 6 \<Longrightarrow> removed = 0 \<Longrightarrow> start - endp \<noteq> - 2 \<Longrightarrow> start - endp \<noteq> 2 \<Longrightarrow>
      undoMove env piece start endp removed X =
        restoreState
          (updateBlackKingPosition env start
            (addPieceWithoutIncrementalUpdate (sign piece) piece start
             (fst (removePieceWithoutIncrementalUpdate env endp (popPositionHistory X)))))"
    "piece = - 6 \<Longrightarrow> removed \<noteq> 0 \<Longrightarrow> removed \<noteq> EN_PASSANT_BIT \<Longrightarrow> start - endp \<noteq> - 2 \<Longrightarrow> start - endp \<noteq> 2 \<Longrightarrow>
      undoMove env piece start endp removed X =
        restoreState
          (updateBlackKingPosition env start
            (addPieceWithoutIncrementalUpdate (- sign piece) (removed * - sign piece) endp
            (addPieceWithoutIncrementalUpdate (sign piece) piece start
             (fst (removePieceWithoutIncrementalUpdate env endp (popPositionHistory X))))))"
    "piece = - 6 \<Longrightarrow> removed = 0 \<Longrightarrow> start - endp = - 2 \<Longrightarrow>
      undoMove env piece start endp removed X =
        restoreState
          (addPieceWithoutIncrementalUpdate (- 1) (- 4) 7
            (fst (removePieceWithoutIncrementalUpdate env 5
            (updateBlackKingPosition env start
            (addPieceWithoutIncrementalUpdate (sign piece) piece start
             (fst (removePieceWithoutIncrementalUpdate env endp (popPositionHistory X))))))))"
    "piece = - 6 \<Longrightarrow> removed = 0 \<Longrightarrow> start - endp = 2 \<Longrightarrow>
      undoMove env piece start endp removed X =
        restoreState
          (addPieceWithoutIncrementalUpdate (- 1) (- 4) 0
            (fst (removePieceWithoutIncrementalUpdate env 3
            (updateBlackKingPosition env start
            (addPieceWithoutIncrementalUpdate (sign piece) piece start
             (fst (removePieceWithoutIncrementalUpdate env endp (popPositionHistory X))))))))"
  unfolding undoMove_def Let_def
  by (simp_all add: const_defs EN_PASSANT_BIT_value)



lemma board_inv_addWithout_c:
  assumes "board_inv b" "0 \<le> pos" "pos \<le> 63" "items b pos = 0" "p \<noteq> 0" "- 6 \<le> p" "p \<le> 6"
    "sign p = c"
  shows "board_inv (addPieceWithoutIncrementalUpdate c p pos b)"
  using board_inv_addWithout [OF assms(1-7)] assms(8) by simp

lemma board_inv_range:
  assumes "board_inv b" "0 \<le> s" "s \<le> 63"
  shows "- 6 \<le> items b s" "items b s \<le> 6"
  using assms by (auto simp: board_inv_def)

lemma board_inv_len: "board_inv b \<Longrightarrow> 67 \<le> itemsLength b"
  by (simp add: board_inv_def)

lemma captured_piece:
  assumes "t \<noteq> 0" "sign t = - sign own"
  shows "\<bar>t\<bar> * - sign own = t" "- sign own = sign t"
  using assms by (auto simp: sign_def split: if_splits)

lemma kings_cachedD:
  assumes "kings_cached b" "0 \<le> s" "s \<le> 63"
  shows "items b s = 6 \<longleftrightarrow> s = whiteKingIndex b" "items b s = - 6 \<longleftrightarrow> s = blackKingIndex b"
  using assms by (auto simp: kings_cached_def KING_def)

lemma undo_perform_pieces:
  assumes inv: "board_inv b" and kc: "kings_cached b" and leg: "legal_shape b pieceId start endp"
    and invX: "board_inv X"
    and itX: "\<And>s. 0 \<le> s \<Longrightarrow> s \<le> 63 \<Longrightarrow>
                items X s = items (fst (performMove env pieceId start endp b)) s"
    and kX: "whiteKingIndex X = whiteKingIndex (fst (performMove env pieceId start endp b))"
            "blackKingIndex X = blackKingIndex (fst (performMove env pieceId start endp b))"
  defines "U \<equiv> undoMove env (items b start) start endp
                   (snd (performMove env pieceId start endp b)) X"
  shows "board_inv U \<and> (\<forall>s. 0 \<le> s \<and> s \<le> 63 \<longrightarrow> items U s = items b s)
         \<and> whiteKingIndex U = whiteKingIndex b \<and> blackKingIndex U = blackKingIndex b"
proof -
  note d = legal_shapeD [OF leg]
  note len = board_inv_len [OF inv]
  note lenX = board_inv_len [OF invX]
  note own = board_inv_range [OF inv d(1,2)]
  note tgt = board_inv_range [OF inv d(3,4)]
  note pid = legal_shape_pid [OF inv leg]
  note kw = kings_cachedD [OF kc d(1,2)]
  note rules = board_inv_addWithout_c board_inv_removeWithout
  note cp = captured_piece [of "items b endp" "items b start"]
  note base = d(1-6) own lenX invX len
  from len d(1-5) show ?thesis
  proof (cases rule: performMove_cases [where env = env and pieceId = pieceId])
    case capture
    note pe = capture(3)
    note itX' = itX [unfolded pe fst_conv] and kX' = kX [unfolded pe fst_conv]
    have nk: "items b start \<noteq> 6" "items b start \<noteq> - 6"
      using capture(2) d(9) by auto
    show ?thesis
      using capture(1,2) nk base kX' d(7) tgt cp
      unfolding U_def pe snd_conv
      by (simp add: undoMove_eqs(2) EN_PASSANT_BIT_value rules itX')
  next
    case king_capture
    note pe = king_capture(3)
    note itX' = itX [unfolded pe fst_conv] and kX' = kX [unfolded pe fst_conv]
    note kd = legal_shape_king_capture [OF leg king_capture(1)]
    have "items b start = 6 \<or> items b start = - 6"
      using king_capture(2) d(9) by auto
    then show ?thesis
    proof
      assume k: "items b start = 6"
      show ?thesis
        using king_capture(1,2) k base kX' d(7) tgt kw cp kd
        unfolding U_def pe snd_conv
        by (simp add: undoMove_eqs(6) EN_PASSANT_BIT_value rules itX')
    next
      assume k: "items b start = - 6"
      show ?thesis
        using king_capture(1,2) k base kX' d(7) tgt kw cp kd
        unfolding U_def pe snd_conv
        by (simp add: undoMove_eqs(10) EN_PASSANT_BIT_value rules itX')
    qed
  next
    case white_double
    note pe = white_double(4)
    note itX' = itX [unfolded pe fst_conv] and kX' = kX [unfolded pe fst_conv]
    show ?thesis
      using white_double(1-3) base kX'
      unfolding U_def pe snd_conv
      by (simp add: undoMove_eqs(1) EN_PASSANT_BIT_value rules itX')
  next
    case white_ep7
    note pe = white_ep7(4)
    note itX' = itX [unfolded pe fst_conv] and kX' = kX [unfolded pe fst_conv]
    show ?thesis
      using white_ep7(1-3) base kX' legal_shape_ep(1) [OF leg]
      unfolding U_def pe snd_conv
      by (simp add: undoMove_eqs(3) EN_PASSANT_BIT_value rules itX')
  next
    case white_ep9
    note pe = white_ep9(4)
    note itX' = itX [unfolded pe fst_conv] and kX' = kX [unfolded pe fst_conv]
    show ?thesis
      using white_ep9(1-3) base kX' legal_shape_ep(2) [OF leg]
      unfolding U_def pe snd_conv
      by (simp add: undoMove_eqs(4) EN_PASSANT_BIT_value rules itX')
  next
    case white_pawn
    note pe = white_pawn(6)
    note itX' = itX [unfolded pe fst_conv] and kX' = kX [unfolded pe fst_conv]
    show ?thesis
      using white_pawn(1-5) base kX'
      unfolding U_def pe snd_conv
      by (simp add: undoMove_eqs(1) EN_PASSANT_BIT_value rules itX')
  next
    case black_double
    note pe = black_double(4)
    note itX' = itX [unfolded pe fst_conv] and kX' = kX [unfolded pe fst_conv]
    show ?thesis
      using black_double(1-3) base kX'
      unfolding U_def pe snd_conv
      by (simp add: undoMove_eqs(1) EN_PASSANT_BIT_value rules itX')
  next
    case black_ep7
    note pe = black_ep7(4)
    note itX' = itX [unfolded pe fst_conv] and kX' = kX [unfolded pe fst_conv]
    show ?thesis
      using black_ep7(1-3) base kX' legal_shape_ep(3) [OF leg]
      unfolding U_def pe snd_conv
      by (simp add: undoMove_eqs(3) EN_PASSANT_BIT_value rules itX')
  next
    case black_ep9
    note pe = black_ep9(4)
    note itX' = itX [unfolded pe fst_conv] and kX' = kX [unfolded pe fst_conv]
    show ?thesis
      using black_ep9(1-3) base kX' legal_shape_ep(4) [OF leg]
      unfolding U_def pe snd_conv
      by (simp add: undoMove_eqs(4) EN_PASSANT_BIT_value rules itX')
  next
    case black_pawn
    note pe = black_pawn(6)
    note itX' = itX [unfolded pe fst_conv] and kX' = kX [unfolded pe fst_conv]
    show ?thesis
      using black_pawn(1-5) base kX'
      unfolding U_def pe snd_conv
      by (simp add: undoMove_eqs(1) EN_PASSANT_BIT_value rules itX')
  next
    case white_castle_king_side
    note pe = white_castle_king_side(4)
    note itX' = itX [unfolded pe fst_conv] and kX' = kX [unfolded pe fst_conv]
    show ?thesis
      using white_castle_king_side(1-3) base kX' legal_shape_castle(1) [OF leg] kw
      unfolding U_def pe snd_conv
      by (simp add: undoMove_eqs(7) EN_PASSANT_BIT_value rules itX')
  next
    case white_castle_queen_side
    note pe = white_castle_queen_side(4)
    note itX' = itX [unfolded pe fst_conv] and kX' = kX [unfolded pe fst_conv]
    show ?thesis
      using white_castle_queen_side(1-3) base kX' legal_shape_castle(2) [OF leg] kw
      unfolding U_def pe snd_conv
      by (simp add: undoMove_eqs(8) EN_PASSANT_BIT_value rules itX')
  next
    case white_king
    note pe = white_king(5)
    note itX' = itX [unfolded pe fst_conv] and kX' = kX [unfolded pe fst_conv]
    show ?thesis
      using white_king(1-4) base kX' kw
      unfolding U_def pe snd_conv
      by (simp add: undoMove_eqs(5) EN_PASSANT_BIT_value rules itX')
  next
    case black_castle_king_side
    note pe = black_castle_king_side(4)
    note itX' = itX [unfolded pe fst_conv] and kX' = kX [unfolded pe fst_conv]
    show ?thesis
      using black_castle_king_side(1-3) base kX' legal_shape_castle(3) [OF leg] kw
      unfolding U_def pe snd_conv
      by (simp add: undoMove_eqs(11) EN_PASSANT_BIT_value rules itX')
  next
    case black_castle_queen_side
    note pe = black_castle_queen_side(4)
    note itX' = itX [unfolded pe fst_conv] and kX' = kX [unfolded pe fst_conv]
    show ?thesis
      using black_castle_queen_side(1-3) base kX' legal_shape_castle(4) [OF leg] kw
      unfolding U_def pe snd_conv
      by (simp add: undoMove_eqs(12) EN_PASSANT_BIT_value rules itX')
  next
    case black_king
    note pe = black_king(5)
    note itX' = itX [unfolded pe fst_conv] and kX' = kX [unfolded pe fst_conv]
    show ?thesis
      using black_king(1-4) base kX' kw
      unfolding U_def pe snd_conv
      by (simp add: undoMove_eqs(9) EN_PASSANT_BIT_value rules itX')
  next
    case piece
    note pe = piece(6)
    note itX' = itX [unfolded pe fst_conv] and kX' = kX [unfolded pe fst_conv]
    show ?thesis
      using piece(1-5) base kX'
      unfolding U_def pe snd_conv
      by (simp add: undoMove_eqs(1) EN_PASSANT_BIT_value rules itX')
  qed
qed

subsection \<open>The squares as a function, and the cached king squares\<close>

lemma mailbox_state_ops [simp]:
  "64 < itemsLength b \<Longrightarrow> mailbox (setStateBit m b) = mailbox b"
  "64 < itemsLength b \<Longrightarrow> mailbox (clearStateBit m b) = mailbox b"
  "64 < itemsLength b \<Longrightarrow> mailbox (updateHashForCastling env p b) = mailbox b"
  "64 < itemsLength b \<Longrightarrow> mailbox (updateHashForEnPassent env p b) = mailbox b"
  "64 < itemsLength b \<Longrightarrow> mailbox (setEnPassantPossible env i b) = mailbox b"
  "64 < itemsLength b \<Longrightarrow> mailbox (clearEnPassentPossible env b) = mailbox b"
  "64 < itemsLength b \<Longrightarrow> mailbox (resetHalfMoveClock b) = mailbox b"
  "64 < itemsLength b \<Longrightarrow> mailbox (setWhiteKingMoved env b) = mailbox b"
  "64 < itemsLength b \<Longrightarrow> mailbox (setBlackKingMoved env b) = mailbox b"
  "64 < itemsLength b \<Longrightarrow> mailbox (setWhiteQueenSideRookMoved env b) = mailbox b"
  "64 < itemsLength b \<Longrightarrow> mailbox (setWhiteKingSideRookMoved env b) = mailbox b"
  "64 < itemsLength b \<Longrightarrow> mailbox (setBlackQueenSideRookMoved env b) = mailbox b"
  "64 < itemsLength b \<Longrightarrow> mailbox (setBlackKingSideRookMoved env b) = mailbox b"
  "64 < itemsLength b \<Longrightarrow> mailbox (addPieceScore env pos piece b) = mailbox b"
  "64 < itemsLength b \<Longrightarrow> mailbox (subtractPieceScore env pos piece b) = mailbox b"
  "64 < itemsLength b \<Longrightarrow> mailbox (increaseHalfMoveCount env b) = mailbox b"
  "64 < itemsLength b \<Longrightarrow> mailbox (updateWhiteKingPosition env i b) = mailbox b"
  "64 < itemsLength b \<Longrightarrow> mailbox (updateBlackKingPosition env i b) = mailbox b"
  "64 < itemsLength b \<Longrightarrow> mailbox (updateKingPosition env c i b) = mailbox b"
  "64 < itemsLength b \<Longrightarrow> mailbox (pushPositionHistory b) = mailbox b"
  "64 < itemsLength b \<Longrightarrow> mailbox (popPositionHistory b) = mailbox b"
  "64 < itemsLength b \<Longrightarrow> mailbox (storeState b) = mailbox b"
  "64 < itemsLength b \<Longrightarrow> mailbox (restoreState b) = mailbox b"
  by (simp_all add: mailbox_def fun_eq_iff)

lemma mailbox_pieces [simp]:
  "mailbox (addPiece env c pid pos b) =
     (if 0 \<le> pos \<and> pos \<le> 63 then (mailbox b)(pos := pid * c) else mailbox b)"
  "mailbox (addPieceWithoutIncrementalUpdate c p pos b) =
     (if 0 \<le> pos \<and> pos \<le> 63 then (mailbox b)(pos := p) else mailbox b)"
  "64 < itemsLength b \<Longrightarrow> mailbox (fst (removePiece env pos b)) =
     (if 0 \<le> pos \<and> pos \<le> 63 then (mailbox b)(pos := 0) else mailbox b)"
  "64 < itemsLength b \<Longrightarrow> mailbox (fst (removePieceWithoutIncrementalUpdate env pos b)) =
     (if 0 \<le> pos \<and> pos \<le> 63 then (mailbox b)(pos := 0) else mailbox b)"
  "64 < itemsLength b \<Longrightarrow> mailbox (liftedPiece env pos b) =
     (if 0 \<le> pos \<and> pos \<le> 63 then (mailbox b)(pos := 0) else mailbox b)"
  by (auto simp: mailbox_def fun_eq_iff)

lemma mailbox_items: "0 \<le> s \<Longrightarrow> s \<le> 63 \<Longrightarrow> mailbox b s = items b s"
  by (simp add: mailbox_def)

lemma mailbox_eqD: "mailbox X = mailbox Y \<Longrightarrow> 0 \<le> s \<Longrightarrow> s \<le> 63 \<Longrightarrow> items X s = items Y s"
  by (metis mailbox_items)

lemma mailbox_eqI:
  assumes "\<And>s. 0 \<le> s \<Longrightarrow> s \<le> 63 \<Longrightarrow> items X s = items Y s"
  shows "mailbox X = mailbox Y"
  using assms by (auto simp: mailbox_def fun_eq_iff)


lemma kings_cached_kingsOK:
  "kings_cached b \<longleftrightarrow> kingsOK (mailbox b) (whiteKingIndex b) (blackKingIndex b)"
  by (simp add: kings_cached_def kingsOK_def mailbox_def KING_def)

lemma kingsOK_upd:
  assumes "kingsOK m wk bk" "s \<noteq> wk" "s \<noteq> bk" "v \<noteq> 6" "v \<noteq> - 6"
  shows "kingsOK (m(s := v)) wk bk"
  using assms by (auto simp: kingsOK_def)

lemma kingsOK_move_white:
  assumes "kingsOK m wk bk" "0 \<le> s" "s \<le> 63" "m s = 6" "0 \<le> e" "e \<le> 63" "e \<noteq> bk"
  shows "kingsOK (m(s := 0, e := 6)) e bk"
  using assms by (auto simp: kingsOK_def)

lemma kingsOK_move_black:
  assumes "kingsOK m wk bk" "0 \<le> s" "s \<le> 63" "m s = - 6" "0 \<le> e" "e \<le> 63" "e \<noteq> wk"
  shows "kingsOK (m(s := 0, e := - 6)) wk e"
  using assms by (auto simp: kingsOK_def)

lemma kingsOK_at:
  assumes "kingsOK m wk bk" "0 \<le> s" "s \<le> 63"
  shows "s = wk \<longleftrightarrow> m s = 6" "s = bk \<longleftrightarrow> m s = - 6"
  using assms by (auto simp: kingsOK_def)

lemma pid_times_sign:
  assumes "own \<noteq> 0" "1 \<le> pid"
  shows "pid * sign own = 6 \<longleftrightarrow> pid = 6 \<and> 0 < own" "pid * sign own = - 6 \<longleftrightarrow> pid = 6 \<and> own < 0"
  using assms by (auto simp: sign_def)

lemma performMove_kings:
  assumes inv: "board_inv b" and kc: "kings_cached b" and leg: "legal_shape b pieceId start endp"
  shows "kings_cached (fst (performMove env pieceId start endp b))"
proof -
  note d = legal_shapeD [OF leg]
  note len = board_inv_len [OF inv]
  note pid = legal_shape_pid [OF inv leg]
  note k = kc [unfolded kings_cached_kingsOK]
  note ps = pid_times_sign [OF d(6) pid(1)]
  note mi = mailbox_items [of _ b]
  note at = kingsOK_at [OF k, unfolded mi]
  note rules = kingsOK_upd kingsOK_move_white kingsOK_move_black
  have tk: "items b endp \<noteq> 6" "items b endp \<noteq> - 6"
    using d(8) by auto
  have p6: "pieceId \<noteq> 6 \<Longrightarrow> items b start \<noteq> 6 \<and> items b start \<noteq> - 6"
    using d(9) by auto
  have p6': "items b start \<noteq> 6 \<Longrightarrow> items b start \<noteq> - 6 \<Longrightarrow> pieceId \<noteq> 6"
    using d(9) by auto
  have p6k: "items b start = 6 \<Longrightarrow> pieceId = 6" "items b start = - 6 \<Longrightarrow> pieceId = 6"
    using d(9) by auto
  note facts = d(1-6) len k ps tk
  from len d(1-5) show ?thesis
  proof (cases rule: performMove_cases [where env = env and pieceId = pieceId])
    case capture
    show ?thesis
      unfolding capture(3) fst_conv kings_cached_kingsOK
      using capture(1-2) facts p6
      by (simp add: rules at mailbox_items)
  next
    case king_capture
    have "items b start = 6 \<or> items b start = - 6"
      using king_capture(2) d(9) by auto
    then show ?thesis
    proof
      assume o: "items b start = 6"
      show ?thesis
        unfolding king_capture(3) fst_conv kings_cached_kingsOK
        using king_capture(1-2) o facts
        by (simp add: rules at mailbox_items)
    next
      assume o: "items b start = - 6"
      show ?thesis
        unfolding king_capture(3) fst_conv kings_cached_kingsOK
        using king_capture(1-2) o facts
        by (simp add: rules at mailbox_items)
    qed
  next
    case white_double
    show ?thesis
      unfolding white_double(4) fst_conv kings_cached_kingsOK
      using white_double(1-3) facts p6'
      by (simp add: rules at mailbox_items)
  next
    case white_ep7
    show ?thesis
      unfolding white_ep7(4) fst_conv kings_cached_kingsOK
      using white_ep7(1-3) facts legal_shape_ep(1) [OF leg] p6'
      by (simp add: rules at mailbox_items)
  next
    case white_ep9
    show ?thesis
      unfolding white_ep9(4) fst_conv kings_cached_kingsOK
      using white_ep9(1-3) facts legal_shape_ep(2) [OF leg] p6'
      by (simp add: rules at mailbox_items)
  next
    case white_pawn
    show ?thesis
      unfolding white_pawn(6) fst_conv kings_cached_kingsOK
      using white_pawn(1-5) facts p6'
      by (simp add: rules at mailbox_items)
  next
    case black_double
    show ?thesis
      unfolding black_double(4) fst_conv kings_cached_kingsOK
      using black_double(1-3) facts p6'
      by (simp add: rules at mailbox_items)
  next
    case black_ep7
    show ?thesis
      unfolding black_ep7(4) fst_conv kings_cached_kingsOK
      using black_ep7(1-3) facts legal_shape_ep(3) [OF leg] p6'
      by (simp add: rules at mailbox_items)
  next
    case black_ep9
    show ?thesis
      unfolding black_ep9(4) fst_conv kings_cached_kingsOK
      using black_ep9(1-3) facts legal_shape_ep(4) [OF leg] p6'
      by (simp add: rules at mailbox_items)
  next
    case black_pawn
    show ?thesis
      unfolding black_pawn(6) fst_conv kings_cached_kingsOK
      using black_pawn(1-5) facts p6'
      by (simp add: rules at mailbox_items)
  next
    case white_castle_king_side
    show ?thesis
      unfolding white_castle_king_side(4) fst_conv kings_cached_kingsOK
      using white_castle_king_side(1-3) facts legal_shape_castle(1) [OF leg] p6k
      by (simp add: rules at mailbox_items)
  next
    case white_castle_queen_side
    show ?thesis
      unfolding white_castle_queen_side(4) fst_conv kings_cached_kingsOK
      using white_castle_queen_side(1-3) facts legal_shape_castle(2) [OF leg] p6k
      by (simp add: rules at mailbox_items)
  next
    case white_king
    show ?thesis
      unfolding white_king(5) fst_conv kings_cached_kingsOK
      using white_king(1-4) facts p6k
      by (simp add: rules at mailbox_items)
  next
    case black_castle_king_side
    show ?thesis
      unfolding black_castle_king_side(4) fst_conv kings_cached_kingsOK
      using black_castle_king_side(1-3) facts legal_shape_castle(3) [OF leg] p6k
      by (simp add: rules at mailbox_items)
  next
    case black_castle_queen_side
    show ?thesis
      unfolding black_castle_queen_side(4) fst_conv kings_cached_kingsOK
      using black_castle_queen_side(1-3) facts legal_shape_castle(4) [OF leg] p6k
      by (simp add: rules at mailbox_items)
  next
    case black_king
    show ?thesis
      unfolding black_king(5) fst_conv kings_cached_kingsOK
      using black_king(1-4) facts p6k
      by (simp add: rules at mailbox_items)
  next
    case piece
    show ?thesis
      unfolding piece(6) fst_conv kings_cached_kingsOK
      using piece(1-5) facts p6'
      by (simp add: rules at mailbox_items)
  qed
qed

subsection \<open>History frames\<close>

lemma mask16_u32: "(0xFFFF :: u32) = mask 16"
  by (simp add: mask_eq_exp_minus_1)

lemma unpack_pack [simp]:
  "unpackFirstScore (packScores a b) = a" "unpackSecondScore (packScores a b) = b"
  unfolding unpackFirstScore_def unpackSecondScore_def packScores_def mask16_u32
  by (rule bit_word_eqI; simp add: bit_simps; fastforce dest: bit_imp_le_length)+

lemma performMove_frame [simp]:
  "itemsLength (fst (performMove env pieceId start endp b)) = itemsLength b"
  "historyCounter (fst (performMove env pieceId start endp b)) = historyCounter b + 1"
  "halfMoveCount (fst (performMove env pieceId start endp b)) = halfMoveCount b + 1"
  "endgame (fst (performMove env pieceId start endp b)) = endgame b"
  "stateHistory (fst (performMove env pieceId start endp b)) =
     (stateHistory b)(historyCounter b := items b STATE_INDEX)"
  "hashCodeHistory (fst (performMove env pieceId start endp b)) =
     (hashCodeHistory b)(historyCounter b := hashCode b)"
  "scoreHistory (fst (performMove env pieceId start endp b)) =
     (scoreHistory b)(historyCounter b := packScores (score b) (egScore b))"
  "halfMoveClockHistory (fst (performMove env pieceId start endp b)) =
     (halfMoveClockHistory b)(historyCounter b := halfMoveClock b)"
  "butlast (positionHistory (fst (performMove env pieceId start endp b))) = positionHistory b"
  unfolding performMove_def Let_def split_beta liftedPiece_def [symmetric]
  by (simp_all add: pushPositionHistory_def)

lemma restoreState_eff [simp]:
  "historyCounter (restoreState b) = historyCounter b - 1"
  "halfMoveCount (restoreState b) = halfMoveCount b - 1"
  "hashCode (restoreState b) = hashCodeHistory b (historyCounter b - 1)"
  "halfMoveClock (restoreState b) = halfMoveClockHistory b (historyCounter b - 1)"
  "score (restoreState b) = unpackFirstScore (scoreHistory b (historyCounter b - 1))"
  "egScore (restoreState b) = unpackSecondScore (scoreHistory b (historyCounter b - 1))"
  "itemsLength b = 67 \<Longrightarrow> getState (restoreState b) = stateHistory b (historyCounter b - 1)"
  by (simp_all add: restoreState_def Let_def getState_def STATE_INDEX_def)

lemma undoMove_frame [simp]:
  "itemsLength (undoMove env piece start endp removed X) = itemsLength X"
  "historyCounter (undoMove env piece start endp removed X) = historyCounter X - 1"
  "halfMoveCount (undoMove env piece start endp removed X) = halfMoveCount X - 1"
  "endgame (undoMove env piece start endp removed X) = endgame X"
  "stateHistory (undoMove env piece start endp removed X) = stateHistory X"
  "hashCodeHistory (undoMove env piece start endp removed X) = hashCodeHistory X"
  "scoreHistory (undoMove env piece start endp removed X) = scoreHistory X"
  "halfMoveClockHistory (undoMove env piece start endp removed X) = halfMoveClockHistory X"
  "positionHistory (undoMove env piece start endp removed X) = butlast (positionHistory X)"
  "hashCode (undoMove env piece start endp removed X) = hashCodeHistory X (historyCounter X - 1)"
  "halfMoveClock (undoMove env piece start endp removed X) =
     halfMoveClockHistory X (historyCounter X - 1)"
  "score (undoMove env piece start endp removed X) =
     unpackFirstScore (scoreHistory X (historyCounter X - 1))"
  "egScore (undoMove env piece start endp removed X) =
     unpackSecondScore (scoreHistory X (historyCounter X - 1))"
  "itemsLength X = 67 \<Longrightarrow>
     getState (undoMove env piece start endp removed X) = stateHistory X (historyCounter X - 1)"
  unfolding undoMove_def Let_def
  by (simp_all add: popPositionHistory_def)

subsection \<open>Undoing a sequence of moves\<close>

lemma same_position_refl: "same_position n b b"
  by (simp add: same_position_def)

lemma board_inv_bitboards:
  assumes X: "board_inv X" and b: "board_inv b" and m: "mailbox X = mailbox b"
  shows "p \<in> {- 6..6} \<Longrightarrow> p \<noteq> 0 \<Longrightarrow> getBitBoard X p = getBitBoard b p"
    and "c \<in> {- 1, 1} \<Longrightarrow> getAllPieceBitBoard X c = getAllPieceBitBoard b c"
proof -
  have it: "items X (int n) = items b (int n)" if "n < 64" for n
    using mailbox_eqD [OF m, of "int n"] that by simp
  show "getBitBoard X p = getBitBoard b p" if p: "p \<in> {- 6..6}" "p \<noteq> 0"
    unfolding getBitBoard_def
  proof (rule bit_word_eqI)
    fix n assume "n < LENGTH(64)"
    then have n: "int n \<in> {0..63}" "n < 64" by simp_all
    have "bit (bitBoardPieces X (p + 6)) (nat (int n)) \<longleftrightarrow> items X (int n) = p"
      using X n(1) p unfolding board_inv_def by blast
    moreover have "bit (bitBoardPieces b (p + 6)) (nat (int n)) \<longleftrightarrow> items b (int n) = p"
      using b n(1) p unfolding board_inv_def by blast
    ultimately show "bit (bitBoardPieces X (p + 6)) n = bit (bitBoardPieces b (p + 6)) n"
      using it [OF n(2)] by simp
  qed
  show "getAllPieceBitBoard X c = getAllPieceBitBoard b c" if c: "c \<in> {- 1, 1}"
    unfolding getAllPieceBitBoard_def
  proof (rule bit_word_eqI)
    fix n assume "n < LENGTH(64)"
    then have n: "int n \<in> {0..63}" "n < 64" by simp_all
    have "bit (bitBoardAllPieces X (c + 1)) (nat (int n)) \<longleftrightarrow> sign (items X (int n)) = c"
      using X n(1) c unfolding board_inv_def by blast
    moreover have "bit (bitBoardAllPieces b (c + 1)) (nat (int n)) \<longleftrightarrow> sign (items b (int n)) = c"
      using b n(1) c unfolding board_inv_def by blast
    ultimately show "bit (bitBoardAllPieces X (c + 1)) n = bit (bitBoardAllPieces b (c + 1)) n"
      using it [OF n(2)] by simp
  qed
qed

lemma undo_step:
  assumes inv: "board_inv b" and kc: "kings_cached b" and leg: "legal_shape b pieceId start endp"
    and len: "itemsLength b = 67"
    and invX: "board_inv X"
    and sp: "same_position (historyCounter b + 1) (fst (performMove env pieceId start endp b)) X"
  defines "U \<equiv> undoMove env (items b start) start endp (snd (performMove env pieceId start endp b)) X"
  shows "board_inv U \<and> same_position (historyCounter b) b U"
proof -
  let ?P = "fst (performMove env pieceId start endp b)"
  note s = sp [unfolded same_position_def]
  have itX: "\<And>s. 0 \<le> s \<Longrightarrow> s \<le> 63 \<Longrightarrow> items X s = items ?P s"
    using s by (metis mailbox_eqD)
  have kX: "whiteKingIndex X = whiteKingIndex ?P" "blackKingIndex X = blackKingIndex ?P"
    using s by simp_all
  note pc = undo_perform_pieces [OF inv kc leg invX itX kX, folded U_def]
  have mb: "mailbox U = mailbox b"
    by (rule mailbox_eqI) (use pc in simp)
  have hc: "historyCounter X = historyCounter b + 1"
    using s by simp
  have fr: "stateHistory X (historyCounter b) = getState b"
    "hashCodeHistory X (historyCounter b) = hashCode b"
    "scoreHistory X (historyCounter b) = packScores (score b) (egScore b)"
    "halfMoveClockHistory X (historyCounter b) = halfMoveClock b"
    using s len by (simp_all add: getState_def STATE_INDEX_def)
  have old: "stateHistory X i = stateHistory b i" "hashCodeHistory X i = hashCodeHistory b i"
    "scoreHistory X i = scoreHistory b i" "halfMoveClockHistory X i = halfMoveClockHistory b i"
    if "i < historyCounter b" for i
    using s that by simp_all
  have rest: "itemsLength X = 67" "halfMoveCount X = halfMoveCount b + 1"
    "endgame X = endgame b" "butlast (positionHistory X) = positionHistory b"
    using s len by simp_all
  have "same_position (historyCounter b) b U"
    unfolding same_position_def U_def
    using mb [unfolded U_def] pc [unfolded U_def] hc fr old rest len by simp
  then show ?thesis using pc unfolding U_def by simp
qed

lemma roundTrip_same:
  "board_inv b \<Longrightarrow> kings_cached b \<Longrightarrow> itemsLength b = 67 \<Longrightarrow> legal_seq env b ms \<Longrightarrow>
   board_inv (roundTrip env b ms) \<and> same_position (historyCounter b) b (roundTrip env b ms)"
proof (induction ms arbitrary: b)
  case Nil
  then show ?case by (simp add: same_position_refl)
next
  case (Cons m ms)
  obtain pieceId start endp where m: "m = (pieceId, start, endp)"
    by (cases m) auto
  let ?P = "fst (performMove env pieceId start endp b)"
  from Cons.prems have leg: "legal_shape b pieceId start endp" and ls: "legal_seq env ?P ms"
    by (simp_all add: m)
  have lenP: "itemsLength ?P = 67" using Cons.prems(3) by simp
  have invP: "board_inv ?P" by (rule performMove_inv [OF Cons.prems(1) leg])
  have kcP: "kings_cached ?P" by (rule performMove_kings [OF Cons.prems(1,2) leg])
  from Cons.IH [OF invP kcP lenP ls]
  have ih: "board_inv (roundTrip env ?P ms)"
    "same_position (historyCounter b + 1) ?P (roundTrip env ?P ms)"
    by simp_all
  show ?case
    using undo_step [OF Cons.prems(1,2) leg Cons.prems(3) ih] by (simp add: m)
qed


subsection \<open>The constructor\<close>

lemma findIndexFrom_none: "0 \<le> i \<Longrightarrow> findIndexFrom p i xs = - 1 \<longleftrightarrow> (\<forall>x\<in>set xs. \<not> p x)"
  by (induction xs arbitrary: i) auto

lemma findIndexFrom_first:
  "0 \<le> i \<Longrightarrow> \<exists>x\<in>set xs. p x \<Longrightarrow>
   i \<le> findIndexFrom p i xs \<and> findIndexFrom p i xs < i + int (length xs)
   \<and> p (xs ! nat (findIndexFrom p i xs - i))
   \<and> (\<forall>j. j < nat (findIndexFrom p i xs - i) \<longrightarrow> \<not> p (xs ! j))"
proof (induction xs arbitrary: i)
  case Nil
  then show ?case by simp
next
  case (Cons x xs)
  show ?case
  proof (cases "p x")
    case True
    then show ?thesis by simp
  next
    case False
    with Cons.prems have ex: "\<exists>x\<in>set xs. p x" by simp
    from Cons.prems have i1: "0 \<le> i + 1" by simp
    note ih = Cons.IH [OF i1 ex]
    let ?r = "findIndexFrom p (i + 1) xs"
    have n: "nat (?r - i) = Suc (nat (?r - (i + 1)))"
      using ih by linarith
    have "\<not> p ((x # xs) ! j)" if "j < nat (?r - i)" for j
      using that ih False unfolding n by (cases j) auto
    then show ?thesis
      using False ih n by auto
  qed
qed

lemma findIndex_none: "findIndex p xs = - 1 \<longleftrightarrow> (\<forall>x\<in>set xs. \<not> p x)"
  by (simp add: findIndex_def findIndexFrom_none)

lemma findIndex_first:
  assumes "\<exists>x\<in>set xs. p x"
  shows "0 \<le> findIndex p xs" "findIndex p xs < int (length xs)"
    "p (xs ! nat (findIndex p xs))" "\<And>j. j < nat (findIndex p xs) \<Longrightarrow> \<not> p (xs ! j)"
  using findIndexFrom_first [of 0 xs p] assms by (simp_all add: findIndex_def)

lemma findIndex_le:
  assumes "k < length xs" "p (xs ! k)"
  shows "findIndex p xs \<le> int k"
proof -
  have ex: "\<exists>x\<in>set xs. p x" using assms by auto
  show ?thesis
    using findIndex_first(1) [OF ex] findIndex_first(4) [OF ex, of k] assms(2) by linarith
qed

lemma board_inv_initialFields: "67 \<le> len \<Longrightarrow> board_inv (initialFields len wk bk)"
  by (simp add: board_inv_def initialFields_def sign_simps)

lemma constructorLoop_inv:
  assumes len: "67 \<le> len" and rng: "\<And>i. i < 64 \<Longrightarrow> - 6 \<le> xs ! i \<and> xs ! i \<le> 6"
  shows "n \<le> 64 \<Longrightarrow>
     board_inv (constructorLoop env xs n (initialFields len wk bk))
   \<and> itemsLength (constructorLoop env xs n (initialFields len wk bk)) = len
   \<and> whiteKingIndex (constructorLoop env xs n (initialFields len wk bk)) = wk
   \<and> blackKingIndex (constructorLoop env xs n (initialFields len wk bk)) = bk
   \<and> historyCounter (constructorLoop env xs n (initialFields len wk bk)) = 0
   \<and> (\<forall>s. 0 \<le> s \<and> s < int n \<longrightarrow> items (constructorLoop env xs n (initialFields len wk bk)) s = xs ! nat s)
   \<and> (\<forall>s. int n \<le> s \<longrightarrow> items (constructorLoop env xs n (initialFields len wk bk)) s = 0)"
proof (induction n)
  case 0
  then show ?case
    using board_inv_initialFields [OF len] by (simp add: initialFields_def)
next
  case (Suc n)
  let ?b = "constructorLoop env xs n (initialFields len wk bk)"
  from Suc have ih: "board_inv ?b" "itemsLength ?b = len" "whiteKingIndex ?b = wk"
    "blackKingIndex ?b = bk" "historyCounter ?b = 0"
    "\<And>s. 0 \<le> s \<Longrightarrow> s < int n \<Longrightarrow> items ?b s = xs ! nat s"
    "\<And>s. int n \<le> s \<Longrightarrow> items ?b s = 0"
    by simp_all
  from Suc.prems have n: "n < 64" by simp
  note r = rng [OF n]
  show ?case
  proof (cases "xs ! n = 0")
    case True
    have "(items ?b)(int n := 0) = items ?b"
      using ih(7) [of "int n"] by (simp add: fun_upd_idem)
    then have same: "?b\<lparr>items := (items ?b)(int n := 0)\<rparr> = ?b"
      by simp
    have lo: "items ?b s = xs ! nat s" if "0 \<le> s" "s < int (Suc n)" for s
    proof (cases "s = int n")
      case True
      then show ?thesis using ih(7) [of s] \<open>xs ! n = 0\<close> by simp
    next
      case False
      then show ?thesis using ih(6) [of s] that by simp
    qed
    have hi: "items ?b s = 0" if "int (Suc n) \<le> s" for s
      using ih(7) [of s] that by simp
    have st: "constructorLoop env xs (Suc n) (initialFields len wk bk) = ?b"
      using True same by (simp add: constructorStep_def EMPTY_def Let_def)
    show ?thesis
      unfolding st using ih(1-5) lo hi by blast
  next
    case False
    have c: "sign (xs ! n) = 1 \<or> sign (xs ! n) = - 1"
      using False by (simp add: sign_def)
    have a: "1 \<le> \<bar>xs ! n\<bar>" "\<bar>xs ! n\<bar> \<le> 6"
      using False r by linarith+
    have pc: "\<bar>xs ! n\<bar> * sign (xs ! n) = xs ! n"
      by (simp add: sign_def)
    have inv: "board_inv (addPiece env (sign (xs ! n)) \<bar>xs ! n\<bar> (int n) ?b)"
      by (rule board_inv_add [OF ih(1) _ _ _ c a]) (use n ih(7) in simp_all)
    have st: "constructorLoop env xs (Suc n) (initialFields len wk bk)
        = addPiece env (sign (xs ! n)) \<bar>xs ! n\<bar> (int n) ?b"
      using False by (simp add: constructorStep_def EMPTY_def Let_def)
    let ?a = "addPiece env (sign (xs ! n)) \<bar>xs ! n\<bar> (int n) ?b"
    have lo: "items ?a s = xs ! nat s" if "0 \<le> s" "s < int (Suc n)" for s
    proof (cases "s = int n")
      case True
      then show ?thesis using pc by simp
    next
      case False
      then show ?thesis using ih(6) [of s] that by simp
    qed
    have hi: "items ?a s = 0" if "int (Suc n) \<le> s" for s
      using ih(7) [of s] that by simp
    have fr: "itemsLength ?a = len" "whiteKingIndex ?a = wk" "blackKingIndex ?a = bk"
      "historyCounter ?a = 0"
      using ih(2-5) by simp_all
    show ?thesis
      unfolding st using inv fr lo hi by blast
  qed
qed

lemma board_inv_squares_cong:
  assumes "itemsLength b' = itemsLength b"
    and "bitBoardPieces b' = bitBoardPieces b"
    and "bitBoardAllPieces b' = bitBoardAllPieces b"
    and "\<And>s. s \<in> {0..63} \<Longrightarrow> items b' s = items b s"
  shows "board_inv b' = board_inv b"
  using assms by (simp add: board_inv_def)

lemma updateEndGameStatus_frame [simp]:
  "items (updateEndGameStatus b) = items b"
  "itemsLength (updateEndGameStatus b) = itemsLength b"
  "bitBoardPieces (updateEndGameStatus b) = bitBoardPieces b"
  "bitBoardAllPieces (updateEndGameStatus b) = bitBoardAllPieces b"
  "whiteKingIndex (updateEndGameStatus b) = whiteKingIndex b"
  "blackKingIndex (updateEndGameStatus b) = blackKingIndex b"
  "historyCounter (updateEndGameStatus b) = historyCounter b"
  "halfMoveClock (updateEndGameStatus b) = halfMoveClock b"
  "halfMoveCount (updateEndGameStatus b) = halfMoveCount b"
  by (simp_all add: updateEndGameStatus_def Let_def)

lemma piece_codes_found:
  "find (\<lambda>piece. piece < - 6 \<or> 6 < piece) ys = None \<longleftrightarrow> (\<forall>p\<in>set ys. - 6 \<le> p \<and> p \<le> (6 :: int))"
  by (induction ys) auto

lemma constructor_Inr:
  "(\<exists>b. constructor env xs = Inr b) \<longleftrightarrow>
     67 \<le> length xs \<and> 6 \<in> set xs \<and> - 6 \<in> set xs \<and> (\<forall>p\<in>set (take 64 xs). - 6 \<le> p \<and> p \<le> 6)"
proof (cases "find (\<lambda>piece. piece < - 6 \<or> 6 < piece) (take 64 xs)")
  case None
  then show ?thesis
    using None [unfolded piece_codes_found]
    by (auto simp: constructor_def Let_def STATE_INDEX_def findIndex_none isWhiteKing_def
        isBlackKing_def KING_def)
next
  case (Some p)
  then have "\<not> (\<forall>p\<in>set (take 64 xs). - 6 \<le> p \<and> p \<le> 6)"
    using piece_codes_found [of "take 64 xs"] by simp
  then show ?thesis
    using Some by (auto simp: constructor_def Let_def)
qed

lemma constructor_board:
  assumes c: "constructor env xs = Inr b"
  shows "board_inv b" and "itemsLength b = int (length xs)"
    and "whiteKingIndex b = findIndex isWhiteKing xs"
    and "blackKingIndex b = findIndex isBlackKing xs"
    and "historyCounter b = 0"
    and "\<And>s. 0 \<le> s \<Longrightarrow> s \<le> 63 \<Longrightarrow> items b s = xs ! nat s"
    and "items b 66 = xs ! 66"
proof -
  from c have ex: "\<exists>b. constructor env xs = Inr b" by blast
  note ok = ex [unfolded constructor_Inr]
  let ?wk = "findIndex isWhiteKing xs" and ?bk = "findIndex isBlackKing xs"
  let ?L = "constructorLoop env xs 64 (initialFields (int (length xs)) ?wk ?bk)"
  have len: "67 \<le> int (length xs)" using ok by simp
  have rng: "- 6 \<le> xs ! i \<and> xs ! i \<le> 6" if "i < 64" for i
  proof -
    have "take 64 xs ! i = xs ! i" "i < length (take 64 xs)"
      using that ok by simp_all
    then have "xs ! i \<in> set (take 64 xs)"
      by (metis nth_mem)
    then show ?thesis using ok by blast
  qed
  note L = constructorLoop_inv [OF len rng, of 64 env ?wk ?bk, simplified]
  have none: "find (\<lambda>piece. piece < - 6 \<or> 6 < piece) (take 64 xs) = None"
    using ok by (simp add: piece_codes_found)
  have wk: "?wk \<noteq> - 1" and bk: "?bk \<noteq> - 1"
    using ok by (auto simp: findIndex_none isWhiteKing_def isBlackKing_def KING_def)
  have b: "b = updateEndGameStatus
      (?L\<lparr>items := (items ?L)(66 := xs ! 66),
           halfMoveClock := word_of_int (xs ! 64), halfMoveCount := word_of_int (xs ! 65)\<rparr>)"
    using c ok none wk bk
    by (simp add: constructor_def Let_def STATE_INDEX_def HALFMOVE_CLOCK_INDEX_def
        HALFMOVE_COUNT_INDEX_def)
  have "board_inv b = board_inv ?L"
    unfolding b by (rule board_inv_squares_cong) simp_all
  then show "board_inv b" using L by simp
  show "itemsLength b = int (length xs)" "whiteKingIndex b = ?wk" "blackKingIndex b = ?bk"
    "historyCounter b = 0" "items b 66 = xs ! 66"
    unfolding b using L by simp_all
  show "items b s = xs ! nat s" if "0 \<le> s" "s \<le> 63" for s
    unfolding b using L that by simp
qed

lemma count_list_one_unique:
  "count_list ys x = 1 \<Longrightarrow> i < length ys \<Longrightarrow> j < length ys \<Longrightarrow> ys ! i = x \<Longrightarrow> ys ! j = x
   \<Longrightarrow> i = j"
proof (induction ys arbitrary: i j)
  case Nil
  then show ?case by simp
next
  case (Cons y ys)
  show ?case
  proof (cases "y = x")
    case True
    with Cons.prems(1) have "x \<notin> set ys"
      by (simp add: count_list_0_iff)
    then have "i = 0" "j = 0"
      using Cons.prems(2-5) by (cases i; cases j; auto)+
    then show ?thesis by simp
  next
    case False
    with Cons.prems obtain i' j' where ij: "i = Suc i'" "j = Suc j'"
      by (cases i; cases j; auto)
    then have "i' = j'"
      using Cons.IH [of i' j'] Cons.prems False by simp
    then show ?thesis using ij by simp
  qed
qed

lemma constructor_kings:
  assumes c: "constructor env xs = Inr b"
    and w: "count_list (take 64 xs) 6 = 1" and k: "count_list (take 64 xs) (- 6) = 1"
  shows "kings_cached b"
proof -
  note cb = constructor_board [OF c]
  from c have "\<exists>b. constructor env xs = Inr b" by blast
  then have len: "67 \<le> length xs" by (simp add: constructor_Inr)
  have l64: "length (take 64 xs) = 64" using len by simp
  have king: "0 \<le> findIndex p xs \<and> findIndex p xs \<le> 63
      \<and> (\<forall>s\<in>{0..63}. xs ! nat s = v \<longleftrightarrow> s = findIndex p xs)"
    if cnt: "count_list (take 64 xs) v = 1" and p: "p = (\<lambda>x. x = v)" for p v
  proof -
    from cnt have "v \<in> set (take 64 xs)"
      using count_list_0_iff [of "take 64 xs" v] by force
    then obtain k where k: "k < 64" "take 64 xs ! k = v"
      using l64 by (metis in_set_conv_nth)
    then have xk: "xs ! k = v" "k < length xs" using len by simp_all
    then have ex: "\<exists>x\<in>set xs. p x" using p by auto
    note f = findIndex_first [OF ex]
    have le: "findIndex p xs \<le> int k"
      by (rule findIndex_le) (use xk p in simp_all)
    have at: "xs ! nat (findIndex p xs) = v" using f(3) p by simp
    have uniq: "s = findIndex p xs" if "s \<in> {0..63}" "xs ! nat s = v" for s
    proof -
      have n: "nat s < 64" "nat (findIndex p xs) < 64"
        using that(1) le k(1) f(1) by auto
      have "nat s = nat (findIndex p xs)"
        by (rule count_list_one_unique [OF cnt]) (use that(2) at n l64 in simp_all)
      moreover have "0 \<le> s" using that(1) by simp
      ultimately show ?thesis using f(1) by linarith
    qed
    show ?thesis using f(1) le k(1) at uniq by auto
  qed
  have W: "0 \<le> whiteKingIndex b \<and> whiteKingIndex b \<le> 63
      \<and> (\<forall>s\<in>{0..63}. xs ! nat s = 6 \<longleftrightarrow> s = whiteKingIndex b)"
    unfolding cb(3) by (rule king [OF w]) (simp add: isWhiteKing_def KING_def fun_eq_iff)
  have B: "0 \<le> blackKingIndex b \<and> blackKingIndex b \<le> 63
      \<and> (\<forall>s\<in>{0..63}. xs ! nat s = - 6 \<longleftrightarrow> s = blackKingIndex b)"
    unfolding cb(4) by (rule king [OF k]) (simp add: isBlackKing_def KING_def fun_eq_iff)
  show ?thesis
    unfolding kings_cached_def KING_def using W B cb(6) by simp
qed


subsection \<open>The value of \<open>performMove\<close>, and the invariant\<close>

lemma performMove_returns:
  assumes "67 \<le> itemsLength b" "0 \<le> start" "start \<le> 63" "0 \<le> endp" "endp \<le> 63" "start \<noteq> endp"
  shows "snd (performMove env pieceId start endp b) =
     (if items b endp \<noteq> 0 then \<bar>items b endp\<bar>
      else if diagonalPawnStep (items b start) start endp then EN_PASSANT_BIT else EMPTY)"
  by (cases rule: performMove_cases [OF assms, where env = env and pieceId = pieceId])
    (simp_all add: diagonalPawnStep_def PAWN_def EMPTY_def)

lemma performMove_capture_items:
  assumes "67 \<le> itemsLength b" "0 \<le> start" "start \<le> 63" "0 \<le> endp" "endp \<le> 63" "start \<noteq> endp"
    and "items b endp \<noteq> 0" and "0 \<le> s" "s \<le> 63"
  shows "items (fst (performMove env pieceId start endp b)) s =
     (if s = endp then pieceId * sign (items b start) else if s = start then 0 else items b s)"
  using assms(1,7-9)
  by (cases rule: performMove_cases [OF assms(1-6), where env = env and pieceId = pieceId])
    simp_all

lemma board_inv_decomposed:
  assumes "board_inv b"
  shows "mailbox_decomposed b"
  unfolding mailbox_decomposed_def
proof (intro ballI conjI impI)
  fix s :: int assume s: "s \<in> {0..63}"
  from assms s have r: "items b s \<in> {- 6..6}"
    unfolding board_inv_def by blast
  have bits: "bit (getBitBoard b p) (nat s) \<longleftrightarrow> items b s = p" if "p \<in> set pieceCodes" for p
  proof -
    from that have "p \<in> {- 6..6}" "p \<noteq> 0"
      by (auto simp: pieceCodes_def)
    then show ?thesis
      using assms s unfolding board_inv_def getBitBoard_def by blast
  qed
  have "filter (\<lambda>p. bit (getBitBoard b p) (nat s)) pieceCodes = filter (\<lambda>p. items b s = p) pieceCodes"
    by (rule filter_cong [OF refl]) (simp add: bits)
  moreover have "(length (filter (\<lambda>p. x = p) pieceCodes) = 1) = (x \<noteq> 0)" if "x \<in> {- 6..6}" for x :: int
  proof -
    from that have "x = - 6 \<or> x = - 5 \<or> x = - 4 \<or> x = - 3 \<or> x = - 2 \<or> x = - 1 \<or> x = 0
        \<or> x = 1 \<or> x = 2 \<or> x = 3 \<or> x = 4 \<or> x = 5 \<or> x = 6"
      by simp arith
    then show ?thesis
      by (elim disjE) (simp_all add: pieceCodes_def)
  qed
  ultimately show "(items b s \<noteq> 0) = (length (filter (\<lambda>p. bit (getBitBoard b p) (nat s)) pieceCodes) = 1)"
    using r by simp
  assume nz: "items b s \<noteq> 0"
  show "bit (getBitBoard b (items b s)) (nat s)"
    using assms s r nz unfolding board_inv_def getBitBoard_def by blast
  have "sign (items b s) \<in> {- 1, 1}"
    using nz by (simp add: sign_def)
  then show "bit (getAllPieceBitBoard b (sign (items b s))) (nat s)"
    using assms s unfolding board_inv_def getAllPieceBitBoard_def by blast
qed

lemma board_inv_null_moves:
  "board_inv b \<Longrightarrow> board_inv (performNullMove env b)"
  "board_inv b \<Longrightarrow> board_inv (undoNullMove b)"
  by (simp_all add: performNullMove_def undoNullMove_def)

lemma board_inv_undo:
  assumes "board_inv b" "kings_cached b" "legal_shape b pieceId start endp"
  shows "board_inv (undoMove env (items b start) start endp
            (snd (performMove env pieceId start endp b)) (fst (performMove env pieceId start endp b)))"
  using undo_perform_pieces [OF assms performMove_inv [OF assms(1,3)], where env = env]
  by simp


subsection \<open>Population counts and piece counts\<close>

lemma countPieces_filter:
  "countPieces b P = int (length (filter (\<lambda>s. P (items b (int s))) [0..<64]))"
  by (simp add: countPieces_def squaresOf_def filter_map comp_def)

lemma popcnt_pieces:
  assumes "board_inv b" "p \<in> {- 6..6}" "p \<noteq> 0"
  shows "popcnt (getBitBoard b p) = countPieces b (\<lambda>q. q = p)"
proof -
  have "bit (bitBoardPieces b (p + 6)) n \<longleftrightarrow> items b (int n) = p" if "n \<in> set [0..<64]" for n
  proof -
    from that have "int n \<in> {0..63}" by simp
    then have "bit (bitBoardPieces b (p + 6)) (nat (int n)) \<longleftrightarrow> items b (int n) = p"
      using assms unfolding board_inv_def by blast
    then show ?thesis by simp
  qed
  then have "filter (bit (bitBoardPieces b (p + 6))) [0..<64]
      = filter (\<lambda>s. items b (int s) = p) [0..<64]"
    by (intro filter_cong refl)
  then show ?thesis
    by (simp add: popcnt_def countPieces_filter getBitBoard_def)
qed

lemma length_filter_disjoint:
  "(\<And>x. \<not> (P x \<and> Q x)) \<Longrightarrow>
   length (filter P xs) + length (filter Q xs) = length (filter (\<lambda>x. P x \<or> Q x) xs)"
  by (induction xs) auto

lemma countPieces_or:
  "(\<And>x. \<not> (P x \<and> Q x)) \<Longrightarrow>
   countPieces b P + countPieces b Q = countPieces b (\<lambda>x. P x \<or> Q x)"
  using length_filter_disjoint [of P Q "squaresOf b"] by (simp add: countPieces_def)

lemma countPieces_cong: "(\<And>x. P x = Q x) \<Longrightarrow> countPieces b P = countPieces b Q"
proof -
  assume "\<And>x. P x = Q x"
  then have "P = Q" by (simp add: fun_eq_iff)
  then show ?thesis by simp
qed

lemma pawn_count:
  assumes "board_inv b"
  shows "popcnt (getBitBoard b PAWN) + popcnt (getBitBoard b (- PAWN))
       = countPieces b (\<lambda>p. \<bar>p\<bar> = PAWN)"
proof -
  have "popcnt (getBitBoard b 1) + popcnt (getBitBoard b (- 1))
      = countPieces b (\<lambda>q. q = 1 \<or> q = - 1)"
    using popcnt_pieces [OF assms, of 1] popcnt_pieces [OF assms, of "- 1"]
      countPieces_or [of "\<lambda>q. q = 1" "\<lambda>q. q = - 1" b]
    by simp
  also have "\<dots> = countPieces b (\<lambda>p. \<bar>p\<bar> = 1)"
    by (rule countPieces_cong) auto
  finally show ?thesis by (simp add: PAWN_def)
qed

lemma other_piece_count:
  assumes "board_inv b"
  shows "popcnt (getBitBoard b KNIGHT) + popcnt (getBitBoard b (- KNIGHT)) +
         popcnt (getBitBoard b BISHOP) + popcnt (getBitBoard b (- BISHOP)) +
         popcnt (getBitBoard b ROOK) + popcnt (getBitBoard b (- ROOK)) +
         popcnt (getBitBoard b QUEEN) + popcnt (getBitBoard b (- QUEEN))
       = countPieces b (\<lambda>p. \<bar>p\<bar> = KNIGHT \<or> \<bar>p\<bar> = BISHOP \<or> \<bar>p\<bar> = ROOK \<or> \<bar>p\<bar> = QUEEN)"
proof -
  have pair: "popcnt (getBitBoard b k) + popcnt (getBitBoard b (- k)) = countPieces b (\<lambda>p. \<bar>p\<bar> = k)"
    if "1 \<le> k" "k \<le> 6" for k
  proof -
    have "popcnt (getBitBoard b k) + popcnt (getBitBoard b (- k))
        = countPieces b (\<lambda>q. q = k \<or> q = - k)"
      using popcnt_pieces [OF assms, of k] popcnt_pieces [OF assms, of "- k"]
        countPieces_or [of "\<lambda>q. q = k" "\<lambda>q. q = - k" b] that
      by simp
    also have "\<dots> = countPieces b (\<lambda>p. \<bar>p\<bar> = k)"
      by (rule countPieces_cong) (use that in auto)
    finally show ?thesis .
  qed
  have s1: "countPieces b (\<lambda>p. \<bar>p\<bar> = 2) + countPieces b (\<lambda>p. \<bar>p\<bar> = 3)
      = countPieces b (\<lambda>p. \<bar>p\<bar> = 2 \<or> \<bar>p\<bar> = 3)"
    by (rule countPieces_or) auto
  have s2: "countPieces b (\<lambda>p. \<bar>p\<bar> = 2 \<or> \<bar>p\<bar> = 3) + countPieces b (\<lambda>p. \<bar>p\<bar> = 4)
      = countPieces b (\<lambda>p. (\<bar>p\<bar> = 2 \<or> \<bar>p\<bar> = 3) \<or> \<bar>p\<bar> = 4)"
    by (rule countPieces_or) auto
  have s3: "countPieces b (\<lambda>p. (\<bar>p\<bar> = 2 \<or> \<bar>p\<bar> = 3) \<or> \<bar>p\<bar> = 4) + countPieces b (\<lambda>p. \<bar>p\<bar> = 5)
      = countPieces b (\<lambda>p. ((\<bar>p\<bar> = 2 \<or> \<bar>p\<bar> = 3) \<or> \<bar>p\<bar> = 4) \<or> \<bar>p\<bar> = 5)"
    by (rule countPieces_or) auto
  have "countPieces b (\<lambda>p. \<bar>p\<bar> = 2) + countPieces b (\<lambda>p. \<bar>p\<bar> = 3)
      + countPieces b (\<lambda>p. \<bar>p\<bar> = 4) + countPieces b (\<lambda>p. \<bar>p\<bar> = 5)
      = countPieces b (\<lambda>p. \<bar>p\<bar> = 2 \<or> \<bar>p\<bar> = 3 \<or> \<bar>p\<bar> = 4 \<or> \<bar>p\<bar> = 5)"
    using s1 s2 s3 by (simp add: disj_assoc)
  then show ?thesis
    using pair [of 2] pair [of 3] pair [of 4] pair [of 5]
    by (simp add: KNIGHT_def BISHOP_def ROOK_def QUEEN_def)
qed

lemma updateEndGameStatus_endgame:
  "isEndGame (updateEndGameStatus b) \<longleftrightarrow>
     popcnt (getBitBoard b PAWN) + popcnt (getBitBoard b (- PAWN)) \<le> 3
   \<or> popcnt (getBitBoard b KNIGHT) + popcnt (getBitBoard b (- KNIGHT)) +
       popcnt (getBitBoard b BISHOP) + popcnt (getBitBoard b (- BISHOP)) +
       popcnt (getBitBoard b ROOK) + popcnt (getBitBoard b (- ROOK)) +
       popcnt (getBitBoard b QUEEN) + popcnt (getBitBoard b (- QUEEN)) \<le> 3"
  by (simp add: updateEndGameStatus_def isEndGame_def Let_def)

lemma endgame_after_update:
  assumes "board_inv b"
  shows "isEndGame (updateEndGameStatus b) \<longleftrightarrow> endgameCondition b"
  unfolding updateEndGameStatus_endgame pawn_count [OF assms] other_piece_count [OF assms]
  by (simp add: endgameCondition_def)

lemma endgameCondition_cong:
  "(\<And>s. 0 \<le> s \<Longrightarrow> s \<le> 63 \<Longrightarrow> items b' s = items b s) \<Longrightarrow>
   endgameCondition b' = endgameCondition b"
proof -
  assume a: "\<And>s. 0 \<le> s \<Longrightarrow> s \<le> 63 \<Longrightarrow> items b' s = items b s"
  have "squaresOf b' = squaresOf b"
    unfolding squaresOf_def by (rule map_cong [OF refl]) (simp add: a)
  then show ?thesis
    by (simp add: endgameCondition_def countPieces_def)
qed

lemma constructor_form:
  assumes c: "constructor env xs = Inr b"
  shows "\<exists>b'. b = updateEndGameStatus b' \<and> board_inv b'"
proof -
  from c have ex: "\<exists>b. constructor env xs = Inr b" by blast
  note ok = ex [unfolded constructor_Inr]
  let ?wk = "findIndex isWhiteKing xs" and ?bk = "findIndex isBlackKing xs"
  let ?L = "constructorLoop env xs 64 (initialFields (int (length xs)) ?wk ?bk)"
  let ?b4 = "?L\<lparr>items := (items ?L)(66 := xs ! 66),
           halfMoveClock := word_of_int (xs ! 64), halfMoveCount := word_of_int (xs ! 65)\<rparr>"
  have len: "67 \<le> int (length xs)" using ok by simp
  have rng: "- 6 \<le> xs ! i \<and> xs ! i \<le> 6" if "i < 64" for i
  proof -
    have "take 64 xs ! i = xs ! i" "i < length (take 64 xs)"
      using that ok by simp_all
    then have "xs ! i \<in> set (take 64 xs)"
      by (metis nth_mem)
    then show ?thesis using ok by blast
  qed
  note L = constructorLoop_inv [OF len rng, of 64 env ?wk ?bk, simplified]
  have none: "find (\<lambda>piece. piece < - 6 \<or> 6 < piece) (take 64 xs) = None"
    using ok by (simp add: piece_codes_found)
  have wk: "?wk \<noteq> - 1" and bk: "?bk \<noteq> - 1"
    using ok by (auto simp: findIndex_none isWhiteKing_def isBlackKing_def KING_def)
  have b: "b = updateEndGameStatus ?b4"
    using c ok none wk bk
    by (simp add: constructor_def Let_def STATE_INDEX_def HALFMOVE_CLOCK_INDEX_def
        HALFMOVE_COUNT_INDEX_def)
  have "board_inv ?b4 = board_inv ?L"
    by (rule board_inv_squares_cong) simp_all
  then have "board_inv ?b4" using L by simp
  then show ?thesis using b by blast
qed

lemma constructor_endgame:
  assumes c: "constructor env xs = Inr b"
  shows "isEndGame b \<longleftrightarrow> endgameCondition b"
proof -
  from constructor_form [OF c] obtain b' where b: "b = updateEndGameStatus b'" and inv: "board_inv b'"
    by blast
  have "endgameCondition b = endgameCondition b'"
    unfolding b by (rule endgameCondition_cong) simp
  then show ?thesis
    using endgame_after_update [OF inv] b by simp
qed

lemma endgame_unchanged:
  "isEndGame (fst (performMove env pieceId start endp b)) = isEndGame b"
  "isEndGame (undoMove env piece start endp removed b) = isEndGame b"
  "isEndGame (performNullMove env b) = isEndGame b"
  "isEndGame (undoNullMove b) = isEndGame b"
  by (simp_all add: isEndGame_def performNullMove_def undoNullMove_def)

lemma squaresOf_constructed:
  assumes c: "constructor env xs = Inr b"
  shows "squaresOf b = take 64 xs"
proof (rule nth_equalityI)
  from c have "\<exists>b. constructor env xs = Inr b" by blast
  then have len: "67 \<le> length xs" by (simp add: constructor_Inr)
  then show "length (squaresOf b) = length (take 64 xs)"
    by (simp add: squaresOf_def)
  fix i assume "i < length (squaresOf b)"
  then have i: "i < 64" by (simp add: squaresOf_def)
  then show "squaresOf b ! i = take 64 xs ! i"
    using constructor_board(6) [OF c, of "int i"] by (simp add: squaresOf_def)
qed

lemma squaresOf_capture:
  assumes "67 \<le> itemsLength b" "0 \<le> start" "start \<le> 63" "0 \<le> endp" "endp \<le> 63" "start \<noteq> endp"
    and "items b endp \<noteq> 0"
  shows "squaresOf (fst (performMove env pieceId start endp b))
       = (squaresOf b)[nat start := 0, nat endp := pieceId * sign (items b start)]"
proof (rule nth_equalityI)
  show "length (squaresOf (fst (performMove env pieceId start endp b)))
      = length ((squaresOf b)[nat start := 0, nat endp := pieceId * sign (items b start)])"
    by (simp add: squaresOf_def)
  fix i assume "i < length (squaresOf (fst (performMove env pieceId start endp b)))"
  then have i: "i < 64" by (simp add: squaresOf_def)
  have e: "int i = endp \<longleftrightarrow> i = nat endp" "int i = start \<longleftrightarrow> i = nat start"
    using assms(2,4) by auto
  show "squaresOf (fst (performMove env pieceId start endp b)) ! i
      = (squaresOf b)[nat start := 0, nat endp := pieceId * sign (items b start)] ! i"
    using i performMove_capture_items [OF assms, of "int i" env pieceId] e
    by (simp add: squaresOf_def nth_list_update)
qed

lemma word_nonzero_iff: "(w :: u64) \<noteq> 0 \<longleftrightarrow> (\<exists>n\<in>set [0..<64]. bit w n)"
proof
  assume "w \<noteq> 0"
  then obtain n where "bit w n" by (auto simp: bit_eq_iff)
  moreover from this have "n < 64" by (auto dest: bit_imp_le_length)
  ultimately show "\<exists>n\<in>set [0..<64]. bit w n" by auto
next
  assume "\<exists>n\<in>set [0..<64]. bit w n"
  then show "w \<noteq> 0" by auto
qed

lemma piece_bit:
  assumes "board_inv b" "p \<in> {- 6..6}" "p \<noteq> 0" "n < 64"
  shows "bit (getBitBoard b p) n \<longleftrightarrow> items b (int n) = p"
proof -
  from assms(4) have "int n \<in> {0..63}" by simp
  then have "bit (bitBoardPieces b (p + 6)) (nat (int n)) \<longleftrightarrow> items b (int n) = p"
    using assms unfolding board_inv_def by blast
  then show ?thesis by (simp add: getBitBoard_def)
qed

lemma occupancy_bit:
  assumes "board_inv b" "n < 64"
  shows "bit (getAllPieceBitBoard b WHITE) n \<longleftrightarrow> 0 < items b (int n)"
    and "bit (getAllPieceBitBoard b BLACK) n \<longleftrightarrow> items b (int n) < 0"
proof -
  from assms(2) have n: "int n \<in> {0..63}" by simp
  have "bit (bitBoardAllPieces b (1 + 1)) (nat (int n)) \<longleftrightarrow> sign (items b (int n)) = 1"
    using assms(1) n unfolding board_inv_def by blast
  then show "bit (getAllPieceBitBoard b WHITE) n \<longleftrightarrow> 0 < items b (int n)"
    by (simp add: getAllPieceBitBoard_def WHITE_def sign_simps)
  have "bit (bitBoardAllPieces b (- 1 + 1)) (nat (int n)) \<longleftrightarrow> sign (items b (int n)) = - 1"
    using assms(1) n unfolding board_inv_def by blast
  then show "bit (getAllPieceBitBoard b BLACK) n \<longleftrightarrow> items b (int n) < 0"
    by (simp add: getAllPieceBitBoard_def BLACK_def sign_simps)
qed

lemma popcnt_occupancy:
  assumes "board_inv b"
  shows "popcnt (getAllPieceBitBoard b WHITE OR getAllPieceBitBoard b BLACK)
       = countPieces b (\<lambda>p. p \<noteq> 0)"
proof -
  have "filter (bit (getAllPieceBitBoard b WHITE OR getAllPieceBitBoard b BLACK)) [0..<64]
      = filter (\<lambda>s. items b (int s) \<noteq> 0) [0..<64]"
    by (rule filter_cong [OF refl]) (auto simp: bit_simps occupancy_bit [OF assms])
  then show ?thesis
    by (simp add: popcnt_def countPieces_filter)
qed

lemma insufficient_material_iff:
  assumes inv: "board_inv b"
  shows "isInsufficientMaterialDraw env b \<longleftrightarrow> insufficientMaterial env b"
proof -
  note pb = piece_bit [OF inv]
  have minor: "getBitBoard b KNIGHT OR getBitBoard b (- KNIGHT) OR getBitBoard b BISHOP
        OR getBitBoard b (- BISHOP) \<noteq> 0
      \<longleftrightarrow> (\<exists>s\<in>set [0..<64]. \<bar>items b (int s)\<bar> = KNIGHT \<or> \<bar>items b (int s)\<bar> = BISHOP)"
    unfolding word_nonzero_iff
    by (rule bex_cong [OF refl]) (auto simp: bit_simps pb KNIGHT_def BISHOP_def)
  have col: "getBitBoard b p AND m \<noteq> 0 \<longleftrightarrow> (\<exists>s\<in>set [0..<64]. items b (int s) = p \<and> bit m s)"
    if "p \<in> {- 6..6}" "p \<noteq> 0" for p m
    unfolding word_nonzero_iff
    by (rule bex_cong [OF refl]) (simp add: bit_simps pb [OF that])
  have bishops:
    "(getBitBoard b BISHOP AND LIGHT_COLORED_FIELD_PATTERN env \<noteq> 0
        \<and> getBitBoard b (- BISHOP) AND LIGHT_COLORED_FIELD_PATTERN env \<noteq> 0)
      \<or> (getBitBoard b BISHOP AND DARK_COLORED_FIELD_PATTERN env \<noteq> 0
        \<and> getBitBoard b (- BISHOP) AND DARK_COLORED_FIELD_PATTERN env \<noteq> 0)
     \<longleftrightarrow> (\<exists>s\<in>set [0..<64]. \<exists>t\<in>set [0..<64].
              items b (int s) = BISHOP \<and> items b (int t) = - BISHOP
            \<and> ((bit (LIGHT_COLORED_FIELD_PATTERN env) s \<and> bit (LIGHT_COLORED_FIELD_PATTERN env) t)
               \<or> (bit (DARK_COLORED_FIELD_PATTERN env) s \<and> bit (DARK_COLORED_FIELD_PATTERN env) t)))"
  proof -
    have w: "getBitBoard b 3 AND m \<noteq> 0 \<longleftrightarrow> (\<exists>s\<in>set [0..<64]. items b (int s) = 3 \<and> bit m s)"
      for m by (rule col) simp_all
    have k: "getBitBoard b (- 3) AND m \<noteq> 0
        \<longleftrightarrow> (\<exists>s\<in>set [0..<64]. items b (int s) = - 3 \<and> bit m s)"
      for m by (rule col) simp_all
    show ?thesis
      unfolding BISHOP_def w k by blast
  qed
  show ?thesis
    unfolding isInsufficientMaterialDraw_def Let_def popcnt_occupancy [OF inv] minor bishops
      insufficientMaterial_def
    by auto
qed

lemma countPieces_pos_ex:
  assumes "0 < countPieces b P"
  shows "\<exists>s\<in>set [0..<64]. P (items b (int s))"
proof -
  from assms have "filter (\<lambda>s. P (items b (int s))) [0..<64] \<noteq> []"
    by (auto simp: countPieces_filter)
  then show ?thesis
    by (auto simp: filter_empty_conv)
qed

lemma kings_minor_insufficient:
  assumes k: "kingsAndAtMostOneMinor b"
  shows "insufficientMaterial env b"
proof -
  let ?K = "\<lambda>p :: int. \<bar>p\<bar> = KING"
  let ?M = "\<lambda>p :: int. \<bar>p\<bar> = KNIGHT \<or> \<bar>p\<bar> = BISHOP"
  let ?O = "\<lambda>p :: int. p \<noteq> 0 \<and> \<bar>p\<bar> \<noteq> KING \<and> \<bar>p\<bar> \<noteq> KNIGHT \<and> \<bar>p\<bar> \<noteq> BISHOP"
  have s1: "countPieces b ?K + countPieces b ?M = countPieces b (\<lambda>p. ?K p \<or> ?M p)"
    by (rule countPieces_or) (auto simp: const_defs)
  have s2: "countPieces b (\<lambda>p. ?K p \<or> ?M p) + countPieces b ?O
      = countPieces b (\<lambda>p. (?K p \<or> ?M p) \<or> ?O p)"
    by (rule countPieces_or) (auto simp: const_defs)
  have s3: "countPieces b (\<lambda>p. (?K p \<or> ?M p) \<or> ?O p) = countPieces b (\<lambda>p. p \<noteq> 0)"
    by (rule countPieces_cong) (auto simp: const_defs)
  have total: "countPieces b (\<lambda>p. p \<noteq> 0) = 2 + countPieces b ?M"
    using s1 s2 s3 k by (simp add: kingsAndAtMostOneMinor_def)
  have nonneg: "0 \<le> countPieces b ?M"
    by (simp add: countPieces_def)
  from k have le: "countPieces b ?M \<le> 1"
    by (simp add: kingsAndAtMostOneMinor_def)
  show ?thesis
  proof (cases "countPieces b ?M = 0")
    case True
    then show ?thesis using total by (simp add: insufficientMaterial_def)
  next
    case False
    then have one: "countPieces b ?M = 1" using nonneg le by linarith
    then have "\<exists>s\<in>set [0..<64]. ?M (items b (int s))"
      by (intro countPieces_pos_ex) simp
    then show ?thesis using total one by (simp add: insufficientMaterial_def)
  qed
qed


subsection \<open>The smallest attacker stands on an occupied square\<close>

lemma ctz_bit:
  assumes nz: "w \<noteq> 0"
  shows "0 \<le> ctz w" "ctz w < 64" "bit w (nat (ctz w))"
proof -
  define k where "k = length (takeWhile (\<lambda>n. \<not> bit w n) [0..<64])"
  from nz obtain m where m: "bit w m"
    by (auto simp: bit_eq_iff)
  then have m64: "m < 64"
    by (auto dest: bit_imp_le_length)
  have "\<exists>x \<in> set [0..<64]. \<not> \<not> bit w x"
    using m m64 by auto
  then have "takeWhile (\<lambda>n. \<not> bit w n) [0..<64] \<noteq> [0..<64]"
    by (simp only: takeWhile_eq_all_conv) blast
  then have "k \<noteq> length [0..<64]"
    unfolding k_def by (metis takeWhile_eq_take take_all order_refl)
  moreover have "k \<le> length [0..<64]"
    unfolding k_def by (rule length_takeWhile_le)
  ultimately have klt: "k < length [0..<64]"
    by linarith
  then have k64: "k < 64" by simp
  have "\<not> \<not> bit w ([0..<64] ! k)"
    unfolding k_def by (rule nth_length_takeWhile) (use klt k_def in simp)
  then have bk: "bit w k"
    using k64 by simp
  have c: "ctz w = int k" by (simp add: ctz_def k_def)
  show "0 \<le> ctz w" "ctz w < 64" "bit w (nat (ctz w))"
    using k64 bk by (simp_all add: c)
qed

lemma and_bit64_nonzero: "w AND bit64 pos \<noteq> 0 \<longleftrightarrow> bit w (nat (pos mod 64))"
proof -
  have lt: "nat (pos mod 64) < 64" by simp
  show ?thesis
  proof
    assume "w AND bit64 pos \<noteq> 0"
    then obtain n where "bit (w AND bit64 pos) n" by (auto simp: bit_eq_iff)
    then show "bit w (nat (pos mod 64))"
      by (auto simp: bit64_def bit_simps)
  next
    assume "bit w (nat (pos mod 64))"
    then have "bit (w AND bit64 pos) (nat (pos mod 64))"
      using lt by (simp add: bit64_def bit_simps)
    then show "w AND bit64 pos \<noteq> 0" by auto
  qed
qed

lemma bit64_and_nonzero: "bit64 pos AND w \<noteq> 0 \<longleftrightarrow> bit w (nat (pos mod 64))"
  using and_bit64_nonzero [of w pos] by (simp add: and.commute)

lemma ctz_occ:
  assumes "(x AND occ) AND m \<noteq> 0"
  shows "bit occ (nat (ctz ((x AND occ) AND m) mod 64))"
proof -
  note c = ctz_bit [OF assms]
  have "ctz ((x AND occ) AND m) mod 64 = ctz ((x AND occ) AND m)"
    using c(1,2) by simp
  then show ?thesis
    using c(3) by (simp add: bit_simps)
qed

lemma white_left_occ:
  assumes s: "pawnAttacksSound env" and a: "whiteLeftPawnAttacks env (x AND occ) AND bit64 pos \<noteq> 0"
  shows "bit occ (nat ((pos + 9) mod 64))"
proof -
  from a have "bit (whiteLeftPawnAttacks env (x AND occ)) (nat (pos mod 64))"
    by (simp add: and_bit64_nonzero)
  then have b: "bit (x AND occ) (nat (pos mod 64) + 9)"
    using s unfolding pawnAttacksSound_def by blast
  then have lt: "nat (pos mod 64) + 9 < 64"
    by (auto dest: bit_imp_le_length)
  have "(pos + 9) mod 64 = (pos mod 64 + 9) mod 64"
    by (simp add: mod_add_left_eq)
  also have "\<dots> = pos mod 64 + 9"
    by (rule mod_pos_pos_trivial) (use lt in linarith)+
  finally have "nat ((pos + 9) mod 64) = nat (pos mod 64) + 9"
    by (simp add: nat_add_distrib)
  then show ?thesis using b by (simp add: bit_simps)
qed

lemma white_right_occ:
  assumes s: "pawnAttacksSound env" and a: "whiteRightPawnAttacks env (x AND occ) AND bit64 pos \<noteq> 0"
  shows "bit occ (nat ((pos + 7) mod 64))"
proof -
  from a have "bit (whiteRightPawnAttacks env (x AND occ)) (nat (pos mod 64))"
    by (simp add: and_bit64_nonzero)
  then have b: "bit (x AND occ) (nat (pos mod 64) + 7)"
    using s unfolding pawnAttacksSound_def by blast
  then have lt: "nat (pos mod 64) + 7 < 64"
    by (auto dest: bit_imp_le_length)
  have "(pos + 7) mod 64 = (pos mod 64 + 7) mod 64"
    by (simp add: mod_add_left_eq)
  also have "\<dots> = pos mod 64 + 7"
    by (rule mod_pos_pos_trivial) (use lt in linarith)+
  finally have "nat ((pos + 7) mod 64) = nat (pos mod 64) + 7"
    by (simp add: nat_add_distrib)
  then show ?thesis using b by (simp add: bit_simps)
qed

lemma black_left_occ:
  assumes s: "pawnAttacksSound env" and a: "blackLeftPawnAttacks env (x AND occ) AND bit64 pos \<noteq> 0"
  shows "bit occ (nat ((pos - 7) mod 64))"
proof -
  from a have "bit (blackLeftPawnAttacks env (x AND occ)) (nat (pos mod 64))"
    by (simp add: and_bit64_nonzero)
  then have b: "7 \<le> nat (pos mod 64)" "bit (x AND occ) (nat (pos mod 64) - 7)"
    using s unfolding pawnAttacksSound_def by blast+
  have "(pos - 7) mod 64 = (pos mod 64 - 7) mod 64"
    by (simp add: mod_diff_left_eq)
  also have "\<dots> = pos mod 64 - 7"
    by (rule mod_pos_pos_trivial) (use b(1) in linarith)+
  finally have "nat ((pos - 7) mod 64) = nat (pos mod 64) - 7"
    by (simp add: nat_diff_distrib')
  then show ?thesis using b(2) by (simp add: bit_simps)
qed

lemma black_right_occ:
  assumes s: "pawnAttacksSound env" and a: "blackRightPawnAttacks env (x AND occ) AND bit64 pos \<noteq> 0"
  shows "bit occ (nat ((pos - 9) mod 64))"
proof -
  from a have "bit (blackRightPawnAttacks env (x AND occ)) (nat (pos mod 64))"
    by (simp add: and_bit64_nonzero)
  then have b: "9 \<le> nat (pos mod 64)" "bit (x AND occ) (nat (pos mod 64) - 9)"
    using s unfolding pawnAttacksSound_def by blast+
  have "(pos - 9) mod 64 = (pos mod 64 - 9) mod 64"
    by (simp add: mod_diff_left_eq)
  also have "\<dots> = pos mod 64 - 9"
    by (rule mod_pos_pos_trivial) (use b(1) in linarith)+
  finally have "nat ((pos - 9) mod 64) = nat (pos mod 64) - 9"
    by (simp add: nat_diff_distrib')
  then show ?thesis using b(2) by (simp add: bit_simps)
qed

lemma cascade:
  assumes "0 \<le> (if A1 then v1 else if A2 then v2 else if A3 then v3 else if A4 then v4
      else if A5 then v5 else if A6 then v6 else if A7 then (if K then v7 else - 1) else (- 1 :: int))"
    and "A1 \<Longrightarrow> P v1" and "A2 \<Longrightarrow> P v2" and "A3 \<Longrightarrow> P v3" and "A4 \<Longrightarrow> P v4"
    and "A5 \<Longrightarrow> P v5" and "A6 \<Longrightarrow> P v6" and "A7 \<Longrightarrow> K \<Longrightarrow> P v7"
  shows "P (if A1 then v1 else if A2 then v2 else if A3 then v3 else if A4 then v4
      else if A5 then v5 else if A6 then v6 else if A7 then (if K then v7 else - 1) else - 1)"
  using assms by (auto split: if_splits)

lemma attacker_occupied:
  assumes s: "pawnAttacksSound env" and a: "0 \<le> findSmallestAttacker env b occ c pos"
  shows "bit occ (nat (findSmallestAttacker env b occ c pos mod 64))"
proof (cases "c = WHITE")
  case True
  show ?thesis
    using a unfolding findSmallestAttacker_def Let_def if_P [OF True]
    by (rule cascade [where P = "\<lambda>r. bit occ (nat (r mod 64))"])
      (erule white_left_occ [OF s] white_right_occ [OF s] ctz_occ
        | simp add: bit64_and_nonzero)+
next
  case False
  show ?thesis
    using a unfolding findSmallestAttacker_def Let_def if_not_P [OF False]
    by (rule cascade [where P = "\<lambda>r. bit occ (nat (r mod 64))"])
      (erule black_left_occ [OF s] black_right_occ [OF s] ctz_occ
        | simp add: bit64_and_nonzero)+
qed

lemma card_clear:
  assumes "bit occ (nat (a mod 64))"
  shows "card {n. bit (occ AND NOT (bit64 a)) n} < card {n. bit occ n}"
proof -
  have lt: "nat (a mod 64) < 64" by simp
  have eq: "{n. bit (occ AND NOT (bit64 a)) n} = {n. bit occ n} - {nat (a mod 64)}"
    using lt by (auto simp: bit64_def bit_simps dest: bit_imp_le_length)
  have "card ({n. bit occ n} - {nat (a mod 64)}) < card {n. bit occ n}"
    by (rule card_Diff1_less) (use assms in simp_all)
  then show ?thesis by (simp only: eq)
qed

lemma seeLoop_returns:
  assumes s: "pawnAttacksSound env"
  shows "card {n. bit occ n} < 2 * fuel \<Longrightarrow>
    \<exists>r. seeLoop fuel env b c target sc occ trophy = Some r"
proof (induction fuel arbitrary: sc occ trophy)
  case 0
  then show ?case by simp
next
  case (Suc fuel)
  let ?a = "findSmallestAttacker env b occ c target"
  let ?occ1 = "occ AND NOT (bit64 ?a)"
  let ?o = "findSmallestAttacker env b ?occ1 (- c) target"
  let ?occ2 = "?occ1 AND NOT (bit64 ?o)"
  show ?case
  proof (cases "0 \<le> ?a \<and> 0 \<le> ?o")
    case True
    have c1: "card {n. bit ?occ1 n} < card {n. bit occ n}"
      by (rule card_clear) (rule attacker_occupied [OF s], use True in simp)
    have c2: "card {n. bit ?occ2 n} < card {n. bit ?occ1 n}"
      by (rule card_clear) (rule attacker_occupied [OF s], use True in simp)
    have "card {n. bit occ n} < 2 * fuel + 2"
      using Suc.prems by simp
    then have "card {n. bit ?occ2 n} < 2 * fuel"
      using c1 c2 by linarith
    from Suc.IH [OF this] show ?thesis
      by (auto simp: Let_def)
  next
    case False
    then show ?thesis
      by (auto simp: Let_def)
  qed
qed

lemma card_bits_u64: "card {n. bit (w :: u64) n} \<le> 64"
proof -
  have "{n. bit w n} \<subseteq> {..<64}"
    by (auto dest: bit_imp_le_length)
  then have "card {n. bit w n} \<le> card {..<64 :: nat}"
    by (intro card_mono) simp_all
  then show ?thesis by simp
qed



subsection \<open>The sample positions\<close>

lemma boardOf_constructed:
  assumes "67 \<le> length xs" "6 \<in> set xs" "- 6 \<in> set xs" "squaresInRange xs"
  shows "constructor sample_env xs = Inr (boardOf xs)"
proof -
  have "\<exists>b. constructor sample_env xs = Inr b"
    unfolding constructor_Inr using assms by (simp add: squaresInRange_def list_all_iff)
  then show ?thesis
    by (auto simp: boardOf_def)
qed

lemma exchange_position_facts:
  "67 \<le> length exchange_position" "length exchange_position = 67"
  "6 \<in> set exchange_position" "- 6 \<in> set exchange_position"
  "6 \<in> set (take 64 exchange_position)" "- 6 \<in> set (take 64 exchange_position)"
  "squaresInRange exchange_position"
  "count_list (take 64 exchange_position) 6 = 1"
  "count_list (take 64 exchange_position) (- 6) = 1"
  by (simp_all add: exchange_position_def squaresInRange_def)

lemma exchange_board_constructed:
  "constructor sample_env exchange_position = Inr exchange_board"
  unfolding exchange_board_def
  by (rule boardOf_constructed) (rule exchange_position_facts)+

lemma exchange_board_facts:
  "board_inv exchange_board" "kings_cached exchange_board" "itemsLength exchange_board = 67"
  "historyCounter exchange_board = 0"
  using constructor_board [OF exchange_board_constructed]
    constructor_kings [OF exchange_board_constructed exchange_position_facts(8,9)]
  by (simp_all add: exchange_position_facts)

lemma exchange_board_items:
  "0 \<le> s \<Longrightarrow> s \<le> 63 \<Longrightarrow> items exchange_board s = exchange_position ! nat s"
  by (rule constructor_board(6) [OF exchange_board_constructed])

lemma exchange_board_squares:
  "items exchange_board 4 = - 6" "items exchange_board 20 = - 1" "items exchange_board 27 = - 1"
  "items exchange_board 42 = 2" "items exchange_board 60 = 6" "items exchange_board 28 = 0"
  "items exchange_board 19 = 0" "items exchange_board 21 = 0"
  by (simp_all add: exchange_board_items exchange_position_def)

lemma exchange_legal:
  "legal_shape exchange_board 2 42 27" "legal_shape exchange_board 1 20 28"
  by (simp_all add: legal_shape_def exchange_board_squares const_defs Let_def)

lemma exchange_legal_seq:
  "legal_seq sample_env exchange_board [(2, 42, 27), (1, 20, 27)]"
proof -
  have len: "67 \<le> itemsLength exchange_board"
    by (simp add: exchange_board_facts)
  note it = performMove_capture_items [OF len, of 42 27 _ sample_env 2, simplified]
  have "legal_shape (fst (performMove sample_env 2 42 27 exchange_board)) 1 20 27"
    by (simp add: legal_shape_def Let_def it exchange_board_squares const_defs)
  then show ?thesis
    using exchange_legal(1) by simp
qed

lemma enpassant_position_facts:
  "67 \<le> length enpassant_position" "length enpassant_position = 67"
  "6 \<in> set enpassant_position" "- 6 \<in> set enpassant_position"
  "6 \<in> set (take 64 enpassant_position)" "- 6 \<in> set (take 64 enpassant_position)"
  "squaresInRange enpassant_position"
  "count_list (take 64 enpassant_position) 6 = 1"
  "count_list (take 64 enpassant_position) (- 6) = 1"
  by (simp_all add: enpassant_position_def squaresInRange_def)

lemma enpassant_board_constructed:
  "constructor sample_env enpassant_position = Inr enpassant_board"
  unfolding enpassant_board_def
  by (rule boardOf_constructed) (rule enpassant_position_facts)+

lemma enpassant_board_facts:
  "board_inv enpassant_board" "kings_cached enpassant_board" "itemsLength enpassant_board = 67"
  "historyCounter enpassant_board = 0"
  using constructor_board [OF enpassant_board_constructed]
    constructor_kings [OF enpassant_board_constructed enpassant_position_facts(8,9)]
  by (simp_all add: enpassant_position_facts)

lemma enpassant_board_squares:
  "items enpassant_board 28 = 1" "items enpassant_board 27 = - 1" "items enpassant_board 19 = 0"
  by (simp_all add: constructor_board(6) [OF enpassant_board_constructed] enpassant_position_def)

lemma enpassant_legal: "legal_shape enpassant_board 1 28 19"
  by (simp add: legal_shape_def enpassant_board_squares const_defs Let_def)

lemma middlegame_position_facts:
  "67 \<le> length middlegame_position"
  "6 \<in> set middlegame_position" "- 6 \<in> set middlegame_position"
  "squaresInRange middlegame_position"
  by (simp_all add: middlegame_position_def squaresInRange_def)

lemma middlegame_board_constructed:
  "constructor sample_env middlegame_position = Inr middlegame_board"
  unfolding middlegame_board_def
  by (rule boardOf_constructed) (rule middlegame_position_facts)+

lemma middlegame_board_squares:
  "items middlegame_board 42 = 2" "items middlegame_board 27 = - 1"
  by (simp_all add: constructor_board(6) [OF middlegame_board_constructed] middlegame_position_def)

lemma middlegame_legal: "legal_shape middlegame_board 2 42 27"
  by (simp add: legal_shape_def middlegame_board_squares const_defs Let_def)

lemma middlegame_not_endgame: "\<not> endgameCondition middlegame_board"
  by (simp add: endgameCondition_def countPieces_def
      squaresOf_constructed [OF middlegame_board_constructed] middlegame_position_def const_defs)

lemma middlegame_capture_endgame:
  "endgameCondition (fst (performMove sample_env 2 42 27 middlegame_board))"
proof -
  have len: "67 \<le> itemsLength middlegame_board"
    using constructor_board(2) [OF middlegame_board_constructed] middlegame_position_facts(1)
    by simp
  have "squaresOf (fst (performMove sample_env 2 42 27 middlegame_board))
      = (take 64 middlegame_position)[42 := 0, 27 := 2]"
    using squaresOf_capture [OF len, of 42 27 sample_env 2]
    by (simp add: middlegame_board_squares squaresOf_constructed [OF middlegame_board_constructed])
  then show ?thesis
    by (simp add: endgameCondition_def countPieces_def middlegame_position_def const_defs
        eval_nat_numeral)
qed

lemma knight_ending_position_facts:
  "67 \<le> length knight_ending_position"
  "6 \<in> set knight_ending_position" "- 6 \<in> set knight_ending_position"
  "squaresInRange knight_ending_position"
  "count_list (take 64 knight_ending_position) 6 = 1"
  "count_list (take 64 knight_ending_position) (- 6) = 1"
  by (simp_all add: knight_ending_position_def squaresInRange_def)

lemma knight_ending_board_constructed:
  "constructor sample_env knight_ending_position = Inr knight_ending_board"
  unfolding knight_ending_board_def
  by (rule boardOf_constructed) (rule knight_ending_position_facts)+

lemma knight_ending_minor: "kingsAndAtMostOneMinor knight_ending_board"
  by (simp add: kingsAndAtMostOneMinor_def countPieces_def
      squaresOf_constructed [OF knight_ending_board_constructed] knight_ending_position_def
      const_defs)

lemma sample_env_sound: "pawnAttacksSound sample_env"
  by (auto simp: pawnAttacksSound_def sample_env_def bit_simps add.commute)



section \<open>Undoing moves restores the board\<close>

text \<open>
  Claim C1, as amended.  Let \<open>b\<close> be a board of 67 entries (as the constructor builds it
  from a vector of 67 entries, the state in entry 66) whose bitboards decompose the squares
  and whose cached king squares are those of the two kings, with room in the history
  arrays for the moves, and let \<open>ms\<close> be a sequence of moves, each of legal shape in the
  position it is made in.  Calling \<open>performMove\<close> for the moves in order and then
  \<open>undoMove\<close> for them in reverse order, each \<open>undoMove\<close> with the piece that stood on the
  start square before the move (the signed piece code, not the piece id passed to
  \<open>performMove\<close>), the squares of the move and the value \<open>performMove\<close> returned, leaves
  the hash, both scores, the state, the half-move clock, the 64 squares, the twelve piece
  bitboards, both occupancy bitboards and both cached king squares as they were.

  The history arrays hold \<open>MAX_GAME_HALFMOVES\<close> frames and are accessed unchecked, hence the
  bound on the history counter.  \<open>storeState\<close> and \<open>restoreState\<close> save and restore entry
  66 of \<open>items\<close>, while the state is read and written in the last entry: the two agree
  for a board of 67 entries.
\<close>

theorem perform_undo_round_trip:
  assumes "board_inv b" and "kings_cached b" and "itemsLength b = 67"
    and "0 \<le> historyCounter b"
    and "historyCounter b + int (length ms) \<le> MAX_GAME_HALFMOVES"
    and "legal_seq env b ms"
  shows "hashCode (roundTrip env b ms) = hashCode b
       \<and> score (roundTrip env b ms) = score b
       \<and> egScore (roundTrip env b ms) = egScore b
       \<and> getState (roundTrip env b ms) = getState b
       \<and> halfMoveClock (roundTrip env b ms) = halfMoveClock b
       \<and> (\<forall>s\<in>{0..63}. getItem (roundTrip env b ms) s = getItem b s)
       \<and> (\<forall>p\<in>set pieceCodes. getBitBoard (roundTrip env b ms) p = getBitBoard b p)
       \<and> getAllPieceBitBoard (roundTrip env b ms) WHITE = getAllPieceBitBoard b WHITE
       \<and> getAllPieceBitBoard (roundTrip env b ms) BLACK = getAllPieceBitBoard b BLACK
       \<and> whiteKingIndex (roundTrip env b ms) = whiteKingIndex b
       \<and> blackKingIndex (roundTrip env b ms) = blackKingIndex b"
proof -
  let ?r = "roundTrip env b ms"
  from roundTrip_same [OF assms(1-3,6)]
  have inv: "board_inv ?r" and sp: "same_position (historyCounter b) b ?r"
    by simp_all
  note s = sp [unfolded same_position_def]
  have m: "mailbox ?r = mailbox b" using s by simp
  have sq: "\<forall>s\<in>{0..63}. getItem ?r s = getItem b s"
    using mailbox_eqD [OF m] by (simp add: getItem_def)
  have pc: "\<forall>p\<in>set pieceCodes. getBitBoard ?r p = getBitBoard b p"
    using board_inv_bitboards(1) [OF inv assms(1) m] by (auto simp: pieceCodes_def)
  have oc: "getAllPieceBitBoard ?r WHITE = getAllPieceBitBoard b WHITE"
    "getAllPieceBitBoard ?r BLACK = getAllPieceBitBoard b BLACK"
    using board_inv_bitboards(2) [OF inv assms(1) m] by (simp_all add: WHITE_def BLACK_def)
  show ?thesis
    using s sq pc oc by simp
qed

theorem perform_undo_round_trip_witness:
  "board_inv exchange_board \<and> kings_cached exchange_board \<and> itemsLength exchange_board = 67
   \<and> 0 \<le> historyCounter exchange_board
   \<and> historyCounter exchange_board + int (length [(2, 42, 27), (1 :: int, 20 :: int, 27 :: int)])
        \<le> MAX_GAME_HALFMOVES
   \<and> legal_seq sample_env exchange_board [(2, 42, 27), (1, 20, 27)]
   \<and> hashCode (roundTrip sample_env exchange_board [(2, 42, 27), (1, 20, 27)])
       = hashCode exchange_board
   \<and> getState (roundTrip sample_env exchange_board [(2, 42, 27), (1, 20, 27)])
       = getState exchange_board
   \<and> getItem (roundTrip sample_env exchange_board [(2, 42, 27), (1, 20, 27)]) 27
       = getItem exchange_board 27
   \<and> getBitBoard (roundTrip sample_env exchange_board [(2, 42, 27), (1, 20, 27)]) 2
       = getBitBoard exchange_board 2
   \<and> getAllPieceBitBoard (roundTrip sample_env exchange_board [(2, 42, 27), (1, 20, 27)]) WHITE
       = getAllPieceBitBoard exchange_board WHITE"
proof -
  have h: "historyCounter exchange_board + int (length [(2, 42, 27), (1 :: int, 20 :: int, 27 :: int)])
        \<le> MAX_GAME_HALFMOVES" "0 \<le> historyCounter exchange_board"
    by (simp_all add: exchange_board_facts MAX_GAME_HALFMOVES_def)
  note t = perform_undo_round_trip [OF exchange_board_facts(1-3) h(2,1) exchange_legal_seq]
  have "(27 :: int) \<in> {0..63}" "(2 :: int) \<in> set pieceCodes"
    by (simp_all add: pieceCodes_def)
  then show ?thesis
    using t h exchange_board_facts(1-3) exchange_legal_seq by blast
qed

text \<open>
  Claim C1 as stated fails: it gives \<open>undoMove\<close> "the same piece id" as \<open>performMove\<close>.
  In \<open>exchange_position\<close> the black pawn on square 20 steps to square 28,
  \<open>performMove(1, 20, 28)\<close>; \<open>undoMove(1, 20, 28, 0)\<close> then takes the colour of the piece
  from the sign of its first argument and puts a white pawn on square 20.
\<close>

theorem undo_with_piece_id_counterexample:
  "board_inv exchange_board \<and> kings_cached exchange_board
   \<and> legal_seq sample_env exchange_board [(1, 20, 28)]
   \<and> getItem exchange_board 20 = - 1
   \<and> getItem (roundTripSameId sample_env exchange_board [(1, 20, 28)]) 20 = 1"
proof -
  have len: "67 \<le> itemsLength exchange_board"
    by (simp add: exchange_board_facts)
  have ret: "snd (performMove sample_env 1 20 28 exchange_board) = 0"
    using performMove_returns [OF len, of 20 28 sample_env 1]
    by (simp add: exchange_board_squares diagonalPawnStep_def EMPTY_def PAWN_def)
  have "items (roundTripSameId sample_env exchange_board [(1, 20, 28)]) 20 = 1"
    by (simp add: ret undoMove_eqs(1))
  then show ?thesis
    using exchange_board_facts(1,2) exchange_legal(2)
    by (simp add: getItem_def exchange_board_squares)
qed


section \<open>The value returned by \<open>performMove\<close>\<close>

text \<open>
  Claim C2.  For every move of legal shape on a consistent board, \<open>performMove\<close> returns
  the magnitude of the piece on the end square, a value in 1..6, when the end square is
  occupied; the constant \<open>EN_PASSANT_BIT\<close> (\<open>1 << 31\<close> as an \<open>i32\<close>) when the end square is empty
  and a pawn steps diagonally, which is the en-passant capture; and \<open>EMPTY\<close>, which is 0,
  when the end square is empty otherwise.
\<close>

theorem perform_move_return_value:
  assumes "board_inv b" and "legal_shape b pieceId start endp"
  shows "(items b endp \<noteq> 0 \<longrightarrow>
            snd (performMove env pieceId start endp b) = \<bar>items b endp\<bar>
          \<and> 1 \<le> snd (performMove env pieceId start endp b)
          \<and> snd (performMove env pieceId start endp b) \<le> 6)
       \<and> (items b endp = 0 \<and> diagonalPawnStep (items b start) start endp \<longrightarrow>
            snd (performMove env pieceId start endp b) = EN_PASSANT_BIT)
       \<and> (items b endp = 0 \<and> \<not> diagonalPawnStep (items b start) start endp \<longrightarrow>
            snd (performMove env pieceId start endp b) = EMPTY)"
proof -
  note d = legal_shapeD [OF assms(2)]
  have len: "67 \<le> itemsLength b" using assms(1) by (simp add: board_inv_def)
  have r: "items b endp \<in> {- 6..6}"
    using assms(1) d unfolding board_inv_def by simp
  note ret = performMove_returns [OF len d(1-5), of env pieceId]
  show ?thesis
    using ret r by auto
qed

theorem perform_move_return_value_witness:
  "board_inv exchange_board \<and> legal_shape exchange_board 2 42 27
   \<and> snd (performMove sample_env 2 42 27 exchange_board) = 1
   \<and> legal_shape exchange_board 1 20 28
   \<and> snd (performMove sample_env 1 20 28 exchange_board) = 0
   \<and> board_inv enpassant_board \<and> legal_shape enpassant_board 1 28 19
   \<and> snd (performMove sample_env 1 28 19 enpassant_board) = EN_PASSANT_BIT"
  using perform_move_return_value [OF exchange_board_facts(1) exchange_legal(1), of sample_env]
    perform_move_return_value [OF exchange_board_facts(1) exchange_legal(2), of sample_env]
    perform_move_return_value [OF enpassant_board_facts(1) enpassant_legal, of sample_env]
    exchange_board_facts(1) exchange_legal enpassant_board_facts(1) enpassant_legal
  by (simp add: exchange_board_squares enpassant_board_squares diagonalPawnStep_def
      EMPTY_def PAWN_def)


section \<open>The bitboards decompose the squares\<close>

text \<open>
  Claim C3.  The board the constructor returns is consistent (\<open>board_inv\<close>); \<open>performMove\<close>
  for a move of legal shape, \<open>undoMove\<close> for the move just made, \<open>performNullMove\<close> and
  \<open>undoNullMove\<close> keep it consistent; and on a consistent board, for every square \<open>s\<close>, the
  square is occupied iff exactly one of the twelve piece bitboards has bit \<open>s\<close> set, and then
  that bit lies in the bitboard of the piece on the square and in the occupancy bitboard
  of its colour (\<open>mailbox_decomposed\<close>).
\<close>

theorem bitboards_decompose_mailbox:
  "(constructor env xs = Inr b \<longrightarrow> board_inv b)
   \<and> (board_inv b \<and> legal_shape b pieceId start endp \<longrightarrow>
         board_inv (fst (performMove env pieceId start endp b)))
   \<and> (board_inv b \<and> kings_cached b \<and> legal_shape b pieceId start endp \<longrightarrow>
         board_inv (undoMove env (items b start) start endp
            (snd (performMove env pieceId start endp b))
            (fst (performMove env pieceId start endp b))))
   \<and> (board_inv b \<longrightarrow> board_inv (performNullMove env b))
   \<and> (board_inv b \<longrightarrow> board_inv (undoNullMove b))
   \<and> (board_inv b \<longrightarrow> mailbox_decomposed b)"
  using constructor_board(1) performMove_inv board_inv_undo board_inv_null_moves
    board_inv_decomposed
  by blast

theorem bitboards_decompose_mailbox_witness:
  "constructor sample_env exchange_position = Inr exchange_board
   \<and> kings_cached exchange_board \<and> legal_shape exchange_board 2 42 27
   \<and> board_inv exchange_board
   \<and> board_inv (fst (performMove sample_env 2 42 27 exchange_board))
   \<and> board_inv (undoMove sample_env (items exchange_board 42) 42 27
            (snd (performMove sample_env 2 42 27 exchange_board))
            (fst (performMove sample_env 2 42 27 exchange_board)))
   \<and> board_inv (performNullMove sample_env exchange_board)
   \<and> board_inv (undoNullMove exchange_board)
   \<and> mailbox_decomposed exchange_board"
  using bitboards_decompose_mailbox [of sample_env exchange_position exchange_board 2 42 27]
    exchange_board_constructed exchange_board_facts(2) exchange_legal(1)
  by blast


section \<open>Static exchange evaluation\<close>

text \<open>
  Claim C10.  With pawn attack functions as the specification describes them, for every
  board and all arguments, \<open>seeScore\<close> returns within 64 iterations of its loop; and
  whenever \<open>findSmallestAttacker\<close> returns a square (a value that is not negative), the bit
  of that square is set in the occupied bitboard it was given, so that clearing it, as
  the loop does before it goes on, leaves fewer bits set.
\<close>

theorem see_score_terminates:
  assumes "pawnAttacksSound env"
  shows "(\<exists>r. seeScore 64 env b opponentColor from target ownPieceId capturedPieceId = Some r)
       \<and> (\<forall>occupied color.
             0 \<le> findSmallestAttacker env b occupied color target \<longrightarrow>
               bit occupied (nat (findSmallestAttacker env b occupied color target mod 64))
             \<and> card {n. bit (occupied AND NOT (bit64 (findSmallestAttacker env b occupied color target))) n}
                 < card {n. bit occupied n})"
proof -
  have "card {n. bit (getOccupancyBitboard b AND NOT (bit64 from)) n} < 2 * 64"
    using card_bits_u64 [of "getOccupancyBitboard b AND NOT (bit64 from)"] by simp
  then have "\<exists>r. seeScore 64 env b opponentColor from target ownPieceId capturedPieceId = Some r"
    unfolding seeScore_def by (rule seeLoop_returns [OF assms])
  then show ?thesis
    using attacker_occupied [OF assms] card_clear by blast
qed

theorem see_score_terminates_witness:
  "pawnAttacksSound sample_env
   \<and> (\<exists>r. seeScore 64 sample_env exchange_board BLACK 42 27 KNIGHT PAWN = Some r)"
  using see_score_terminates [OF sample_env_sound, of exchange_board BLACK 42 27 KNIGHT PAWN]
    sample_env_sound
  by blast





section \<open>Draws the engine assumes\<close>

text \<open>
  Claim C6.  On a consistent board, \<open>isEngineDraw\<close> holds iff the position history reports
  a single repetition, or the half-move clock is at least 100, or
  \<open>isInsufficientMaterialDraw\<close> holds; \<open>isInsufficientMaterialDraw\<close> holds exactly for two
  pieces on the board, for three pieces one of which is a knight or a bishop, and for
  four pieces with a white and a black bishop on squares of the same colour; so it holds
  for every position of the two kings and at most one knight or bishop.
\<close>

theorem engine_draw_and_insufficient_material:
  assumes "board_inv b"
  shows "(isEngineDraw env b \<longleftrightarrow>
            isSingleRepetition env (positionHistory b) \<or> 100 \<le> getHalfMoveClock b
          \<or> isInsufficientMaterialDraw env b)
       \<and> (isInsufficientMaterialDraw env b \<longleftrightarrow> insufficientMaterial env b)
       \<and> (kingsAndAtMostOneMinor b \<longrightarrow> isInsufficientMaterialDraw env b)"
  using insufficient_material_iff [OF assms, of env] kings_minor_insufficient [of b env]
  by (auto simp: isEngineDraw_def isFiftyMoveDraw_def)

theorem engine_draw_and_insufficient_material_witness:
  "board_inv knight_ending_board \<and> kingsAndAtMostOneMinor knight_ending_board
   \<and> insufficientMaterial sample_env knight_ending_board
   \<and> isInsufficientMaterialDraw sample_env knight_ending_board
   \<and> isEngineDraw sample_env knight_ending_board"
  using engine_draw_and_insufficient_material
      [OF constructor_board(1) [OF knight_ending_board_constructed], of sample_env]
    constructor_board(1) [OF knight_ending_board_constructed] knight_ending_minor
  by blast


section \<open>The doubled pawn penalty\<close>

lemma legalPawnSquares_bit:
  assumes "legalPawnSquares pawns" "bit pawns i"
  shows "8 \<le> i \<and> i < 56"
proof -
  have "\<not> bit (pawns AND (mask 8 OR push_bit 56 (mask 8))) i"
    using assms(1) by (simp add: legalPawnSquares_def)
  moreover have "i < 64"
    using assms(2) by (auto dest: bit_imp_le_length)
  ultimately show ?thesis
    using assms(2) by (auto simp: bit_simps)
qed

lemma countedAsDoubledI:
  assumes "bit pawns j"
    and "j = i + 8 \<or> j = i + 16 \<or> j = i + 24 \<or> j = i + 32 \<or> i = j + 32 \<or> i = j + 40"
  shows "countedAsDoubled pawns i"
proof -
  have "j \<in> set [0..<64]"
    using assms(1) by (auto dest: bit_imp_le_length)
  then show ?thesis
    unfolding countedAsDoubled_def using assms by blast
qed

lemma rotr_bits:
  assumes "i < 64"
  shows "bit (rotr pawns m) i \<longleftrightarrow> bit pawns ((i + m) mod 64)"
  using assms by (simp add: rotr_def bit_word_rotr_iff)

lemma doubled_bit_iff:
  assumes "legalPawnSquares pawns" "i < 64"
  shows "bit ((pawns AND rotr pawns 8) OR (pawns AND rotr pawns 16)
              OR (pawns AND rotr pawns 24) OR (pawns AND rotr pawns 32)) i
         \<longleftrightarrow> bit pawns i \<and> countedAsDoubled pawns i"
proof (cases "bit pawns i")
  case False
  then show ?thesis by (simp add: bit_simps)
next
  case True
  then have i: "8 \<le> i" "i < 56"
    using legalPawnSquares_bit [OF assms(1)] by auto
  have lo: "\<And>j. j < 8 \<Longrightarrow> \<not> bit pawns j"
    using legalPawnSquares_bit [OF assms(1)] by fastforce
  have hi: "\<And>j. 56 \<le> j \<Longrightarrow> \<not> bit pawns j"
    using legalPawnSquares_bit [OF assms(1)] by fastforce
  have big: "\<And>j. 64 \<le> j \<Longrightarrow> \<not> bit pawns j"
    by (auto dest: bit_imp_le_length)
  have r8: "bit pawns ((i + 8) mod 64) \<longleftrightarrow> bit pawns (i + 8)"
    using i by simp
  have r16: "bit pawns ((i + 16) mod 64) \<longleftrightarrow> bit pawns (i + 16)"
  proof (cases "i + 16 < 64")
    case True
    then show ?thesis by simp
  next
    case False
    then have "(i + 16) mod 64 = i - 48"
      using i by (simp add: mod_if)
    moreover have "\<not> bit pawns (i - 48)"
      using lo [of "i - 48"] i by simp
    moreover have "\<not> bit pawns (i + 16)"
      using big [of "i + 16"] False by simp
    ultimately show ?thesis by simp
  qed
  have r24: "bit pawns ((i + 24) mod 64) \<longleftrightarrow> bit pawns (i + 24) \<or> (40 \<le> i \<and> bit pawns (i - 40))"
  proof (cases "i + 24 < 64")
    case True
    then show ?thesis by simp
  next
    case False
    then have "(i + 24) mod 64 = i - 40"
      using i by (simp add: mod_if)
    moreover have "\<not> bit pawns (i + 24)"
      using big [of "i + 24"] False by simp
    moreover have "40 \<le> i"
      using False by simp
    ultimately show ?thesis by simp
  qed
  have r32: "bit pawns ((i + 32) mod 64) \<longleftrightarrow> bit pawns (i + 32) \<or> (32 \<le> i \<and> bit pawns (i - 32))"
  proof (cases "i + 32 < 64")
    case True
    then show ?thesis by simp
  next
    case False
    then have "(i + 32) mod 64 = i - 32"
      using i by (simp add: mod_if)
    moreover have "\<not> bit pawns (i + 32)"
      using big [of "i + 32"] False by simp
    moreover have "32 \<le> i"
      using False by simp
    ultimately show ?thesis by simp
  qed
  have "countedAsDoubled pawns i \<longleftrightarrow>
      bit pawns (i + 8) \<or> bit pawns (i + 16) \<or> bit pawns (i + 24) \<or> bit pawns (i + 32)
      \<or> (32 \<le> i \<and> bit pawns (i - 32)) \<or> (40 \<le> i \<and> bit pawns (i - 40))"
  proof
    assume "countedAsDoubled pawns i"
    then obtain j where j: "bit pawns j"
      "j = i + 8 \<or> j = i + 16 \<or> j = i + 24 \<or> j = i + 32 \<or> i = j + 32 \<or> i = j + 40"
      by (auto simp: countedAsDoubled_def)
    then show "bit pawns (i + 8) \<or> bit pawns (i + 16) \<or> bit pawns (i + 24) \<or> bit pawns (i + 32)
      \<or> (32 \<le> i \<and> bit pawns (i - 32)) \<or> (40 \<le> i \<and> bit pawns (i - 40))"
      by auto
  next
    assume a: "bit pawns (i + 8) \<or> bit pawns (i + 16) \<or> bit pawns (i + 24) \<or> bit pawns (i + 32)
      \<or> (32 \<le> i \<and> bit pawns (i - 32)) \<or> (40 \<le> i \<and> bit pawns (i - 40))"
    from a consider "bit pawns (i + 8)" | "bit pawns (i + 16)" | "bit pawns (i + 24)"
      | "bit pawns (i + 32)" | "32 \<le> i" "bit pawns (i - 32)" | "40 \<le> i" "bit pawns (i - 40)"
      by blast
    then show "countedAsDoubled pawns i"
    proof cases
      case 1
      then show ?thesis by (rule countedAsDoubledI) simp
    next
      case 2
      then show ?thesis by (rule countedAsDoubledI) simp
    next
      case 3
      then show ?thesis by (rule countedAsDoubledI) simp
    next
      case 4
      then show ?thesis by (rule countedAsDoubledI) simp
    next
      case 5
      from 5(2) show ?thesis by (rule countedAsDoubledI) (use 5(1) in simp)
    next
      case 6
      from 6(2) show ?thesis by (rule countedAsDoubledI) (use 6(1) in simp)
    qed
  qed
  then show ?thesis
    using True assms(2) by (simp add: bit_simps rotr_bits r8 r16 r24 r32) blast
qed

text \<open>
  Claim C7, as amended.  For every pawn bitboard with all pawns on ranks 1..6, the doubled
  pawn penalty is six times the population count of
  \<open>pawns & (rotr(pawns,8) | rotr(pawns,16) | rotr(pawns,24) | rotr(pawns,32))\<close>, and that
  count is the number of pawns that have another pawn on the same file one to four ranks
  further on (at the index plus 8, 16, 24 or 32), four ranks back (at the index minus 32)
  or five ranks back (at the index minus 40, through the wrap-around of the rotation by 24).
\<close>

theorem doubled_pawn_penalty_counts:
  assumes "legalPawnSquares pawns"
  shows "calcDoubledPawnPenalty pawns =
           popcnt (pawns AND (rotr pawns 8 OR rotr pawns 16 OR rotr pawns 24 OR rotr pawns 32)) * 6
       \<and> popcnt (pawns AND (rotr pawns 8 OR rotr pawns 16 OR rotr pawns 24 OR rotr pawns 32)) =
           int (length (filter (\<lambda>i. bit pawns i \<and> countedAsDoubled pawns i) [0..<64]))"
proof -
  have distrib: "(pawns AND rotr pawns 8) OR (pawns AND rotr pawns 16)
        OR (pawns AND rotr pawns 24) OR (pawns AND rotr pawns 32)
      = pawns AND (rotr pawns 8 OR rotr pawns 16 OR rotr pawns 24 OR rotr pawns 32)"
    by (simp add: bit_eq_iff bit_simps) blast
  have "filter (bit ((pawns AND rotr pawns 8) OR (pawns AND rotr pawns 16)
        OR (pawns AND rotr pawns 24) OR (pawns AND rotr pawns 32))) [0..<64]
      = filter (\<lambda>i. bit pawns i \<and> countedAsDoubled pawns i) [0..<64]"
    by (rule filter_cong [OF refl]) (simp add: doubled_bit_iff [OF assms])
  then show ?thesis
    by (simp add: calcDoubledPawnPenalty_def DOUBLED_PAWN_PENALTY_def popcnt_def distrib Let_def)
qed

theorem doubled_pawn_penalty_counts_witness:
  "legalPawnSquares 0x10100
   \<and> calcDoubledPawnPenalty 0x10100 =
       popcnt (0x10100 AND (rotr 0x10100 8 OR rotr 0x10100 16 OR rotr 0x10100 24 OR rotr 0x10100 32)) * 6
   \<and> popcnt (0x10100 AND (rotr 0x10100 8 OR rotr 0x10100 16 OR rotr 0x10100 24 OR rotr 0x10100 32)) =
       int (length (filter (\<lambda>i. bit (0x10100 :: u64) i \<and> countedAsDoubled 0x10100 i) [0..<64]))"
proof -
  have h: "legalPawnSquares 0x10100"
    by code_simp
  show ?thesis
    using h doubled_pawn_penalty_counts [OF h] by simp
qed

text \<open>
  Claim C7 as stated fails: with pawns on the squares 8 and 16 (the same file, one rank
  apart) both pawns have another pawn on their file within 4 ranks, so the claimed count
  gives 2 * 6 = 12, and the penalty of the code is 6.
\<close>

theorem doubled_pawn_penalty_counterexample:
  "legalPawnSquares 0x10100 \<and> calcDoubledPawnPenalty 0x10100 = 6
   \<and> doubledPawnsClaimed 0x10100 * 6 = 12"
  by code_simp


section \<open>The endgame flag\<close>

text \<open>
  Claim C8, as amended.  The endgame flag is computed by \<open>updateEndGameStatus\<close> only, which
  the constructor calls last: after \<open>updateEndGameStatus\<close> on a consistent board, and so for
  the board the constructor returns, the flag is set iff the position has at most three
  pawns or at most three pieces that are neither king nor pawn.  \<open>performMove\<close>,
  \<open>undoMove\<close>, \<open>performNullMove\<close> and \<open>undoNullMove\<close> leave the flag as it is.
\<close>

theorem endgame_flag_set_by_update_only:
  "(board_inv b \<longrightarrow> (isEndGame (updateEndGameStatus b) \<longleftrightarrow> endgameCondition b))
   \<and> (constructor env xs = Inr b \<longrightarrow> (isEndGame b \<longleftrightarrow> endgameCondition b))
   \<and> isEndGame (fst (performMove env pieceId start endp b)) = isEndGame b
   \<and> isEndGame (undoMove env piece start endp removedPieceId b) = isEndGame b
   \<and> isEndGame (performNullMove env b) = isEndGame b
   \<and> isEndGame (undoNullMove b) = isEndGame b"
  using endgame_after_update constructor_endgame endgame_unchanged by blast

theorem endgame_flag_set_by_update_only_witness:
  "board_inv middlegame_board
   \<and> constructor sample_env middlegame_position = Inr middlegame_board
   \<and> isEndGame (updateEndGameStatus middlegame_board) = endgameCondition middlegame_board
   \<and> isEndGame middlegame_board = endgameCondition middlegame_board
   \<and> isEndGame (fst (performMove sample_env 2 42 27 middlegame_board)) = isEndGame middlegame_board"
  using endgame_flag_set_by_update_only [of middlegame_board sample_env middlegame_position 2 42 27]
    middlegame_board_constructed constructor_board(1) [OF middlegame_board_constructed]
  by blast

text \<open>
  Claim C8 as stated fails.  In \<open>middlegame_position\<close> there are four pawns and four
  other pieces, so the constructor leaves the flag at 0.  After the knight on c3 has
  taken the pawn on d5, \<open>performMove(2, 42, 27)\<close>, three pawns are left and the predicate
  holds, while the flag is still 0.
\<close>

theorem endgame_flag_stale_counterexample:
  "constructor sample_env middlegame_position = Inr middlegame_board
   \<and> legal_shape middlegame_board 2 42 27
   \<and> endgameCondition (fst (performMove sample_env 2 42 27 middlegame_board))
   \<and> \<not> isEndGame (fst (performMove sample_env 2 42 27 middlegame_board))"
  using middlegame_board_constructed middlegame_legal middlegame_capture_endgame
    middlegame_not_endgame constructor_endgame [OF middlegame_board_constructed]
  by (simp add: endgame_unchanged)


section \<open>Errors of the constructor\<close>





end
